(* ===== verification/Go_Prelude.thy ===== *)
theory Go_Prelude
  imports Main "HOL-Library.Multiset" "HOL-Library.List_Lexorder" "HOL-Library.Char_ord"
begin

text \<open>
  Shared vocabulary of the development: Go's error values, results, the string operations of
  \<^verbatim>\<open>strings\<close>, \<^verbatim>\<open>strconv\<close>, \<^verbatim>\<open>fmt\<close> and \<^verbatim>\<open>net/url\<close> that the sources call, the iteration order of Go
  maps, and the chunking loop that three packages contain. A Go function returning
  \<^verbatim>\<open>(T, error)\<close> is a function into \<open>'a result\<close>; a function on mutable state returns the result
  paired with the new state. Go's \<^verbatim>\<open>int\<close> is modelled by \<open>int\<close>: every integer of the modelled code
  is a port, a row id, a count of list elements or a configuration value, far below \<open>2 ^ 63\<close>.
\<close>

named_theorems go_defs \<open>definitions of the small, branch-free operations of the model\<close>
named_theorems go_splits \<open>case splits of the results and options the operations return\<close>

subsection \<open>Errors and results\<close>

text \<open>
  Error values. \<open>ErrNoRows\<close> and \<open>ErrTxDone\<close> are the sentinels of \<^verbatim>\<open>database/sql\<close>; \<open>DriverError\<close> is
  an error of the database driver; \<open>ErrText\<close> is \<^verbatim>\<open>errors.New\<close> or a \<^verbatim>\<open>fmt.Errorf\<close> without a cause;
  \<open>Errorf\<close> is \<^verbatim>\<open>fmt.Errorf("prefix: %s", err)\<close>, which keeps only the text of its cause and so is
  never equal to a sentinel; \<open>ErrorfBoth\<close> formats two causes. \<open>Panic\<close> marks a call that panics.
\<close>

datatype go_error =
    ErrNoRows
  | ErrTxDone
  | ErrText string
  | DriverError string
  | ScanError
  | Panic string
  | ReadError string
  | JsonError string
  | HttpResponseCodeError int string
  | BadUaaResponse int string
  | Errorf string go_error
  | ErrorfBoth string go_error string go_error string

type_synonym 'a result = "go_error + 'a"

lemmas [go_splits] = sum.splits option.splits prod.splits if_splits

fun is_ok :: "'a result \<Rightarrow> bool" where
  "is_ok (Inl e) = False"
| "is_ok (Inr x) = True"

lemma is_ok_iff [simp]: "is_ok r \<longleftrightarrow> (\<exists>x. r = Inr x)"
  by (cases r) auto

subsection \<open>Numbers as text\<close>

definition digit_char :: "nat \<Rightarrow> char" where
  "digit_char d = (if d < 10 then char_of (48 + d) else char_of (55 + d))"

definition char_digit :: "char \<Rightarrow> nat" where
  "char_digit c = (let k = of_char c :: nat in if k < 58 then k - 48 else k - 55)"

fun digits_base :: "nat \<Rightarrow> nat \<Rightarrow> string" where
  "digits_base b n =
     (if b < 2 \<or> n < b then [digit_char n] else digits_base b (n div b) @ [digit_char (n mod b)])"

definition value_base :: "nat \<Rightarrow> string \<Rightarrow> nat" where
  "value_base b s = foldl (\<lambda>acc c. acc * b + char_digit c) 0 s"

declare digits_base.simps [simp del]

definition itoa :: "int \<Rightarrow> string" where
  "itoa i = (if i < 0 then ''-'' @ digits_base 10 (nat (- i)) else digits_base 10 (nat i))"

text \<open>\<^verbatim>\<open>fmt.Sprintf("%0<w>X", n)\<close>: upper-case hexadecimal, zero-padded to width \<open>w\<close>, the sign first.\<close>

definition pad_zero :: "nat \<Rightarrow> string \<Rightarrow> string" where
  "pad_zero w s = replicate (w - length s) (CHR ''0'') @ s"

definition format_hex :: "nat \<Rightarrow> int \<Rightarrow> string" where
  "format_hex w n =
     (if n < 0 then ''-'' @ pad_zero (w - 1) (digits_base 16 (nat (- n)))
      else pad_zero w (digits_base 16 (nat n)))"

lemma char_digit_digit_char [simp]: "d < 16 \<Longrightarrow> char_digit (digit_char d) = d"
  by (simp add: char_digit_def digit_char_def)

lemma value_base_snoc [simp]: "value_base b (s @ [c]) = value_base b s * b + char_digit c"
  by (simp add: value_base_def)

lemma value_base_digits: "2 \<le> b \<Longrightarrow> b \<le> 16 \<Longrightarrow> value_base b (digits_base b n) = n"
proof (induction b n rule: digits_base.induct)
  case (1 b n)
  show ?case
  proof (cases "n < b")
    case True
    with 1 show ?thesis by (simp add: digits_base.simps [of b n] value_base_def)
  next
    case False
    with 1 have "value_base b (digits_base b (n div b)) = n div b" by simp
    moreover have "n mod b < 16"
    proof -
      from 1 have "n mod b < b" by simp
      with \<open>b \<le> 16\<close> show ?thesis by linarith
    qed
    ultimately show ?thesis using False 1 by (simp add: digits_base.simps [of b n])
  qed
qed

lemma value_base_pad [simp]: "value_base b (pad_zero w s) = value_base b s"
proof -
  have "value_base b (replicate k (CHR ''0'') @ s) = value_base b s" for k
    by (induction k) (simp_all add: value_base_def char_digit_def)
  then show ?thesis by (simp add: pad_zero_def)
qed

lemma length_digits_base: "2 \<le> b \<Longrightarrow> n < b ^ k \<Longrightarrow> 0 < k \<Longrightarrow> length (digits_base b n) \<le> k"
proof (induction k arbitrary: n)
  case 0
  then show ?case by simp
next
  case (Suc k)
  show ?case
  proof (cases "n < b")
    case True
    then show ?thesis by (simp add: digits_base.simps [of b n])
  next
    case False
    with Suc.prems have "0 < k" by (cases k) auto
    moreover have "n div b < b ^ k"
      using Suc.prems by (simp add: less_mult_imp_div_less mult.commute)
    ultimately have "length (digits_base b (n div b)) \<le> k" using Suc by blast
    then show ?thesis using False by (simp add: digits_base.simps [of b n])
  qed
qed

lemma length_pad_zero: "length (pad_zero w s) = max w (length s)"
  by (simp add: pad_zero_def)

lemma format_hex_inj: "0 \<le> m \<Longrightarrow> 0 \<le> n \<Longrightarrow> format_hex w m = format_hex w n \<longleftrightarrow> m = n"
proof
  assume "0 \<le> m" "0 \<le> n" "format_hex w m = format_hex w n"
  then have "value_base 16 (digits_base 16 (nat m)) = value_base 16 (digits_base 16 (nat n))"
    by (metis format_hex_def linorder_not_less value_base_pad)
  with \<open>0 \<le> m\<close> \<open>0 \<le> n\<close> show "m = n" by (simp add: value_base_digits eq_nat_nat_iff)
qed simp

lemma itoa_inj_nonneg: "0 \<le> m \<Longrightarrow> 0 \<le> n \<Longrightarrow> itoa m = itoa n \<longleftrightarrow> m = n"
proof
  assume "0 \<le> m" "0 \<le> n" "itoa m = itoa n"
  then have "value_base 10 (digits_base 10 (nat m)) = value_base 10 (digits_base 10 (nat n))"
    by (simp add: itoa_def)
  with \<open>0 \<le> m\<close> \<open>0 \<le> n\<close> show "m = n" by (simp add: value_base_digits eq_nat_nat_iff)
qed simp


subsection \<open>Strings\<close>

text \<open>
  \<^verbatim>\<open>strings.Split(s, sep)\<close> for a one-character separator (never empty: \<^verbatim>\<open>Split("", ",")\<close> is
  \<^verbatim>\<open>[""]\<close>), \<^verbatim>\<open>strings.Join\<close>, \<^verbatim>\<open>strings.TrimPrefix\<close>, \<^verbatim>\<open>strings.HasSuffix\<close>, \<^verbatim>\<open>strings.Repeat\<close> and
  \<^verbatim>\<open>strings.Replace(s, old, new, -1)\<close> for one-character \<open>old\<close> and \<open>new\<close>.
\<close>

fun split_on :: "char \<Rightarrow> string \<Rightarrow> string list" where
  "split_on d [] = [[]]"
| "split_on d (c # s) =
     (if c = d then [] # split_on d s
      else case split_on d s of [] \<Rightarrow> [[c]] | w # ws \<Rightarrow> (c # w) # ws)"

fun join_with :: "string \<Rightarrow> string list \<Rightarrow> string" where
  "join_with sep [] = []"
| "join_with sep [w] = w"
| "join_with sep (w # w' # ws) = w @ sep @ join_with sep (w' # ws)"

fun trim_prefix :: "string \<Rightarrow> string \<Rightarrow> string" where
  "trim_prefix p s = (if take (length p) s = p then drop (length p) s else s)"

definition has_suffix :: "string \<Rightarrow> string \<Rightarrow> bool" where
  "has_suffix s x \<longleftrightarrow> length x \<le> length s \<and> drop (length s - length x) s = x"

definition repeat_string :: "string \<Rightarrow> nat \<Rightarrow> string" where
  "repeat_string s n = concat (replicate n s)"

definition replace_char :: "char \<Rightarrow> char \<Rightarrow> string \<Rightarrow> string" where
  "replace_char old new s = map (\<lambda>c. if c = old then new else c) s"

lemma split_on_not_Nil [simp]: "split_on d s \<noteq> []"
  by (cases s) (auto split: list.splits)

lemma join_with_Cons: "ws \<noteq> [] \<Longrightarrow> join_with sep (w # ws) = w @ sep @ join_with sep ws"
  by (cases ws) simp_all

lemma join_split [simp]: "join_with [d] (split_on d s) = s"
proof (induction s)
  case Nil
  then show ?case by simp
next
  case (Cons c s)
  obtain w ws where s: "split_on d s = w # ws"
    by (metis split_on_not_Nil neq_Nil_conv)
  with Cons.IH show ?case by (cases ws) auto
qed

lemma split_no_sep: "d \<notin> set w \<Longrightarrow> split_on d w = [w]"
  by (induction w) auto

lemma split_append_sep: "d \<notin> set w \<Longrightarrow> split_on d (w @ d # s) = w # split_on d s"
  by (induction w) auto

lemma split_join:
  "ws \<noteq> [] \<Longrightarrow> \<forall>w \<in> set ws. d \<notin> set w \<Longrightarrow> split_on d (join_with [d] ws) = ws"
proof (induction ws)
  case Nil
  then show ?case by simp
next
  case (Cons w ws)
  then show ?case
    by (cases "ws = []") (auto simp: join_with_Cons split_append_sep split_no_sep)
qed

lemma length_split_on: "length (split_on d s) = Suc (count_list s d)"
  by (induction s) (auto split: list.splits)

text \<open>\<^verbatim>\<open>net/url\<close>: \<^verbatim>\<open>QueryEscape\<close> on bytes, \<^verbatim>\<open>Values.Add\<close> and \<^verbatim>\<open>Values.Encode\<close> (keys sorted).\<close>

definition char_in_ranges :: "(char \<times> char) list \<Rightarrow> char \<Rightarrow> bool" where
  "char_in_ranges rs c = list_ex (\<lambda>(lo, hi). lo \<le> c \<and> c \<le> hi) rs"

definition alphanumeric :: "char \<Rightarrow> bool" where
  "alphanumeric = char_in_ranges [(CHR ''a'', CHR ''z''), (CHR ''A'', CHR ''Z''), (CHR ''0'', CHR ''9'')]"

definition unreserved :: "char \<Rightarrow> bool" where
  "unreserved c \<longleftrightarrow> alphanumeric c \<or> c \<in> set ''-_.~''"

definition escape_char :: "char \<Rightarrow> string" where
  "escape_char c =
     (if unreserved c then [c] else if c = CHR '' '' then ''+''
      else CHR ''%'' # format_hex 2 (of_char c))"

definition query_escape :: "string \<Rightarrow> string" where
  "query_escape s = concat (map escape_char s)"

type_synonym url_form = "(string \<times> string list) list"

fun values_add :: "string \<Rightarrow> string \<Rightarrow> url_form \<Rightarrow> url_form" where
  "values_add k v [] = [(k, [v])]"
| "values_add k v ((k', vs) # f) =
     (if k = k' then (k', vs @ [v]) # f else (k', vs) # values_add k v f)"

definition values_encode :: "url_form \<Rightarrow> string" where
  "values_encode f =
     join_with ''&''
       (concat (map (\<lambda>k. map (\<lambda>v. query_escape k @ ''='' @ query_escape v) (the (map_of f k)))
          (sort (map fst f))))"

subsection \<open>Iteration over Go maps\<close>

text \<open>
  Ranging over a Go map visits every key once in an order the language leaves open. The order is
  a parameter \<open>rng\<close> of the definitions that depend on it: it takes the keys in insertion order and
  returns them in the order of the run. \<open>is_range\<close> is all the language promises.
\<close>

definition is_range :: "('k list \<Rightarrow> 'k list) \<Rightarrow> bool" where
  "is_range rng \<longleftrightarrow> (\<forall>ks. mset (rng ks) = mset ks)"

lemma is_range_id [simp]: "is_range (\<lambda>ks. ks)"
  by (simp add: is_range_def)

lemma is_range_rev [simp]: "is_range rev"
  by (simp add: is_range_def)

lemma is_range_set: "is_range rng \<Longrightarrow> set (rng ks) = set ks"
  by (metis is_range_def set_mset_mset)

lemma is_range_distinct: "is_range rng \<Longrightarrow> distinct (rng ks) \<longleftrightarrow> distinct ks"
  by (metis is_range_def distinct_count_atmost_1 set_mset_mset)

lemma is_range_length: "is_range rng \<Longrightarrow> length (rng ks) = length ks"
  by (metis is_range_def size_mset)

lemmas is_range_simps = is_range_set is_range_distinct is_range_length

text \<open>The keys of a map used as a set, in insertion order.\<close>

fun insert_keys :: "'k list \<Rightarrow> 'k list \<Rightarrow> 'k list" where
  "insert_keys acc [] = acc"
| "insert_keys acc (k # ks) = insert_keys (if k \<in> set acc then acc else acc @ [k]) ks"

lemma set_insert_keys [simp]: "set (insert_keys acc ks) = set acc \<union> set ks"
  by (induction acc ks rule: insert_keys.induct) auto

lemma distinct_insert_keys [simp]: "distinct (insert_keys acc ks) \<longleftrightarrow> distinct acc"
  by (induction acc ks rule: insert_keys.induct) auto

subsection \<open>Lookup by a unique key\<close>

lemma find_unique:
  "distinct (map f xs) \<Longrightarrow> find (\<lambda>x. f x = k) xs = Some x \<longleftrightarrow> x \<in> set xs \<and> f x = k"
  by (induction xs) (auto split: if_splits)

lemma find_is_None: "find P xs = None \<longleftrightarrow> (\<forall>x \<in> set xs. \<not> P x)"
  by (induction xs) auto

lemma find_SomeD: "find P xs = Some x \<Longrightarrow> x \<in> set xs \<and> P x"
  by (induction xs) (auto split: if_splits)

lemma find_append: "find P (xs @ ys) = (case find P xs of None \<Rightarrow> find P ys | Some x \<Rightarrow> Some x)"
  by (induction xs) auto

lemma find_filter: "find P (filter Q xs) = find (\<lambda>x. Q x \<and> P x) xs"
  by (induction xs) auto

lemma find_map: "find P (map f xs) = map_option f (find (\<lambda>x. P (f x)) xs)"
  by (induction xs) auto

lemma set_map_filter: "set (List.map_filter f xs) = {y. \<exists>x \<in> set xs. f x = Some y}"
  by (induction xs) (auto simp: List.map_filter_simps split: option.splits)

subsection \<open>Slices in chunks\<close>

text \<open>
  The loop \<^verbatim>\<open>for i := 0; i < len(xs); i += sz\<close> that appends \<^verbatim>\<open>xs[i:min(i+sz, len(xs))]\<close>.
  The three callers make \<open>sz\<close> positive first; the guard keeps the definition total.
\<close>

definition slice :: "'a list \<Rightarrow> nat \<Rightarrow> nat \<Rightarrow> 'a list" where
  "slice xs i j = take (j - i) (drop i xs)"

function chunk_loop :: "nat \<Rightarrow> 'a list \<Rightarrow> nat \<Rightarrow> 'a list list" where
  "chunk_loop sz xs i =
     (if 0 < sz \<and> i < length xs
      then slice xs i (min (i + sz) (length xs)) # chunk_loop sz xs (i + sz)
      else [])"
  by pat_completeness auto
termination
  by (relation "measure (\<lambda>(sz, xs, i). length xs - i)") auto

declare chunk_loop.simps [simp del]

lemma concat_chunk_loop: "0 < sz \<Longrightarrow> concat (chunk_loop sz xs i) = drop i xs"
proof (induction sz xs i rule: chunk_loop.induct)
  case (1 sz xs i)
  show ?case
  proof (cases "i < length xs")
    case True
    with 1 have "concat (chunk_loop sz xs (i + sz)) = drop (i + sz) xs" by simp
    moreover have "slice xs i (min (i + sz) (length xs)) = take sz (drop i xs)"
      by (simp add: slice_def min_def)
    moreover have "take sz (drop i xs) @ drop (i + sz) xs = drop i xs"
      by (metis add.commute append_take_drop_id drop_drop)
    ultimately show ?thesis using True 1 by (simp add: chunk_loop.simps [of sz xs i])
  next
    case False
    then show ?thesis by (simp add: chunk_loop.simps [of sz xs i])
  qed
qed

lemma chunk_loop_sizes:
  "0 < sz \<Longrightarrow> c \<in> set (chunk_loop sz xs i) \<Longrightarrow> c \<noteq> [] \<and> length c \<le> sz"
proof (induction sz xs i rule: chunk_loop.induct)
  case (1 sz xs i)
  show ?case
  proof (cases "i < length xs")
    case True
    with 1 have "c = slice xs i (min (i + sz) (length xs)) \<or> c \<in> set (chunk_loop sz xs (i + sz))"
      by (simp add: chunk_loop.simps [of sz xs i])
    then show ?thesis
    proof
      assume "c = slice xs i (min (i + sz) (length xs))"
      with True 1(2) show ?thesis by (simp add: slice_def min_def) linarith
    next
      assume "c \<in> set (chunk_loop sz xs (i + sz))"
      with True 1(1,2) show ?thesis by blast
    qed
  next
    case False
    with 1 show ?thesis by (simp add: chunk_loop.simps [of sz xs i])
  qed
qed

lemma set_chunk_loop: "0 < sz \<Longrightarrow> \<Union> (set ` set (chunk_loop sz xs 0)) = set xs"
  using concat_chunk_loop [of sz xs 0] by (metis drop0 set_concat)

subsection \<open>Paths\<close>

text \<open>\<^verbatim>\<open>filepath.Clean\<close>, \<^verbatim>\<open>filepath.Join\<close> of two elements and \<^verbatim>\<open>filepath.Dir\<close> on Unix.\<close>

definition clean_step :: "bool \<Rightarrow> string \<Rightarrow> string list \<Rightarrow> string list" where
  "clean_step rooted c stack =
     (if c = '''' \<or> c = ''.'' then stack
      else if c = ''..'' then
        (case stack of [] \<Rightarrow> if rooted then [] else [''..'']
         | t # ts \<Rightarrow> if t = ''..'' then ''..'' # stack else ts)
      else c # stack)"

definition clean_comps :: "bool \<Rightarrow> string \<Rightarrow> string list" where
  "clean_comps rooted p = rev (fold (clean_step rooted) (split_on (CHR ''/'') p) [])"

definition is_rooted :: "string \<Rightarrow> bool" where
  "is_rooted p \<longleftrightarrow> (case p of [] \<Rightarrow> False | c # _ \<Rightarrow> c = CHR ''/'')"

definition filepath_Clean :: "string \<Rightarrow> string" where
  "filepath_Clean p = (let comps = clean_comps (is_rooted p) p in
     if is_rooted p then ''/'' @ join_with ''/'' comps
     else if comps = [] then ''.'' else join_with ''/'' comps)"

definition filepath_Join :: "string \<Rightarrow> string \<Rightarrow> string" where
  "filepath_Join a b = (if a = '''' \<and> b = '''' then '''' else if a = '''' then filepath_Clean b
     else if b = '''' then filepath_Clean a else filepath_Clean (a @ ''/'' @ b))"

definition filepath_Dir :: "string \<Rightarrow> string" where
  "filepath_Dir p = filepath_Clean (rev (dropWhile (\<lambda>c. c \<noteq> CHR ''/'') (rev p)))"

end
