(* ===== verification/Store_Tables.thy ===== *)
theory Store_Tables
  imports Go_Prelude
begin

text \<open>
  The persistent state of the policy server: the three tables that \<^verbatim>\<open>store/migrations\<close> creates, the
  database connection as the store sees it, and the three repositories \<^verbatim>\<open>GroupTable\<close>,
  \<^verbatim>\<open>DestinationTable\<close> and \<^verbatim>\<open>PolicyTable\<close> of \<^verbatim>\<open>policy-server/store\<close>. Each SQL statement of the source
  is a function on the tables. A connection also carries the outcomes of its next calls: each call
  to the driver takes one, and \<open>Some e\<close> makes that call fail with \<open>e\<close> and no effect, so that every
  error branch of the store is reachable in the model. \<open>saved\<close> holds the committed tables while a
  transaction is open. Row ids of new rows come from \<open>next_id\<close>, which a rollback does not reset, as
  with \<^verbatim>\<open>SERIAL\<close> and \<^verbatim>\<open>AUTO_INCREMENT\<close>. One client is modelled: locking clauses have no effect here.
\<close>

subsection \<open>The store's data\<close>

record Ports =
  Start :: int
  End :: int

record Source =
  src_ID :: string
  src_Tag :: string

record Destination =
  dst_ID :: string
  dst_Tag :: string
  dst_Protocol :: string
  dst_Port :: int
  dst_Ports :: Ports

record Policy =
  pol_Source :: Source
  pol_Destination :: Destination

record Tag =
  tag_ID :: string
  tag_Tag :: string

subsection \<open>Tables and connection\<close>

record group_row =
  g_id :: int
  g_guid :: "string option"

record destination_row =
  d_id :: int
  d_group_id :: int
  d_port :: int
  d_start_port :: int
  d_end_port :: int
  d_protocol :: string

record policy_row =
  p_group_id :: int
  p_destination_id :: int

record tables =
  groups :: "group_row list"
  destinations :: "destination_row list"
  policies :: "policy_row list"

record conn =
  tables :: tables
  saved :: "tables option"
  next_id :: int
  faults :: "string option list"

definition take_fault :: "conn \<Rightarrow> string option \<times> conn" where
  "take_fault c = (case faults c of [] \<Rightarrow> (None, c) | f # fs \<Rightarrow> (f, c\<lparr>faults := fs\<rparr>))"

definition Beginx :: "conn \<Rightarrow> unit result \<times> conn" where
  "Beginx c = (case take_fault c of
       (Some e, c) \<Rightarrow> (Inl (DriverError e), c)
     | (None, c) \<Rightarrow> (Inr (), c\<lparr>saved := Some (tables c)\<rparr>))"

text \<open>A commit that fails leaves the committed tables as they were and ends the transaction.\<close>

definition tx_Commit :: "conn \<Rightarrow> unit result \<times> conn" where
  "tx_Commit c = (case saved c of
       None \<Rightarrow> (Inl ErrTxDone, c)
     | Some t \<Rightarrow> (case take_fault c of
           (Some e, c) \<Rightarrow> (Inl (DriverError e), c\<lparr>tables := t, saved := None\<rparr>)
         | (None, c) \<Rightarrow> (Inr (), c\<lparr>saved := None\<rparr>)))"

definition tx_Rollback :: "conn \<Rightarrow> unit result \<times> conn" where
  "tx_Rollback c = (case saved c of
       None \<Rightarrow> (Inl ErrTxDone, c)
     | Some t \<Rightarrow> (case take_fault c of
           (Some e, c) \<Rightarrow> (Inl (DriverError e), c\<lparr>tables := t, saved := None\<rparr>)
         | (None, c) \<Rightarrow> (Inr (), c\<lparr>tables := t, saved := None\<rparr>)))"

text \<open>
  \<open>exec\<close> runs a statement that gets the id of the row it may insert and may violate a constraint;
  \<open>query_row\<close> is \<^verbatim>\<open>QueryRow(..).Scan(..)\<close>, which answers \<open>ErrNoRows\<close> on an empty result.
\<close>

definition exec :: "(int \<Rightarrow> tables \<Rightarrow> tables result) \<Rightarrow> conn \<Rightarrow> unit result \<times> conn" where
  "exec stmt c = (case take_fault c of
       (Some e, c) \<Rightarrow> (Inl (DriverError e), c)
     | (None, c) \<Rightarrow> (case stmt (next_id c) (tables c) of
           Inl e \<Rightarrow> (Inl e, c\<lparr>next_id := next_id c + 1\<rparr>)
         | Inr t \<Rightarrow> (Inr (), c\<lparr>tables := t, next_id := next_id c + 1\<rparr>)))"

definition query_row :: "(tables \<Rightarrow> 'a option) \<Rightarrow> conn \<Rightarrow> 'a result \<times> conn" where
  "query_row q c = (case take_fault c of
       (Some e, c) \<Rightarrow> (Inl (DriverError e), c)
     | (None, c) \<Rightarrow> (case q (tables c) of None \<Rightarrow> (Inl ErrNoRows, c) | Some x \<Rightarrow> (Inr x, c)))"

subsection \<open>GroupTable\<close>

definition select_group_id :: "string \<Rightarrow> tables \<Rightarrow> int option" where
  "select_group_id guid t = map_option g_id (find (\<lambda>r. g_guid r = Some guid) (groups t))"

definition blank_ids :: "tables \<Rightarrow> int list" where
  "blank_ids t = map g_id (filter (\<lambda>r. g_guid r = None) (groups t))"

definition select_first_blank :: "tables \<Rightarrow> int option" where
  "select_first_blank t = (case sort (blank_ids t) of [] \<Rightarrow> None | i # _ \<Rightarrow> Some i)"

definition set_guid :: "int \<Rightarrow> string option \<Rightarrow> tables \<Rightarrow> tables" where
  "set_guid i x t = t\<lparr>groups := map (\<lambda>r. if g_id r = i then r\<lparr>g_guid := x\<rparr> else r) (groups t)\<rparr>"

definition update_guid_stmt :: "int \<Rightarrow> string \<Rightarrow> int \<Rightarrow> tables \<Rightarrow> tables result" where
  "update_guid_stmt i guid fresh t =
     (if list_ex (\<lambda>r. g_guid r = Some guid \<and> g_id r \<noteq> i) (groups t)
      then Inl (DriverError ''unique constraint: groups.guid'')
      else Inr (set_guid i (Some guid) t))"

definition findRowByGUID :: "string \<Rightarrow> conn \<Rightarrow> int result \<times> conn" where
  "findRowByGUID guid c = query_row (select_group_id guid) c"

definition firstBlankRow :: "conn \<Rightarrow> int result \<times> conn" where
  "firstBlankRow c = query_row select_first_blank c"

definition updateRow :: "int \<Rightarrow> string \<Rightarrow> conn \<Rightarrow> unit result \<times> conn" where
  "updateRow i guid c = exec (update_guid_stmt i guid) c"

definition group_Create :: "string \<Rightarrow> conn \<Rightarrow> int result \<times> conn" where
  "group_Create guid c = (case findRowByGUID guid c of
       (Inr i, c) \<Rightarrow> (Inr i, c)
     | (Inl e, c) \<Rightarrow>
         if e = ErrNoRows then
           (case firstBlankRow c of
              (Inl e, c) \<Rightarrow> (Inl (Errorf ''failed to find available tag: '' e), c)
            | (Inr i, c) \<Rightarrow> (case updateRow i guid c of
                  (Inl e, c) \<Rightarrow> (Inl e, c)
                | (Inr _, c) \<Rightarrow> (Inr i, c)))
         else (Inl e, c))"

definition group_Delete :: "int \<Rightarrow> conn \<Rightarrow> unit result \<times> conn" where
  "group_Delete i c = exec (\<lambda>_ t. Inr (set_guid i None t)) c"

definition group_GetID :: "string \<Rightarrow> conn \<Rightarrow> int result \<times> conn" where
  "group_GetID guid c = query_row (select_group_id guid) c"

subsection \<open>DestinationTable\<close>

definition dest_matches :: "int \<Rightarrow> int \<Rightarrow> int \<Rightarrow> int \<Rightarrow> string \<Rightarrow> destination_row \<Rightarrow> bool" where
  "dest_matches grp port start end' proto d \<longleftrightarrow>
     d_group_id d = grp \<and> d_port d = port \<and> d_start_port d = start \<and> d_end_port d = end' \<and>
     d_protocol d = proto"

text \<open>
  \<^verbatim>\<open>INSERT .. SELECT .. WHERE NOT EXISTS\<close>, under the constraint \<^verbatim>\<open>unique_destination\<close> of migration 2
  on \<^verbatim>\<open>(group_id, start_port, end_port, protocol)\<close>, which does not include the column \<^verbatim>\<open>port\<close>.
\<close>

definition insert_destination ::
    "int \<Rightarrow> int \<Rightarrow> int \<Rightarrow> int \<Rightarrow> string \<Rightarrow> int \<Rightarrow> tables \<Rightarrow> tables result" where
  "insert_destination grp port start end' proto fresh t =
     (if list_ex (dest_matches grp port start end' proto) (destinations t) then Inr t
      else if list_ex (\<lambda>d. d_group_id d = grp \<and> d_start_port d = start \<and> d_end_port d = end' \<and>
                 d_protocol d = proto) (destinations t)
      then Inl (DriverError ''unique constraint: unique_destination'')
      else Inr (t\<lparr>destinations := destinations t @
             [\<lparr>d_id = fresh, d_group_id = grp, d_port = port, d_start_port = start,
               d_end_port = end', d_protocol = proto\<rparr>]\<rparr>))"

definition select_destination_id ::
    "int \<Rightarrow> int \<Rightarrow> int \<Rightarrow> int \<Rightarrow> string \<Rightarrow> tables \<Rightarrow> int option" where
  "select_destination_id grp port start end' proto t =
     map_option d_id (find (dest_matches grp port start end' proto) (destinations t))"

definition destination_GetID ::
    "int \<Rightarrow> int \<Rightarrow> int \<Rightarrow> int \<Rightarrow> string \<Rightarrow> conn \<Rightarrow> int result \<times> conn" where
  "destination_GetID grp port start end' proto c =
     query_row (select_destination_id grp port start end' proto) c"

definition destination_Create ::
    "int \<Rightarrow> int \<Rightarrow> int \<Rightarrow> int \<Rightarrow> string \<Rightarrow> conn \<Rightarrow> int result \<times> conn" where
  "destination_Create grp port start end' proto c =
     (case exec (insert_destination grp port start end' proto) c of
        (Inl e, c) \<Rightarrow> (Inl e, c)
      | (Inr _, c) \<Rightarrow> destination_GetID grp port start end' proto c)"

definition destination_Delete :: "int \<Rightarrow> conn \<Rightarrow> unit result \<times> conn" where
  "destination_Delete i c =
     exec (\<lambda>_ t. Inr (t\<lparr>destinations := filter (\<lambda>d. d_id d \<noteq> i) (destinations t)\<rparr>)) c"

definition destination_CountWhereGroupID :: "int \<Rightarrow> conn \<Rightarrow> nat result \<times> conn" where
  "destination_CountWhereGroupID grp c =
     query_row (\<lambda>t. Some (length (filter (\<lambda>d. d_group_id d = grp) (destinations t)))) c"

subsection \<open>PolicyTable\<close>

definition insert_policy :: "int \<Rightarrow> int \<Rightarrow> int \<Rightarrow> tables \<Rightarrow> tables result" where
  "insert_policy grp dest fresh t =
     (if list_ex (\<lambda>p. p_group_id p = grp \<and> p_destination_id p = dest) (policies t) then Inr t
      else Inr (t\<lparr>policies := policies t @ [\<lparr>p_group_id = grp, p_destination_id = dest\<rparr>]\<rparr>))"

definition policy_Create :: "int \<Rightarrow> int \<Rightarrow> conn \<Rightarrow> unit result \<times> conn" where
  "policy_Create grp dest c = exec (insert_policy grp dest) c"

definition policy_Delete :: "int \<Rightarrow> int \<Rightarrow> conn \<Rightarrow> unit result \<times> conn" where
  "policy_Delete grp dest c =
     exec (\<lambda>_ t. Inr (t\<lparr>policies :=
       filter (\<lambda>p. \<not> (p_group_id p = grp \<and> p_destination_id p = dest)) (policies t)\<rparr>)) c"

definition policy_CountWhereGroupID :: "int \<Rightarrow> conn \<Rightarrow> nat result \<times> conn" where
  "policy_CountWhereGroupID grp c =
     query_row (\<lambda>t. Some (length (filter (\<lambda>p. p_group_id p = grp) (policies t)))) c"

definition policy_CountWhereDestinationID :: "int \<Rightarrow> conn \<Rightarrow> nat result \<times> conn" where
  "policy_CountWhereDestinationID dest c =
     query_row (\<lambda>t. Some (length (filter (\<lambda>p. p_destination_id p = dest) (policies t)))) c"

end
