(* ===== verification/Policy_Store.thy ===== *)
theory Policy_Store
  imports Store_Tables
begin

text \<open>
  \<^verbatim>\<open>policy-server/store/store.go\<close> and \<^verbatim>\<open>store/helpers\<close>: construction of the store, the transactions
  \<open>CreateTag\<close>, \<open>Create\<close> and \<open>Delete\<close>, and the queries \<open>All\<close>, \<open>ByGuids\<close> and \<open>Tags\<close>. The abstract
  specification is the set of policies \<open>policy_set\<close> that the three tables stand for: \<open>Create\<close> adds
  the given policies, \<open>Delete\<close> removes them, a failed call changes nothing. \<open>tables_ok\<close> is the
  well-formedness that makes this so, \<open>tables_tidy\<close> says that no tag and no destination row is
  kept without a policy.
\<close>

subsection \<open>Helpers for SQL text\<close>

definition QuestionMarks :: "nat \<Rightarrow> string" where
  "QuestionMarks n = (if n = 0 then '''' else repeat_string ''?, '' (n - 1) @ ''?'')"

fun number_marks :: "nat \<Rightarrow> string list \<Rightarrow> string list" where
  "number_marks i [] = []"
| "number_marks i [w] = [w]"
| "number_marks i (w # w' # ws) = (w @ ''$'' @ itoa (int i)) # number_marks (Suc i) (w' # ws)"

definition RebindForSQLDialect :: "string \<Rightarrow> string \<Rightarrow> string result" where
  "RebindForSQLDialect query dialect =
     (if dialect = ''mysql'' then Inr query
      else if dialect \<noteq> ''postgres'' then Inl (Panic (''Unrecognized DB dialect '' @ dialect))
      else Inr (join_with '''' (number_marks 1 (split_on (CHR ''?'') query))))"

subsection \<open>Construction\<close>

record store =
  tagLength :: int
  driver :: string

definition MaxTagLength :: int where "MaxTagLength = 3"
definition MinTagLength :: int where "MinTagLength = 1"

text \<open>
  One \<^verbatim>\<open>(NULL)\<close> plus one per iteration of the loop from 1 to below \<^verbatim>\<open>2^(8*tl) - 1\<close>; the new rows
  of the empty table get the ids 1, 2, 3, and so on.
\<close>

definition null_rows :: "int \<Rightarrow> nat" where
  "null_rows tagLen = Suc (length [1 ..< 2 ^ (nat tagLen * 8) - 1])"

definition insert_null_groups :: "int \<Rightarrow> int \<Rightarrow> tables \<Rightarrow> tables result" where
  "insert_null_groups tagLen fresh t =
     Inr (t\<lparr>groups := groups t @ map (\<lambda>i. \<lparr>g_id = int i, g_guid = None\<rparr>) [1 ..< Suc (null_rows tagLen)]\<rparr>)"

definition populateTables :: "int \<Rightarrow> conn \<Rightarrow> unit result \<times> conn" where
  "populateTables tagLen c = (case query_row (\<lambda>t. Some (length (groups t))) c of
       (Inl e, c) \<Rightarrow> (Inl e, c)
     | (Inr groupCount, c) \<Rightarrow> if groupCount > 0 then (Inr (), c) else exec (insert_null_groups tagLen) c)"

definition New ::
    "string \<Rightarrow> int \<Rightarrow> (string \<Rightarrow> conn \<Rightarrow> int result \<times> conn) \<Rightarrow> conn \<Rightarrow> store result \<times> conn" where
  "New driverName tagLen performMigrations c =
     (if tagLen < MinTagLength \<or> tagLen > MaxTagLength
      then (Inl (ErrText (''tag length out of range ('' @ itoa MinTagLength @ ''-'' @ itoa MaxTagLength
              @ ''): '' @ itoa tagLen)), c)
      else case performMigrations driverName c of
          (Inl e, c) \<Rightarrow> (Inl (Errorf ''perform migrations: '' e), c)
        | (Inr _, c) \<Rightarrow> (case populateTables tagLen c of
              (Inl e, c) \<Rightarrow> (Inl (Errorf ''populating tables: '' e), c)
            | (Inr _, c) \<Rightarrow> (Inr \<lparr>tagLength = tagLen, driver = driverName\<rparr>, c)))"

subsection \<open>Transactions\<close>

definition commit :: "conn \<Rightarrow> unit result \<times> conn" where
  "commit c = (case tx_Commit c of
       (Inl e, c) \<Rightarrow> (Inl (Errorf ''commit transaction: '' e), c)
     | (Inr _, c) \<Rightarrow> (Inr (), c))"

definition rollback :: "go_error \<Rightarrow> conn \<Rightarrow> 'a result \<times> conn" where
  "rollback err c = (case tx_Rollback c of
       (Inl txErr, c) \<Rightarrow> (Inl (ErrorfBoth ''database rollback: '' txErr '' (sql error: '' err '')''), c)
     | (Inr _, c) \<Rightarrow> (Inl err, c))"

definition CheckDatabase :: "conn \<Rightarrow> unit result \<times> conn" where
  "CheckDatabase c = query_row (\<lambda>_. Some ()) c"

definition CreateTag :: "string \<Rightarrow> string \<Rightarrow> conn \<Rightarrow> int result \<times> conn" where
  "CreateTag groupGuid groupType c = (case Beginx c of
       (Inl e, c) \<Rightarrow> (Inl (Errorf ''begin transaction: '' e), c)
     | (Inr _, c) \<Rightarrow> (case group_Create groupGuid c of
           (Inl e, c) \<Rightarrow> rollback e c
         | (Inr tag, c) \<Rightarrow> (case commit c of
               (Inl e, c) \<Rightarrow> rollback e c
             | (Inr _, c) \<Rightarrow> (Inr tag, c))))"

text \<open>
  The loops of \<^verbatim>\<open>Create\<close> and \<^verbatim>\<open>Delete\<close>: the body either goes on to the next policy (\<open>Inr ()\<close>, at its
  end or by \<^verbatim>\<open>continue\<close>) or returns \<open>rollback(tx, err)\<close> (\<open>Inl err\<close>); after the last policy the
  transaction is committed.
\<close>

fun tx_loop :: "('p \<Rightarrow> conn \<Rightarrow> unit result \<times> conn) \<Rightarrow> 'p list \<Rightarrow> conn \<Rightarrow> unit result \<times> conn" where
  "tx_loop body [] c = commit c"
| "tx_loop body (p # ps) c = (case body p c of
       (Inl e, c) \<Rightarrow> rollback e c
     | (Inr _, c) \<Rightarrow> tx_loop body ps c)"

definition Create_one :: "Policy \<Rightarrow> conn \<Rightarrow> unit result \<times> conn" where
  "Create_one p c = (case group_Create (src_ID (pol_Source p)) c of
       (Inl e, c) \<Rightarrow> (Inl (Errorf ''creating group: '' e), c)
     | (Inr sourceGroupId, c) \<Rightarrow> (case group_Create (dst_ID (pol_Destination p)) c of
         (Inl e, c) \<Rightarrow> (Inl (Errorf ''creating group: '' e), c)
       | (Inr destinationGroupId, c) \<Rightarrow>
         (case destination_Create destinationGroupId (dst_Port (pol_Destination p))
                 (Start (dst_Ports (pol_Destination p))) (End (dst_Ports (pol_Destination p)))
                 (dst_Protocol (pol_Destination p)) c of
           (Inl e, c) \<Rightarrow> (Inl (Errorf ''creating destination: '' e), c)
         | (Inr destinationId, c) \<Rightarrow> (case policy_Create sourceGroupId destinationId c of
             (Inl e, c) \<Rightarrow> (Inl (Errorf ''creating policy: '' e), c)
           | (Inr _, c) \<Rightarrow> (Inr (), c)))))"

definition Create :: "Policy list \<Rightarrow> conn \<Rightarrow> unit result \<times> conn" where
  "Create ps c = (case Beginx c of
       (Inl e, c) \<Rightarrow> (Inl (Errorf ''begin transaction: '' e), c)
     | (Inr _, c) \<Rightarrow> tx_loop Create_one ps c)"

definition deleteGroupRowIfLast :: "int \<Rightarrow> conn \<Rightarrow> unit result \<times> conn" where
  "deleteGroupRowIfLast groupId c = (case policy_CountWhereGroupID groupId c of
       (Inl e, c) \<Rightarrow> (Inl e, c)
     | (Inr policiesGroupIDCount, c) \<Rightarrow> (case destination_CountWhereGroupID groupId c of
         (Inl e, c) \<Rightarrow> (Inl e, c)
       | (Inr destinationsGroupIDCount, c) \<Rightarrow>
           if policiesGroupIDCount = 0 \<and> destinationsGroupIDCount = 0
           then (case group_Delete groupId c of (Inl e, c) \<Rightarrow> (Inl e, c) | (Inr _, c) \<Rightarrow> (Inr (), c))
           else (Inr (), c)))"

definition Delete_cleanup :: "int \<Rightarrow> int \<Rightarrow> int \<Rightarrow> conn \<Rightarrow> unit result \<times> conn" where
  "Delete_cleanup sourceGroupID destGroupID destID c =
     (case policy_CountWhereDestinationID destID c of
        (Inl e, c) \<Rightarrow> (Inl (Errorf ''counting destination id: '' e), c)
      | (Inr destIDCount, c) \<Rightarrow>
         (case (if destIDCount = 0 then destination_Delete destID c else (Inr (), c)) of
            (Inl e, c) \<Rightarrow> (Inl (Errorf ''deleting destination: '' e), c)
          | (Inr _, c) \<Rightarrow> (case deleteGroupRowIfLast sourceGroupID c of
              (Inl e, c) \<Rightarrow> (Inl (Errorf ''deleting group row: '' e), c)
            | (Inr _, c) \<Rightarrow> (case deleteGroupRowIfLast destGroupID c of
                (Inl e, c) \<Rightarrow> (Inl (Errorf ''deleting group row: '' e), c)
              | (Inr _, c) \<Rightarrow> (Inr (), c)))))"

definition Delete_one :: "Policy \<Rightarrow> conn \<Rightarrow> unit result \<times> conn" where
  "Delete_one p c = (case group_GetID (src_ID (pol_Source p)) c of
       (Inl e, c) \<Rightarrow> if e = ErrNoRows then (Inr (), c) else (Inl (Errorf ''getting source id: '' e), c)
     | (Inr sourceGroupID, c) \<Rightarrow> (case group_GetID (dst_ID (pol_Destination p)) c of
       (Inl e, c) \<Rightarrow>
         if e = ErrNoRows then (Inr (), c) else (Inl (Errorf ''getting destination group id: '' e), c)
     | (Inr destGroupID, c) \<Rightarrow>
       (case destination_GetID destGroupID (dst_Port (pol_Destination p))
               (Start (dst_Ports (pol_Destination p))) (End (dst_Ports (pol_Destination p)))
               (dst_Protocol (pol_Destination p)) c of
       (Inl e, c) \<Rightarrow>
         if e = ErrNoRows then (Inr (), c) else (Inl (Errorf ''getting destination id: '' e), c)
     | (Inr destID, c) \<Rightarrow> (case policy_Delete sourceGroupID destID c of
       (Inl e, c) \<Rightarrow> if e = ErrNoRows then (Inr (), c) else (Inl (Errorf ''deleting policy: '' e), c)
     | (Inr _, c) \<Rightarrow> Delete_cleanup sourceGroupID destGroupID destID c))))"

definition Delete :: "Policy list \<Rightarrow> conn \<Rightarrow> unit result \<times> conn" where
  "Delete ps c = (case Beginx c of
       (Inl e, c) \<Rightarrow> (Inl (Errorf ''begin transaction: '' e), c)
     | (Inr _, c) \<Rightarrow> tx_loop Delete_one ps c)"

subsection \<open>Queries\<close>

datatype column = SrcGuid | DstGuid

text \<open>
  A query of \<^verbatim>\<open>policiesQuery\<close>: the conjuncts or disjuncts of its \<^verbatim>\<open>where\<close> clause, each an \<^verbatim>\<open>in (..)\<close>
  test on a column with its number of placeholders. \<open>query_text\<close> is the SQL the code builds (white
  space apart); the placeholders are bound to the arguments in order.
\<close>

record policy_query =
  wheres :: "(column \<times> nat) list"
  conjunctive :: bool

definition select_text :: string where
  "select_text = ''select src_grp.guid, src_grp.id, dst_grp.guid, dst_grp.id, destinations.port, destinations.start_port, destinations.end_port, destinations.protocol from policies left outer join groups as src_grp on (policies.group_id = src_grp.id) left outer join destinations on (destinations.id = policies.destination_id) left outer join groups as dst_grp on (destinations.group_id = dst_grp.id)''"

fun where_text :: "column \<times> nat \<Rightarrow> string" where
  "where_text (SrcGuid, n) = ''src_grp.guid in ('' @ QuestionMarks n @ '')''"
| "where_text (DstGuid, n) = ''dst_grp.guid in ('' @ QuestionMarks n @ '')''"

definition query_text :: "policy_query \<Rightarrow> string" where
  "query_text q = select_text @
     (if wheres q = [] then ''''
      else '' where '' @ join_with (if conjunctive q then '' AND '' else '' OR '') (map where_text (wheres q)))
     @ '';''"

text \<open>The columns of one joined row; a column of an outer join without a partner is \<^verbatim>\<open>NULL\<close>.\<close>

record joined_row =
  j_src :: "group_row option"
  j_dest :: "destination_row option"
  j_dst :: "group_row option"

definition join_row :: "tables \<Rightarrow> policy_row \<Rightarrow> joined_row" where
  "join_row t p =
     (let d = find (\<lambda>d. d_id d = p_destination_id p) (destinations t) in
      \<lparr>j_src = find (\<lambda>g. g_id g = p_group_id p) (groups t),
       j_dest = d,
       j_dst = (case d of None \<Rightarrow> None | Some d \<Rightarrow> find (\<lambda>g. g_id g = d_group_id d) (groups t))\<rparr>)"

definition column_guid :: "column \<Rightarrow> joined_row \<Rightarrow> string option" where
  "column_guid col r =
     (case (case col of SrcGuid \<Rightarrow> j_src r | DstGuid \<Rightarrow> j_dst r) of None \<Rightarrow> None | Some g \<Rightarrow> g_guid g)"

fun bind_wheres :: "(column \<times> nat) list \<Rightarrow> string list \<Rightarrow> (column \<times> string list) list" where
  "bind_wheres [] args = []"
| "bind_wheres ((col, n) # ws) args = (col, take n args) # bind_wheres ws (drop n args)"

definition in_list :: "joined_row \<Rightarrow> column \<times> string list \<Rightarrow> bool" where
  "in_list r w = (case column_guid (fst w) r of None \<Rightarrow> False | Some g \<Rightarrow> g \<in> set (snd w))"

definition row_selected :: "policy_query \<Rightarrow> string list \<Rightarrow> joined_row \<Rightarrow> bool" where
  "row_selected q args r =
     (wheres q = [] \<or>
      (if conjunctive q then list_all (in_list r) (bind_wheres (wheres q) args)
       else list_ex (in_list r) (bind_wheres (wheres q) args)))"

definition tagIntToString :: "store \<Rightarrow> int \<Rightarrow> string" where
  "tagIntToString s tag = format_hex (nat (tagLength s * 2)) tag"

text \<open>\<^verbatim>\<open>rows.Scan\<close> into Go strings and ints fails on a \<^verbatim>\<open>NULL\<close> column.\<close>

definition scan_row :: "store \<Rightarrow> joined_row \<Rightarrow> Policy result" where
  "scan_row s r = (case (j_src r, j_dest r, j_dst r) of
       (Some sg, Some d, Some dg) \<Rightarrow>
         (case (g_guid sg, g_guid dg) of
            (Some sguid, Some dguid) \<Rightarrow>
              Inr \<lparr>pol_Source = \<lparr>src_ID = sguid, src_Tag = tagIntToString s (g_id sg)\<rparr>,
                   pol_Destination =
                     \<lparr>dst_ID = dguid, dst_Tag = tagIntToString s (g_id dg), dst_Protocol = d_protocol d,
                      dst_Port = d_port d, dst_Ports = \<lparr>Start = d_start_port d, End = d_end_port d\<rparr>\<rparr>\<rparr>
          | _ \<Rightarrow> Inl ScanError)
     | _ \<Rightarrow> Inl ScanError)"

fun scan_rows :: "store \<Rightarrow> joined_row list \<Rightarrow> Policy list result" where
  "scan_rows s [] = Inr []"
| "scan_rows s (r # rs) = (case scan_row s r of
       Inl e \<Rightarrow> Inl (Errorf ''listing all: '' e)
     | Inr p \<Rightarrow> (case scan_rows s rs of Inl e \<Rightarrow> Inl e | Inr ps \<Rightarrow> Inr (p # ps)))"

text \<open>
  One driver call for \<^verbatim>\<open>Query\<close> and one for the end of the iteration (\<^verbatim>\<open>rows.Err\<close>).
\<close>

definition policiesQuery ::
    "store \<Rightarrow> policy_query \<Rightarrow> string list \<Rightarrow> conn \<Rightarrow> Policy list result \<times> conn" where
  "policiesQuery s q args c = (case RebindForSQLDialect (query_text q) (driver s) of
       Inl e \<Rightarrow> (Inl e, c)
     | Inr rebindedQuery \<Rightarrow> (case take_fault c of
         (Some e, c) \<Rightarrow> (Inl (Errorf ''listing all: '' (DriverError e)), c)
       | (None, c) \<Rightarrow>
         (case scan_rows s (filter (row_selected q args) (map (join_row (tables c)) (policies (tables c)))) of
            Inl e \<Rightarrow> (Inl e, c)
          | Inr ps \<Rightarrow> (case take_fault c of
              (Some e, c) \<Rightarrow> (Inl (Errorf ''listing all, getting next row: '' (DriverError e)), c)
            | (None, c) \<Rightarrow> (Inr ps, c)))))"

definition whereBindings :: "string list \<Rightarrow> string list \<Rightarrow> string list" where
  "whereBindings srcGuids destGuids =
     map (\<lambda>i. if i < length srcGuids then srcGuids ! i else destGuids ! (i - length srcGuids))
       [0 ..< length srcGuids + length destGuids]"

definition byGuids_query :: "string list \<Rightarrow> string list \<Rightarrow> bool \<Rightarrow> policy_query" where
  "byGuids_query srcGuids destGuids inSourceAndDest =
     \<lparr>wheres = (if length srcGuids > 0 then [(SrcGuid, length srcGuids)] else []) @
               (if length destGuids > 0 then [(DstGuid, length destGuids)] else []),
      conjunctive = inSourceAndDest\<rparr>"

definition ByGuids ::
    "store \<Rightarrow> string list \<Rightarrow> string list \<Rightarrow> bool \<Rightarrow> conn \<Rightarrow> Policy list result \<times> conn" where
  "ByGuids s srcGuids destGuids inSourceAndDest c =
     (if length srcGuids = 0 \<and> length destGuids = 0 then (Inr [], c)
      else policiesQuery s (byGuids_query srcGuids destGuids inSourceAndDest)
             (whereBindings srcGuids destGuids) c)"

definition All :: "store \<Rightarrow> conn \<Rightarrow> Policy list result \<times> conn" where
  "All s c = policiesQuery s \<lparr>wheres = [], conjunctive = False\<rparr> [] c"

definition tag_rows :: "tables \<Rightarrow> group_row list" where
  "tag_rows t = sort_key g_id (filter (\<lambda>g. g_guid g \<noteq> None) (groups t))"

definition Tags :: "store \<Rightarrow> conn \<Rightarrow> Tag list result \<times> conn" where
  "Tags s c = (case take_fault c of
       (Some e, c) \<Rightarrow> (Inl (Errorf ''listing tags: '' (DriverError e)), c)
     | (None, c) \<Rightarrow>
        (let ts = map (\<lambda>g. \<lparr>tag_ID = the (g_guid g), tag_Tag = tagIntToString s (g_id g)\<rparr>)
                    (tag_rows (tables c)) in
         case take_fault c of
           (Some e, c) \<Rightarrow> (Inl (Errorf ''listing tags, getting next row: '' (DriverError e)), c)
         | (None, c) \<Rightarrow> (Inr ts, c)))"

end
