(* ===== verification/Policy_Store_Spec.thy ===== *)
theory Policy_Store_Spec
  imports Policy_Store
begin

text \<open>
  What the policy store promises, and the proof that it keeps the promise: the abstraction of the
  three tables to a set of policies, the invariant of the tables, the effect of every repository
  operation on both, and the refinement of \<open>Create\<close> and \<open>Delete\<close> to union and difference.
\<close>

subsection \<open>The abstract policy set\<close>

record policy_key =
  k_src :: string
  k_dst :: string
  k_port :: int
  k_start :: int
  k_end :: int
  k_protocol :: string

definition key_of :: "Policy \<Rightarrow> policy_key" where
  "key_of p = \<lparr>k_src = src_ID (pol_Source p), k_dst = dst_ID (pol_Destination p),
     k_port = dst_Port (pol_Destination p), k_start = Start (dst_Ports (pol_Destination p)),
     k_end = End (dst_Ports (pol_Destination p)), k_protocol = dst_Protocol (pol_Destination p)\<rparr>"

definition group_guid :: "tables \<Rightarrow> int \<Rightarrow> string option" where
  "group_guid t i = (case find (\<lambda>g. g_id g = i) (groups t) of None \<Rightarrow> None | Some g \<Rightarrow> g_guid g)"

definition row_key ::
    "(int \<Rightarrow> string option) \<Rightarrow> destination_row list \<Rightarrow> policy_row \<Rightarrow> policy_key option" where
  "row_key G D p = (case G (p_group_id p) of None \<Rightarrow> None | Some s \<Rightarrow>
     (case find (\<lambda>d. d_id d = p_destination_id p) D of None \<Rightarrow> None | Some d \<Rightarrow>
       (case G (d_group_id d) of None \<Rightarrow> None | Some g \<Rightarrow>
         Some \<lparr>k_src = s, k_dst = g, k_port = d_port d, k_start = d_start_port d,
               k_end = d_end_port d, k_protocol = d_protocol d\<rparr>)))"

definition policy_set :: "tables \<Rightarrow> policy_key set" where
  "policy_set t = set (List.map_filter (row_key (group_guid t) (destinations t)) (policies t))"

subsection \<open>Well-formed tables\<close>

definition same_dest :: "destination_row \<Rightarrow> destination_row \<Rightarrow> bool" where
  "same_dest d d' \<longleftrightarrow> d_group_id d = d_group_id d' \<and> d_start_port d = d_start_port d' \<and>
     d_end_port d = d_end_port d' \<and> d_protocol d = d_protocol d'"

definition dests_ok :: "(int \<Rightarrow> string option) \<Rightarrow> destination_row list \<Rightarrow> bool" where
  "dests_ok G D \<longleftrightarrow> distinct (map d_id D) \<and>
     (\<forall>d \<in> set D. \<forall>d' \<in> set D. same_dest d d' \<longrightarrow> d = d') \<and>
     (\<forall>d \<in> set D. G (d_group_id d) \<noteq> None)"

definition policies_ok ::
    "(int \<Rightarrow> string option) \<Rightarrow> destination_row list \<Rightarrow> policy_row list \<Rightarrow> bool" where
  "policies_ok G D P \<longleftrightarrow> distinct P \<and>
     (\<forall>p \<in> set P. G (p_group_id p) \<noteq> None \<and> p_destination_id p \<in> d_id ` set D)"

definition groups_ok :: "group_row list \<Rightarrow> bool" where
  "groups_ok gs \<longleftrightarrow> distinct (map g_id gs) \<and>
     (\<forall>g \<in> set gs. \<forall>g' \<in> set gs. g_guid g \<noteq> None \<and> g_guid g = g_guid g' \<longrightarrow> g_id g = g_id g')"

definition tables_ok :: "tables \<Rightarrow> bool" where
  "tables_ok t \<longleftrightarrow> groups_ok (groups t) \<and> dests_ok (group_guid t) (destinations t) \<and>
     policies_ok (group_guid t) (destinations t) (policies t)"

text \<open>No destination without a policy, and no guid on a group row that nothing refers to.\<close>

definition tables_tidy :: "tables \<Rightarrow> bool" where
  "tables_tidy t \<longleftrightarrow>
     (\<forall>d \<in> set (destinations t). \<exists>p \<in> set (policies t). p_destination_id p = d_id d) \<and>
     (\<forall>g \<in> set (groups t). g_guid g \<noteq> None \<longrightarrow>
        (\<exists>p \<in> set (policies t). p_group_id p = g_id g) \<or>
        (\<exists>d \<in> set (destinations t). d_group_id d = g_id g))"

definition conn_ok :: "conn \<Rightarrow> bool" where
  "conn_ok c \<longleftrightarrow> tables_ok (tables c) \<and> (\<forall>d \<in> set (destinations (tables c)). d_id d < next_id c)"

definition no_faults :: "conn \<Rightarrow> bool" where
  "no_faults c \<longleftrightarrow> list_all (\<lambda>f. f = None) (faults c)"

subsection \<open>Group rows as a partial map\<close>

lemma group_guid_row:
  "groups_ok (groups t) \<Longrightarrow> g \<in> set (groups t) \<Longrightarrow> group_guid t (g_id g) = g_guid g"
proof -
  assume "groups_ok (groups t)" "g \<in> set (groups t)"
  then have "find (\<lambda>h. g_id h = g_id g) (groups t) = Some g"
    by (simp add: groups_ok_def find_unique)
  then show ?thesis by (simp add: group_guid_def)
qed

lemma group_guid_SomeD:
  "group_guid t i = Some s \<Longrightarrow> \<exists>g \<in> set (groups t). g_id g = i \<and> g_guid g = Some s"
  by (auto simp: group_guid_def dest: find_SomeD split: option.splits)

lemma group_guid_inj:
  assumes "groups_ok (groups t)" "group_guid t i = Some s" "group_guid t j = Some s"
  shows "i = j"
proof -
  from assms(2,3) obtain g h where "g \<in> set (groups t)" "h \<in> set (groups t)"
    "g_id g = i" "g_id h = j" "g_guid g = Some s" "g_guid h = Some s"
    by (blast dest: group_guid_SomeD)
  moreover from assms(1) have
    "\<forall>g \<in> set (groups t). \<forall>g' \<in> set (groups t). g_guid g \<noteq> None \<and> g_guid g = g_guid g' \<longrightarrow> g_id g = g_id g'"
    unfolding groups_ok_def by blast
  ultimately show ?thesis by fastforce
qed

lemma map_g_id_set_guid [simp]: "map g_id (groups (set_guid i x t)) = map g_id (groups t)"
  by (simp add: set_guid_def)

lemma set_guid_frame [simp]:
  "destinations (set_guid i x t) = destinations t" "policies (set_guid i x t) = policies t"
  by (simp_all add: set_guid_def)

lemma group_guid_set_guid:
  "group_guid (set_guid i x t) =
     (if i \<in> g_id ` set (groups t) then (group_guid t)(i := x) else group_guid t)"
proof
  fix j
  have "find (\<lambda>g. g_id g = j) (groups (set_guid i x t)) =
          map_option (\<lambda>r. if g_id r = i then r\<lparr>g_guid := x\<rparr> else r) (find (\<lambda>g. g_id g = j) (groups t))"
    by (simp add: set_guid_def find_map if_distrib cong: if_cong)
  then show "group_guid (set_guid i x t) j =
      (if i \<in> g_id ` set (groups t) then (group_guid t)(i := x) else group_guid t) j"
    by (auto simp: group_guid_def find_is_None dest!: find_SomeD split: option.splits)
qed

lemma groups_ok_set_guid:
  assumes "groups_ok (groups t)" and "\<forall>s. x = Some s \<longrightarrow> (\<forall>j. group_guid t j = Some s \<longrightarrow> j = i)"
  shows "groups_ok (groups (set_guid i x t))"
  unfolding groups_ok_def
proof (intro conjI ballI impI)
  show "distinct (map g_id (groups (set_guid i x t)))"
    using assms(1) by (simp add: groups_ok_def)
next
  fix g g' assume g: "g \<in> set (groups (set_guid i x t))" "g' \<in> set (groups (set_guid i x t))"
    and eq: "g_guid g \<noteq> None \<and> g_guid g = g_guid g'"
  from g obtain h h' where h: "h \<in> set (groups t)" "h' \<in> set (groups t)"
    and gh: "g = (if g_id h = i then h\<lparr>g_guid := x\<rparr> else h)" "g' = (if g_id h' = i then h'\<lparr>g_guid := x\<rparr> else h')"
    by (auto simp: set_guid_def)
  have "group_guid t (g_id h) = g_guid h" "group_guid t (g_id h') = g_guid h'"
    using h assms(1) by (simp_all add: group_guid_row)
  moreover have "g_guid h \<noteq> None \<and> g_guid h = g_guid h' \<longrightarrow> g_id h = g_id h'"
    using h assms(1) unfolding groups_ok_def by blast
  ultimately show "g_id g = g_id g'"
    using assms(2) gh eq by (cases "g_id h = i"; cases "g_id h' = i") auto
qed


lemma select_group_id_Some:
  assumes "groups_ok (groups t)"
  shows "select_group_id guid t = Some i \<longleftrightarrow> group_guid t i = Some guid"
proof
  assume "select_group_id guid t = Some i"
  then obtain g where "find (\<lambda>r. g_guid r = Some guid) (groups t) = Some g" "g_id g = i"
    by (auto simp: select_group_id_def)
  then show "group_guid t i = Some guid"
    using group_guid_row [OF assms, of g] by (auto dest: find_SomeD)
next
  assume guid: "group_guid t i = Some guid"
  then obtain g where "find (\<lambda>r. g_guid r = Some guid) (groups t) = Some g"
    by (cases "find (\<lambda>r. g_guid r = Some guid) (groups t)")
      (auto simp: find_is_None dest!: group_guid_SomeD)
  moreover from this have "group_guid t (g_id g) = Some guid"
    using group_guid_row [OF assms, of g] by (auto dest: find_SomeD)
  then have "g_id g = i" using group_guid_inj [OF assms _ guid] by blast
  ultimately show "select_group_id guid t = Some i" by (simp add: select_group_id_def)
qed

lemma select_group_id_None:
  assumes "groups_ok (groups t)"
  shows "select_group_id guid t = None \<longleftrightarrow> (\<forall>i. group_guid t i \<noteq> Some guid)"
  using select_group_id_Some [OF assms] by (metis not_None_eq)

lemma blank_ids_iff:
  "groups_ok (groups t) \<Longrightarrow> i \<in> set (blank_ids t) \<longleftrightarrow> i \<in> g_id ` set (groups t) \<and> group_guid t i = None"
  by (auto simp: blank_ids_def group_guid_row image_iff)

lemma select_first_blank_Some:
  "select_first_blank t = Some i \<Longrightarrow> i \<in> set (blank_ids t) \<and> (\<forall>j \<in> set (blank_ids t). i \<le> j)"
proof -
  assume "select_first_blank t = Some i"
  then obtain js where js: "sort (blank_ids t) = i # js"
    by (auto simp: select_first_blank_def split: list.splits)
  then have "set (blank_ids t) = set (i # js)" by (metis set_sort)
  moreover have "sorted (i # js)" by (metis js sorted_sort)
  ultimately show ?thesis by auto
qed

lemma select_first_blank_None: "select_first_blank t = None \<longleftrightarrow> blank_ids t = []"
proof -
  have "sort (blank_ids t) = [] \<longleftrightarrow> blank_ids t = []"
    by (metis set_empty set_sort)
  then show ?thesis by (auto simp: select_first_blank_def split: list.splits)
qed

subsection \<open>Driver calls\<close>

definition same_state :: "conn \<Rightarrow> conn \<Rightarrow> bool" where
  "same_state c c' \<longleftrightarrow> tables c' = tables c \<and> saved c' = saved c \<and> next_id c' = next_id c \<and>
     (no_faults c \<longrightarrow> no_faults c')"

definition tx_step :: "conn \<Rightarrow> conn \<Rightarrow> bool" where
  "tx_step c c' \<longleftrightarrow> saved c' = saved c \<and> next_id c \<le> next_id c' \<and> (no_faults c \<longrightarrow> no_faults c')"

lemma tx_step_trans: "tx_step a b \<Longrightarrow> tx_step b c \<Longrightarrow> tx_step a c"
  by (auto simp: tx_step_def)

lemma tx_step_refl [simp]: "tx_step c c"
  by (simp add: tx_step_def)

lemma same_state_tx_step: "same_state c c' \<Longrightarrow> tx_step c c'"
  by (simp add: same_state_def tx_step_def)

lemma take_fault_cases:
  "take_fault c = (f, c') \<Longrightarrow> same_state c c' \<and> (no_faults c \<longrightarrow> f = None)"
  by (auto simp: take_fault_def same_state_def no_faults_def split: list.splits)

lemma query_row_cases:
  assumes "query_row q c = (r, c')"
  obtains (fault) e where "r = Inl (DriverError e)" "same_state c c'" "\<not> no_faults c"
  | (none) "r = Inl ErrNoRows" "same_state c c'" "q (tables c) = None"
  | (row) x where "r = Inr x" "same_state c c'" "q (tables c) = Some x"
  using assms
  by (auto simp: query_row_def same_state_def split: prod.splits option.splits dest!: take_fault_cases)

lemma exec_cases:
  assumes "exec stmt c = (r, c')"
  obtains (fault) e where "r = Inl (DriverError e)" "tx_step c c'" "tables c' = tables c" "\<not> no_faults c"
  | (refused) e where "r = Inl e" "tx_step c c'" "tables c' = tables c" "stmt (next_id c) (tables c) = Inl e"
  | (executed) "r = Inr ()" "tx_step c c'" "next_id c' = next_id c + 1"
      "stmt (next_id c) (tables c) = Inr (tables c')"
  using assms
  by (auto simp: exec_def same_state_def tx_step_def no_faults_def
      split: prod.splits option.splits sum.splits dest!: take_fault_cases)

lemma rollback_cases:
  assumes "rollback e c = (r, c')" "saved c = Some t0"
  shows "\<exists>e'. r = Inl e'" "tables c' = t0" "saved c' = None" "next_id c' = next_id c"
  using assms
  by (auto simp: rollback_def tx_Rollback_def same_state_def
      split: prod.splits option.splits sum.splits dest!: take_fault_cases)

lemma commit_cases:
  assumes "commit c = (r, c')" "saved c = Some t0"
  obtains (ok) "r = Inr ()" "tables c' = tables c" "saved c' = None" "next_id c' = next_id c"
      "no_faults c \<longrightarrow> no_faults c'"
  | (failed) e where "r = Inl e" "tables c' = t0" "saved c' = None" "next_id c' = next_id c"
      "\<not> no_faults c"
proof -
  obtain f c1 where tf: "take_fault c = (f, c1)" by (cases "take_fault c")
  note same = take_fault_cases [OF tf]
  show thesis
  proof (cases f)
    case None
    with assms tf same show thesis
      by (intro ok) (auto simp: commit_def tx_Commit_def same_state_def no_faults_def)
  next
    case (Some e)
    with assms tf same show thesis
      by (intro failed) (auto simp: commit_def tx_Commit_def same_state_def)
  qed
qed


subsection \<open>Keys of policy rows\<close>

lemma policy_set_iff:
  "k \<in> policy_set t \<longleftrightarrow> (\<exists>p \<in> set (policies t). row_key (group_guid t) (destinations t) p = Some k)"
  by (simp add: policy_set_def set_map_filter)

lemma row_key_cong:
  assumes "G' (p_group_id p) = G (p_group_id p)" "\<forall>d \<in> set D. G' (d_group_id d) = G (d_group_id d)"
  shows "row_key G' D p = row_key G D p"
  using assms by (auto simp: row_key_def split: option.splits dest: find_SomeD)

lemma row_key_append:
  "p_destination_id p \<in> d_id ` set D \<Longrightarrow> row_key G (D @ E) p = row_key G D p"
  by (auto simp: row_key_def find_append find_is_None split: option.splits)

lemma row_key_filter:
  "p_destination_id p \<noteq> i \<Longrightarrow> row_key G (filter (\<lambda>d. d_id d \<noteq> i) D) p = row_key G D p"
proof -
  assume "p_destination_id p \<noteq> i"
  then have "find (\<lambda>d. d_id d = p_destination_id p) (filter (\<lambda>d. d_id d \<noteq> i) D) =
      find (\<lambda>d. d_id d = p_destination_id p) D"
    by (induction D) auto
  then show ?thesis by (cases "G (p_group_id p)") (simp_all add: row_key_def)
qed

lemma row_key_eq:
  assumes "distinct (map d_id D)" "d \<in> set D" "d_id d = p_destination_id p"
    "G (p_group_id p) = Some s" "G (d_group_id d) = Some g"
  shows "row_key G D p = Some \<lparr>k_src = s, k_dst = g, k_port = d_port d, k_start = d_start_port d,
           k_end = d_end_port d, k_protocol = d_protocol d\<rparr>"
proof -
  have "find (\<lambda>d'. d_id d' = p_destination_id p) D = Some d"
    using assms(1-3) by (simp add: find_unique)
  with assms(4,5) show ?thesis by (simp add: row_key_def)
qed

lemma row_key_Some:
  assumes "row_key G D p = Some k"
  obtains d where "d \<in> set D" "d_id d = p_destination_id p" "G (p_group_id p) = Some (k_src k)"
    "G (d_group_id d) = Some (k_dst k)" "k_port k = d_port d" "k_start k = d_start_port d"
    "k_end k = d_end_port d" "k_protocol k = d_protocol d"
  using assms by (auto simp: row_key_def split: option.splits dest!: find_SomeD)

text \<open>In well-formed tables every policy row has a key, and no two rows have the same one.\<close>

lemma row_key_total:
  assumes "dests_ok G D" "policies_ok G D P" "p \<in> set P"
  shows "\<exists>k. row_key G D p = Some k"
proof -
  from assms(2,3) obtain d where d: "d \<in> set D" "d_id d = p_destination_id p"
    by (auto simp: policies_ok_def)
  moreover obtain s where "G (p_group_id p) = Some s"
    using assms(2,3) by (auto simp: policies_ok_def)
  moreover obtain g where "G (d_group_id d) = Some g"
    using assms(1) d by (auto simp: dests_ok_def)
  moreover have "distinct (map d_id D)" using assms(1) by (simp add: dests_ok_def)
  ultimately show ?thesis using row_key_eq by blast
qed

lemma row_key_inj:
  assumes G: "\<And>i j s. G i = Some s \<Longrightarrow> G j = Some s \<Longrightarrow> i = j"
    and D: "dests_ok G D"
    and k: "row_key G D p = Some k" "row_key G D q = Some k"
  shows "p = q"
proof -
  obtain d where d: "d \<in> set D" "d_id d = p_destination_id p" "G (p_group_id p) = Some (k_src k)"
    "G (d_group_id d) = Some (k_dst k)" "k_start k = d_start_port d"
    "k_end k = d_end_port d" "k_protocol k = d_protocol d"
    using k(1) by (rule row_key_Some)
  obtain e where e: "e \<in> set D" "d_id e = p_destination_id q" "G (p_group_id q) = Some (k_src k)"
    "G (d_group_id e) = Some (k_dst k)" "k_start k = d_start_port e"
    "k_end k = d_end_port e" "k_protocol k = d_protocol e"
    using k(2) by (rule row_key_Some)
  have "same_dest d e" using d e G by (auto simp: same_dest_def)
  with D d(1) e(1) have "d = e" unfolding dests_ok_def by blast
  with d e G show ?thesis by (cases p; cases q) auto
qed

subsection \<open>Effects of the repositories\<close>

lemma group_guid_extend:
  assumes ok: "tables_ok t" and i: "i \<in> g_id ` set (groups t)" "group_guid t i = None"
    and fresh: "\<And>j. group_guid t j \<noteq> Some s"
  shows "tables_ok (set_guid i (Some s) t)"
    and "group_guid (set_guid i (Some s) t) = (group_guid t)(i \<mapsto> s)"
    and "policy_set (set_guid i (Some s) t) = policy_set t"
proof -
  show G: "group_guid (set_guid i (Some s) t) = (group_guid t)(i \<mapsto> s)"
    using i(1) by (simp add: group_guid_set_guid)
  show "tables_ok (set_guid i (Some s) t)"
    using ok fresh by (auto simp: tables_ok_def groups_ok_set_guid G dests_ok_def policies_ok_def)
  have "row_key (group_guid (set_guid i (Some s) t)) (destinations t) p
          = row_key (group_guid t) (destinations t) p" if "p \<in> set (policies t)" for p
    using ok i(2) that
    by (intro row_key_cong) (auto simp: G tables_ok_def dests_ok_def policies_ok_def)
  then show "policy_set (set_guid i (Some s) t) = policy_set t"
    by (simp add: policy_set_def set_map_filter)
qed

text \<open>
  \<open>extends c c'\<close>: the tables of \<open>c'\<close> are those of \<open>c\<close> with tags given out, nothing else changed.
\<close>

definition extends :: "conn \<Rightarrow> conn \<Rightarrow> bool" where
  "extends c c' \<longleftrightarrow> tx_step c c' \<and> conn_ok c' \<and> group_guid (tables c) \<subseteq>\<^sub>m group_guid (tables c') \<and>
     map g_id (groups (tables c')) = map g_id (groups (tables c)) \<and>
     destinations (tables c') = destinations (tables c) \<and> policies (tables c') = policies (tables c) \<and>
     policy_set (tables c') = policy_set (tables c)"

lemma extends_refl: "conn_ok c \<Longrightarrow> extends c c"
  by (simp add: extends_def)

lemma extends_same: "conn_ok c \<Longrightarrow> same_state c c' \<Longrightarrow> extends c c'"
  by (simp add: extends_def same_state_def conn_ok_def tx_step_def)

lemma group_Create_Inr:
  assumes "group_Create guid c = (Inr i, c')" "conn_ok c"
  shows "extends c c'" "group_guid (tables c') i = Some guid"
    "\<forall>j. j \<noteq> i \<longrightarrow> group_guid (tables c') j = group_guid (tables c) j"
proof -
  from assms(2) have ok: "tables_ok (tables c)" "groups_ok (groups (tables c))"
    by (auto simp: conn_ok_def tables_ok_def)
  obtain r c1 where q: "findRowByGUID guid c = (r, c1)" by (cases "findRowByGUID guid c")
  from q have "extends c c' \<and> group_guid (tables c') i = Some guid \<and>
      (\<forall>j. j \<noteq> i \<longrightarrow> group_guid (tables c') j = group_guid (tables c) j)"
    unfolding findRowByGUID_def
  proof (cases rule: query_row_cases)
    case (fault e)
    with assms(1) q show ?thesis by (simp add: group_Create_def)
  next
    case (row x)
    with assms q have "x = i" "c1 = c'" by (auto simp: group_Create_def)
    with row ok assms(2) show ?thesis by (simp add: extends_same select_group_id_Some same_state_def)
  next
    case none
    obtain r2 c2 where q2: "firstBlankRow c1 = (r2, c2)" by (cases "firstBlankRow c1")
    with assms(1) q none(1) have r2: "r2 = Inr i"
      by (auto simp: group_Create_def split: sum.splits prod.splits)
    from q2 have s2: "same_state c1 c2" "select_first_blank (tables c1) = Some i"
      unfolding firstBlankRow_def r2 by (auto elim: query_row_cases)
    obtain r3 where q3: "updateRow i guid c2 = (r3, c')"
      using assms(1) q none(1) q2 r2 by (cases "updateRow i guid c2") (auto simp: group_Create_def split: sum.splits)
    have t2: "tables c2 = tables c" using none(2) s2(1) by (simp add: same_state_def)
    have blank: "i \<in> g_id ` set (groups (tables c))" "group_guid (tables c) i = None"
      using s2(2) none(2) ok(2) by (auto simp: same_state_def blank_ids_iff dest!: select_first_blank_Some)
    have fresh: "\<And>j. group_guid (tables c) j \<noteq> Some guid"
      using none(3) ok(2) by (simp add: select_group_id_None)
    from q3 have "tables c' = set_guid i (Some guid) (tables c) \<and> tx_step c2 c' "
      unfolding updateRow_def
    proof (cases rule: exec_cases)
      case executed
      then show ?thesis by (auto simp: update_guid_stmt_def t2 split: if_splits)
    qed (use assms(1) q none(1) q2 r2 q3 in \<open>auto simp: group_Create_def\<close>)
    moreover note group_guid_extend [OF ok(1) blank fresh]
    moreover have "tx_step c c2" using none(2) s2(1) by (auto simp: same_state_def tx_step_def)
    ultimately show ?thesis using assms(2) blank(2)
      by (auto simp: extends_def conn_ok_def map_le_def tx_step_def)
  qed
  then show "extends c c'" "group_guid (tables c') i = Some guid"
    "\<forall>j. j \<noteq> i \<longrightarrow> group_guid (tables c') j = group_guid (tables c) j" by blast+
qed


lemma group_Create_tx: "group_Create guid c = (r, c') \<Longrightarrow> tx_step c c'"
  by (auto simp: group_Create_def findRowByGUID_def firstBlankRow_def updateRow_def
      same_state_def tx_step_def split: prod.splits sum.splits if_splits
      elim!: query_row_cases exec_cases)

lemma destination_Create_tx: "destination_Create g a b d e c = (r, c') \<Longrightarrow> tx_step c c'"
  by (auto simp: destination_Create_def destination_GetID_def same_state_def tx_step_def
      split: prod.splits sum.splits elim!: query_row_cases exec_cases)

lemma policy_Create_tx: "policy_Create g d c = (r, c') \<Longrightarrow> tx_step c c'"
  by (auto simp: policy_Create_def elim: exec_cases)

lemma destination_Create_Inr:
  assumes "destination_Create grp port start end' proto c = (Inr di, c')" "conn_ok c"
    "group_guid (tables c) grp \<noteq> None"
  obtains d where "conn_ok c'" "groups (tables c') = groups (tables c)"
    "policies (tables c') = policies (tables c)" "d_id d = di" "dest_matches grp port start end' proto d"
    "d \<in> set (destinations (tables c'))"
    "destinations (tables c') = destinations (tables c) \<or>
     destinations (tables c') = destinations (tables c) @ [d]"
proof -
  let ?D = "destinations (tables c)"
  obtain r c1 where e: "exec (insert_destination grp port start end' proto) c = (r, c1)"
    by (cases "exec (insert_destination grp port start end' proto) c")
  with assms(1) have r: "r = Inr ()" and g: "destination_GetID grp port start end' proto c1 = (Inr di, c')"
    by (auto simp: destination_Create_def split: sum.splits)
  from g have s: "same_state c1 c'" and sel: "select_destination_id grp port start end' proto (tables c1) = Some di"
    unfolding destination_GetID_def by (auto elim: query_row_cases)
  from sel obtain d where d: "d \<in> set (destinations (tables c1))" "dest_matches grp port start end' proto d" "d_id d = di"
    by (auto simp: select_destination_id_def dest!: find_SomeD)
  from e have ins: "insert_destination grp port start end' proto (next_id c) (tables c) = Inr (tables c1)"
      and n: "next_id c1 = next_id c + 1"
    unfolding r by (auto elim: exec_cases)
  from ins consider (same) "tables c1 = tables c"
    | (new) x where "tables c1 = (tables c)\<lparr>destinations := ?D @ [x]\<rparr>" "d_id x = next_id c"
        "dest_matches grp port start end' proto x"
        "\<forall>d \<in> set ?D. \<not> (d_group_id d = grp \<and> d_start_port d = start \<and> d_end_port d = end' \<and> d_protocol d = proto)"
  proof (cases "tables c1 = tables c")
    case False
    let ?x = "\<lparr>d_id = next_id c, d_group_id = grp, d_port = port, d_start_port = start,
               d_end_port = end', d_protocol = proto\<rparr>"
    from ins False show thesis
      by (intro new [of ?x]) (auto simp: insert_destination_def list_ex_iff dest_matches_def split: if_splits)
  qed (rule same)
  then show thesis
  proof cases
    case same
    with assms(2) n s d show thesis
      by (intro that [of d]) (auto simp: same_state_def conn_ok_def)
  next
    case new
    have "x = d" using d new(1,4) by (auto simp: dest_matches_def)
    have G: "group_guid (tables c1) = group_guid (tables c)" using new(1) by (auto simp: group_guid_def)
    have "tables_ok (tables c1)"
      using assms(2,3) new unfolding conn_ok_def tables_ok_def G
      by (auto simp: dests_ok_def policies_ok_def same_dest_def dest_matches_def)
    with assms(2) new \<open>x = d\<close> s n d show thesis
      by (intro that [of d]) (auto simp: same_state_def conn_ok_def)
  qed
qed

lemma policy_Create_Inr:
  assumes "policy_Create i di c = (Inr u, c')"
  shows "groups (tables c') = groups (tables c)" "destinations (tables c') = destinations (tables c)"
    "set (policies (tables c')) = insert \<lparr>p_group_id = i, p_destination_id = di\<rparr> (set (policies (tables c)))"
    "distinct (policies (tables c)) \<Longrightarrow> distinct (policies (tables c'))"
proof -
  from assms have ins: "insert_policy i di (next_id c) (tables c) = Inr (tables c')"
    unfolding policy_Create_def by (auto elim: exec_cases)
  consider (old) "tables c' = tables c" "\<lparr>p_group_id = i, p_destination_id = di\<rparr> \<in> set (policies (tables c))"
    | (new) "tables c' = (tables c)\<lparr>policies := policies (tables c) @ [\<lparr>p_group_id = i, p_destination_id = di\<rparr>]\<rparr>"
        "\<lparr>p_group_id = i, p_destination_id = di\<rparr> \<notin> set (policies (tables c))"
  proof (cases "\<exists>p \<in> set (policies (tables c)). p_group_id p = i \<and> p_destination_id p = di")
    case True
    then have "\<lparr>p_group_id = i, p_destination_id = di\<rparr> \<in> set (policies (tables c))"
      by (metis old.unit.exhaust policy_row.surjective)
    with ins True show thesis by (intro old) (auto simp: insert_policy_def list_ex_iff)
  next
    case False
    with ins show thesis by (intro new) (auto simp: insert_policy_def list_ex_iff)
  qed
  then show "groups (tables c') = groups (tables c)" "destinations (tables c') = destinations (tables c)"
    "set (policies (tables c')) = insert \<lparr>p_group_id = i, p_destination_id = di\<rparr> (set (policies (tables c)))"
    "distinct (policies (tables c)) \<Longrightarrow> distinct (policies (tables c'))"
    by (cases; auto)+
qed

end
