(* ===== verification/Policy_Store_Refine.thy ===== *)
theory Policy_Store_Refine
  imports Policy_Store_Spec
begin

text \<open>
  The transactions of the policy store refine the set operations: one iteration of the loop of
  \<open>Create\<close> inserts one key into \<open>policy_set\<close>, one iteration of the loop of \<open>Delete\<close> removes one,
  both keep \<open>conn_ok\<close> and \<open>tables_tidy\<close>; every error path ends with the committed tables unchanged
  and no transaction open.
\<close>

subsection \<open>Transactions over a list of policies\<close>

text \<open>
  What the loop \<open>tx_loop\<close> needs of its body: it stays inside the transaction, and a body that
  succeeds keeps the tables well-formed and tidy, acts on the policy set as \<open>eff\<close> says and changes
  the tag assignment only along the preorder \<open>rel\<close>.
\<close>

definition aborted :: "tables \<Rightarrow> conn \<Rightarrow> conn \<Rightarrow> bool" where
  "aborted t0 c c' \<longleftrightarrow> tables c' = t0 \<and> saved c' = None \<and> next_id c \<le> next_id c'"

lemma rollback_aborted:
  "rollback e c1 = (r, c') \<Longrightarrow> tx_step c c1 \<Longrightarrow> saved c = Some t0 \<Longrightarrow> (\<exists>e'. r = Inl e') \<and> aborted t0 c c'"
  using rollback_cases [of e c1 r c' t0] by (auto simp: tx_step_def aborted_def)

definition kept :: "((int \<Rightarrow> string option) \<Rightarrow> (int \<Rightarrow> string option) \<Rightarrow> bool) \<Rightarrow> conn \<Rightarrow> conn \<Rightarrow> bool" where
  "kept rel c c' \<longleftrightarrow> conn_ok c' \<and> rel (group_guid (tables c)) (group_guid (tables c')) \<and>
     map g_id (groups (tables c')) = map g_id (groups (tables c)) \<and>
     (tables_tidy (tables c) \<longrightarrow> tables_tidy (tables c'))"

locale tx_body =
  fixes body :: "'p \<Rightarrow> conn \<Rightarrow> unit result \<times> conn"
    and eff :: "'p \<Rightarrow> policy_key set \<Rightarrow> policy_key set"
    and rel :: "(int \<Rightarrow> string option) \<Rightarrow> (int \<Rightarrow> string option) \<Rightarrow> bool"
  assumes body_tx: "body p c = (r, c') \<Longrightarrow> tx_step c c'"
    and body_kept: "body p c = (Inr u, c') \<Longrightarrow> conn_ok c \<Longrightarrow> kept rel c c'"
    and body_eff: "body p c = (Inr u, c') \<Longrightarrow> conn_ok c \<Longrightarrow>
          policy_set (tables c') = eff p (policy_set (tables c))"
    and rel_refl: "rel G G"
    and rel_trans: "rel G G' \<Longrightarrow> rel G' G'' \<Longrightarrow> rel G G''"
begin

lemma loop_cases:
  assumes "tx_loop body ps c = (r, c')" "conn_ok c" "saved c = Some t0"
  shows "(\<exists>e. r = Inl e) \<and> aborted t0 c c' \<or>
     r = Inr () \<and> saved c' = None \<and> next_id c \<le> next_id c' \<and> kept rel c c' \<and>
     policy_set (tables c') = fold eff ps (policy_set (tables c))"
  using assms
proof (induction ps arbitrary: c)
  case Nil
  then have "commit c = (r, c')" by simp
  then show ?case using Nil(3)
  proof (cases rule: commit_cases)
    case ok
    with Nil show ?thesis by (auto simp: kept_def conn_ok_def rel_refl)
  qed (use Nil in \<open>auto simp: aborted_def\<close>)
next
  case (Cons p ps)
  obtain r1 c1 where b: "body p c = (r1, c1)" by (cases "body p c")
  note tx = body_tx [OF b]
  show ?case
  proof (cases r1)
    case (Inl e)
    with b Cons.prems show ?thesis using rollback_aborted [OF _ tx] by auto
  next
    case (Inr u)
    note k = body_kept [OF b [unfolded Inr] Cons.prems(2)]
    have "tx_loop body ps c1 = (r, c')" using Cons.prems(1) b Inr by simp
    moreover have "conn_ok c1" "saved c1 = Some t0" "next_id c \<le> next_id c1"
      using k tx Cons.prems(3) by (auto simp: kept_def tx_step_def)
    moreover have "policy_set (tables c1) = eff p (policy_set (tables c))"
      using body_eff b Inr Cons.prems(2) by blast
    ultimately show ?thesis using Cons.IH [of c1] k by (auto simp: kept_def aborted_def intro: rel_trans)
  qed
qed

text \<open>A whole call, from \<open>Beginx\<close> to the commit or rollback.\<close>

lemma call_cases:
  assumes "(case Beginx c of (Inl e, c) \<Rightarrow> (Inl (Errorf ''begin transaction: '' e), c)
     | (Inr _, c) \<Rightarrow> tx_loop body ps c) = (r, c')" "conn_ok c" "saved c = None"
  shows "(\<exists>e. r = Inl e) \<and> aborted (tables c) c c' \<or>
     r = Inr () \<and> saved c' = None \<and> next_id c \<le> next_id c' \<and> kept rel c c' \<and>
     policy_set (tables c') = fold eff ps (policy_set (tables c))"
proof -
  obtain f c0 where tf: "take_fault c = (f, c0)" by (cases "take_fault c")
  note same = take_fault_cases [OF tf]
  show ?thesis
  proof (cases f)
    case None
    let ?c1 = "c0\<lparr>saved := Some (tables c0)\<rparr>"
    have "tx_loop body ps ?c1 = (r, c')" using assms(1) tf None by (simp add: Beginx_def)
    moreover have "conn_ok ?c1" using assms(2) same by (simp add: conn_ok_def same_state_def)
    ultimately show ?thesis using loop_cases [of ps ?c1 r c' "tables c0"] same
      by (simp add: same_state_def aborted_def kept_def)
  next
    case (Some e)
    with assms tf same show ?thesis by (auto simp: Beginx_def aborted_def same_state_def)
  qed
qed

end

subsection \<open>Create\<close>

lemma tables_tidy_iff:
  assumes "groups_ok (groups t)"
  shows "tables_tidy t \<longleftrightarrow>
     (\<forall>d \<in> set (destinations t). \<exists>p \<in> set (policies t). p_destination_id p = d_id d) \<and>
     (\<forall>i. group_guid t i \<noteq> None \<longrightarrow>
        (\<exists>p \<in> set (policies t). p_group_id p = i) \<or> (\<exists>d \<in> set (destinations t). d_group_id d = i))"
proof -
  have "(\<forall>g \<in> set (groups t). g_guid g \<noteq> None \<longrightarrow> Q (g_id g)) \<longleftrightarrow> (\<forall>i. group_guid t i \<noteq> None \<longrightarrow> Q i)" for Q
    using group_guid_row [OF assms] group_guid_SomeD [of t] by (metis option.exhaust)
  from this [of "\<lambda>i. (\<exists>p \<in> set (policies t). p_group_id p = i) \<or> (\<exists>d \<in> set (destinations t). d_group_id d = i)"]
  show ?thesis unfolding tables_tidy_def by blast
qed

text \<open>
  The tables before and after one iteration: two tags given out, at most one new destination row,
  the policy row present.
\<close>

definition created ::
    "string \<Rightarrow> string \<Rightarrow> int \<Rightarrow> int \<Rightarrow> int \<Rightarrow> string \<Rightarrow> int \<Rightarrow> int \<Rightarrow> destination_row \<Rightarrow> tables \<Rightarrow> tables \<Rightarrow> bool" where
  "created s g port start end' proto i j x t t' \<longleftrightarrow>
     group_guid t \<subseteq>\<^sub>m group_guid t' \<and> map g_id (groups t') = map g_id (groups t) \<and>
     group_guid t' i = Some s \<and> group_guid t' j = Some g \<and>
     (\<forall>k. k \<noteq> i \<and> k \<noteq> j \<longrightarrow> group_guid t' k = group_guid t k) \<and>
     x \<in> set (destinations t') \<and> dest_matches j port start end' proto x \<and>
     (destinations t' = destinations t \<or> destinations t' = destinations t @ [x]) \<and>
     set (policies t') = insert \<lparr>p_group_id = i, p_destination_id = d_id x\<rparr> (set (policies t))"

lemma create_step_effect:
  assumes c: "conn_ok c" and s: "group_Create s c = (Inr i, c1)" and g: "group_Create g c1 = (Inr j, c2)"
    and d: "destination_Create j port start end' proto c2 = (Inr di, c3)"
    and p: "policy_Create i di c3 = (Inr u, c4)"
  obtains x where "conn_ok c4" "tx_step c c4" "created s g port start end' proto i j x (tables c) (tables c4)"
proof -
  note s' = group_Create_Inr [OF s c]
  from s'(1) have c1: "conn_ok c1" by (simp add: extends_def)
  note g' = group_Create_Inr [OF g c1]
  from g'(1) have c2: "conn_ok c2" by (simp add: extends_def)
  from g'(2) have "group_guid (tables c2) j \<noteq> None" by simp
  then obtain x where x: "conn_ok c3" "groups (tables c3) = groups (tables c2)"
    "policies (tables c3) = policies (tables c2)" "d_id x = di" "dest_matches j port start end' proto x"
    "x \<in> set (destinations (tables c3))"
    "destinations (tables c3) = destinations (tables c2) \<or> destinations (tables c3) = destinations (tables c2) @ [x]"
    using destination_Create_Inr [OF d c2] by blast
  note p' = policy_Create_Inr [OF p]
  have G: "group_guid (tables c4) = group_guid (tables c2)" "group_guid (tables c4) = group_guid (tables c3)"
    using x(2) p'(1) by (auto simp: group_guid_def)
  have Gi: "group_guid (tables c4) i = Some s"
    using s'(2) g'(1) by (auto simp: G(1) extends_def map_le_def dom_def)
  have "conn_ok c4"
    using x(1,4,6) Gi p' policy_Create_tx [OF p]
    by (auto simp: conn_ok_def tables_ok_def G(2) policies_ok_def tx_step_def)
  moreover have "tx_step c c4"
    using s'(1) g'(1) destination_Create_tx [OF d] policy_Create_tx [OF p]
    unfolding extends_def by (blast intro: tx_step_trans)
  moreover have "created s g port start end' proto i j x (tables c) (tables c4)"
    using s' g' x Gi p' unfolding created_def G(1) extends_def by (auto intro: map_le_trans)
  ultimately show thesis by (rule that)
qed

lemma created_tidy:
  assumes ok: "groups_ok (groups t)" "groups_ok (groups t')" and tidy: "tables_tidy t"
    and step: "created s g port start end' proto i j x t t'"
  shows "tables_tidy t'"
  unfolding tables_tidy_iff [OF ok(2)]
proof (intro conjI ballI allI impI)
  fix e assume "e \<in> set (destinations t')"
  with step tidy show "\<exists>p \<in> set (policies t'). p_destination_id p = d_id e"
    by (auto simp: created_def tables_tidy_def)
next
  fix k assume k: "group_guid t' k \<noteq> None"
  show "(\<exists>p \<in> set (policies t'). p_group_id p = k) \<or> (\<exists>d \<in> set (destinations t'). d_group_id d = k)"
  proof (cases "k = i \<or> k = j")
    case True
    then show ?thesis using step by (auto simp: created_def dest_matches_def)
  next
    case False
    with k step have "group_guid t k \<noteq> None" by (auto simp: created_def)
    then have "(\<exists>p \<in> set (policies t). p_group_id p = k) \<or> (\<exists>d \<in> set (destinations t). d_group_id d = k)"
      using tidy unfolding tables_tidy_iff [OF ok(1)] by blast
    then show ?thesis using step by (auto simp: created_def)
  qed
qed

lemma created_keys:
  assumes ok: "tables_ok t" "tables_ok t'" and step: "created s g port start end' proto i j x t t'"
  shows "policy_set t' = insert \<lparr>k_src = s, k_dst = g, k_port = port, k_start = start, k_end = end',
           k_protocol = proto\<rparr> (policy_set t)"
proof -
  let ?new = "\<lparr>p_group_id = i, p_destination_id = d_id x\<rparr> :: policy_row"
  have D: "destinations t' = destinations t \<or> destinations t' = destinations t @ [x]"
    and P: "set (policies t') = insert ?new (set (policies t))"
    using step by (simp_all add: created_def)
  have "row_key (group_guid t') (destinations t') q = row_key (group_guid t) (destinations t) q"
    if "q \<in> set (policies t)" for q
  proof -
    have "row_key (group_guid t') (destinations t) q = row_key (group_guid t) (destinations t) q"
      using ok(1) that step
      by (intro row_key_cong) (auto simp: created_def map_le_def tables_ok_def dests_ok_def policies_ok_def dom_def)
    moreover have "p_destination_id q \<in> d_id ` set (destinations t)"
      using ok(1) that by (auto simp: tables_ok_def policies_ok_def)
    ultimately show ?thesis using D by (auto simp: row_key_append)
  qed
  moreover have "row_key (group_guid t') (destinations t') ?new =
      Some \<lparr>k_src = s, k_dst = g, k_port = port, k_start = start, k_end = end', k_protocol = proto\<rparr>"
    using row_key_eq [of "destinations t'" x ?new "group_guid t'" s g] ok(2) step
    by (auto simp: created_def tables_ok_def dests_ok_def dest_matches_def)
  ultimately show ?thesis unfolding policy_set_def set_map_filter P by auto
qed


lemma Create_one_Inr:
  assumes "Create_one p c = (Inr u, c')" "conn_ok c"
  obtains i j x where "conn_ok c'" "tx_step c c'"
    "created (src_ID (pol_Source p)) (dst_ID (pol_Destination p)) (dst_Port (pol_Destination p))
       (Start (dst_Ports (pol_Destination p))) (End (dst_Ports (pol_Destination p)))
       (dst_Protocol (pol_Destination p)) i j x (tables c) (tables c')"
  using assms unfolding Create_one_def
  by (auto split: prod.splits sum.splits elim: create_step_effect [OF assms(2)])

lemma Create_one_tx: "Create_one p c = (r, c') \<Longrightarrow> tx_step c c'"
  unfolding Create_one_def
  by (auto split: prod.splits sum.splits
      dest!: group_Create_tx destination_Create_tx policy_Create_tx simp: tx_step_def)

interpretation create: tx_body Create_one "\<lambda>p. insert (key_of p)" "(\<subseteq>\<^sub>m)"
proof
  fix p c r c' assume "Create_one p c = (r, c')"
  then show "tx_step c c'" by (rule Create_one_tx)
next
  fix p c u c' assume one: "Create_one p c = (Inr u, c')" "conn_ok c"
  then obtain i j x where ok: "conn_ok c'" and
    step: "created (src_ID (pol_Source p)) (dst_ID (pol_Destination p)) (dst_Port (pol_Destination p))
       (Start (dst_Ports (pol_Destination p))) (End (dst_Ports (pol_Destination p)))
       (dst_Protocol (pol_Destination p)) i j x (tables c) (tables c')"
    by (rule Create_one_Inr)
  show "kept (\<subseteq>\<^sub>m) c c'"
    using ok one(2) step created_tidy [OF _ _ _ step] by (auto simp: kept_def created_def conn_ok_def tables_ok_def)
  show "policy_set (tables c') = insert (key_of p) (policy_set (tables c))"
    using created_keys [OF _ _ step] ok one(2) by (simp add: conn_ok_def key_of_def)
qed (auto intro: map_le_trans)


subsection \<open>Delete\<close>

definition referenced :: "tables \<Rightarrow> int \<Rightarrow> bool" where
  "referenced t k \<longleftrightarrow>
     (\<exists>p \<in> set (policies t). p_group_id p = k) \<or> (\<exists>d \<in> set (destinations t). d_group_id d = k)"

text \<open>Tidy but for the destination rows \<open>ds\<close> and the group rows \<open>gs\<close>, which are still to be checked.\<close>

definition tidy_except :: "int set \<Rightarrow> int set \<Rightarrow> tables \<Rightarrow> bool" where
  "tidy_except ds gs t \<longleftrightarrow>
     (\<forall>d \<in> set (destinations t). d_id d \<notin> ds \<longrightarrow> (\<exists>p \<in> set (policies t). p_destination_id p = d_id d)) \<and>
     (\<forall>k. group_guid t k \<noteq> None \<longrightarrow> k \<notin> gs \<longrightarrow> referenced t k)"

lemma tidy_except_empty: "groups_ok (groups t) \<Longrightarrow> tidy_except {} {} t \<longleftrightarrow> tables_tidy t"
  by (simp add: tidy_except_def tables_tidy_iff referenced_def)

text \<open>
  A step of the deletion: rows only disappear, the tag assignment only shrinks.
\<close>

definition shrinks :: "conn \<Rightarrow> conn \<Rightarrow> bool" where
  "shrinks c c' \<longleftrightarrow> tx_step c c' \<and> conn_ok c' \<and> group_guid (tables c') \<subseteq>\<^sub>m group_guid (tables c) \<and>
     map g_id (groups (tables c')) = map g_id (groups (tables c))"

lemma shrinks_trans: "shrinks a b \<Longrightarrow> shrinks b c \<Longrightarrow> shrinks a c"
  by (auto simp: shrinks_def intro: tx_step_trans map_le_trans)

lemma shrinks_same: "conn_ok c \<Longrightarrow> same_state c c' \<Longrightarrow> shrinks c c'"
  by (auto simp: shrinks_def same_state_def conn_ok_def tx_step_def)

lemma clear_unreferenced:
  assumes ok: "tables_ok t" and unref: "\<not> referenced t k"
  shows "tables_ok (set_guid k None t)" "policy_set (set_guid k None t) = policy_set t"
    "group_guid (set_guid k None t) = (group_guid t)(k := None)"
proof -
  show G: "group_guid (set_guid k None t) = (group_guid t)(k := None)"
    by (auto simp: group_guid_set_guid fun_eq_iff dest: group_guid_SomeD intro: ccontr)
  show "tables_ok (set_guid k None t)"
    using ok unref by (auto simp: tables_ok_def groups_ok_set_guid G dests_ok_def policies_ok_def referenced_def)
  have "row_key (group_guid (set_guid k None t)) (destinations t) p
          = row_key (group_guid t) (destinations t) p" if "p \<in> set (policies t)" for p
    using unref that by (intro row_key_cong) (auto simp: G referenced_def)
  then show "policy_set (set_guid k None t) = policy_set t" by (simp add: policy_set_def set_map_filter)
qed

lemma count_zero_iff: "length (filter Q xs) = 0 \<longleftrightarrow> (\<forall>x \<in> set xs. \<not> Q x)"
  by (simp add: filter_empty_conv)

lemma deleteGroupRowIfLast_tx: "deleteGroupRowIfLast k c = (r, c') \<Longrightarrow> tx_step c c'"
  by (auto simp: deleteGroupRowIfLast_def policy_CountWhereGroupID_def destination_CountWhereGroupID_def
      group_Delete_def same_state_def tx_step_def split: prod.splits sum.splits if_splits
      elim!: query_row_cases exec_cases)

lemma deleteGroupRowIfLast_tables:
  assumes "deleteGroupRowIfLast k c = (Inr u, c')"
  shows "tables c' = (if referenced (tables c) k then tables c else set_guid k None (tables c))"
  using assms
  by (auto simp: deleteGroupRowIfLast_def policy_CountWhereGroupID_def destination_CountWhereGroupID_def
      group_Delete_def same_state_def referenced_def filter_empty_conv split: prod.splits sum.splits if_splits
      elim!: query_row_cases exec_cases)

lemma deleteGroupRowIfLast_Inr:
  assumes "deleteGroupRowIfLast k c = (Inr u, c')" "conn_ok c"
  shows "shrinks c c'" "policy_set (tables c') = policy_set (tables c)"
    "tidy_except {} gs (tables c) \<Longrightarrow> tidy_except {} (gs - {k}) (tables c')"
proof -
  note t = deleteGroupRowIfLast_tables [OF assms(1)] and tx = deleteGroupRowIfLast_tx [OF assms(1)]
  have ok: "tables_ok (tables c)" using assms(2) by (simp add: conn_ok_def)
  note clear = clear_unreferenced [OF ok, of k]
  show "shrinks c c'"
    using t tx assms(2) clear by (auto simp: shrinks_def conn_ok_def tx_step_def map_le_def)
  show "policy_set (tables c') = policy_set (tables c)" using t clear by simp
  show "tidy_except {} (gs - {k}) (tables c')" if "tidy_except {} gs (tables c)"
    using t that clear(3) by (auto simp: tidy_except_def referenced_def)
qed


lemma policy_Delete_Inr:
  assumes "policy_Delete i di c = (Inr u, c')"
  shows "tx_step c c'" "tables c' = (tables c)\<lparr>policies :=
     filter (\<lambda>p. \<not> (p_group_id p = i \<and> p_destination_id p = di)) (policies (tables c))\<rparr>"
  using assms by (auto simp: policy_Delete_def elim!: exec_cases)

lemma destination_Delete_Inr:
  assumes "destination_Delete di c = (Inr u, c')"
  shows "tx_step c c'"
    "tables c' = (tables c)\<lparr>destinations := filter (\<lambda>d. d_id d \<noteq> di) (destinations (tables c))\<rparr>"
  using assms by (auto simp: destination_Delete_def elim!: exec_cases)

lemma group_guid_cong: "groups t' = groups t \<Longrightarrow> group_guid t' = group_guid t"
  by (auto simp: group_guid_def)

lemma policy_Delete_step:
  assumes del: "policy_Delete i di c = (Inr u, c')" and c: "conn_ok c"
    and d: "d \<in> set (destinations (tables c))" "d_id d = di"
    and i: "group_guid (tables c) i = Some s" and j: "group_guid (tables c) (d_group_id d) = Some g"
  shows "shrinks c c'" "destinations (tables c') = destinations (tables c)"
    "policy_set (tables c') = policy_set (tables c) - {\<lparr>k_src = s, k_dst = g, k_port = d_port d,
       k_start = d_start_port d, k_end = d_end_port d, k_protocol = d_protocol d\<rparr>}"
    "tables_tidy (tables c) \<Longrightarrow> tidy_except {di} {i} (tables c')"
proof -
  let ?k = "\<lparr>k_src = s, k_dst = g, k_port = d_port d, k_start = d_start_port d, k_end = d_end_port d, k_protocol = d_protocol d\<rparr>"
  let ?G = "group_guid (tables c)" and ?D = "destinations (tables c)"
  note t = policy_Delete_Inr [OF del]
  have ok: "groups_ok (groups (tables c))" "dests_ok ?G ?D" "policies_ok ?G ?D (policies (tables c))"
    using c by (auto simp: conn_ok_def tables_ok_def)
  have G: "group_guid (tables c') = ?G" using t(2) by (intro group_guid_cong) simp
  show "destinations (tables c') = ?D" using t(2) by simp
  show "shrinks c c'"
    using t c G by (auto simp: shrinks_def conn_ok_def tables_ok_def policies_ok_def tx_step_def)
  have k: "row_key ?G ?D p = Some ?k" if "p_group_id p = i" "p_destination_id p = di" for p
    using row_key_eq [of ?D d p ?G s g] that ok(2) d i j by (auto simp: dests_ok_def)
  have "(\<not> (p_group_id p = i \<and> p_destination_id p = di)) \<longleftrightarrow> row_key ?G ?D p \<noteq> Some ?k" for p
    using k [of p] k [of "\<lparr>p_group_id = i, p_destination_id = di\<rparr>"]
      row_key_inj [of ?G ?D p ?k "\<lparr>p_group_id = i, p_destination_id = di\<rparr>"] group_guid_inj [OF ok(1)] ok(2)
    by fastforce
  then have "set (policies (tables c')) = {p \<in> set (policies (tables c)). row_key ?G ?D p \<noteq> Some ?k}"
    using t(2) by simp
  then show "policy_set (tables c') = policy_set (tables c) - {?k}"
    unfolding policy_set_def set_map_filter G using t(2) by auto
  show "tidy_except {di} {i} (tables c')" if "tables_tidy (tables c)"
  proof -
    have P: "policies (tables c') = filter (\<lambda>p. \<not> (p_group_id p = i \<and> p_destination_id p = di)) (policies (tables c))"
      and D: "destinations (tables c') = ?D" using t(2) by simp_all
    from that have *: "tidy_except {} {} (tables c)" by (simp add: tidy_except_empty [OF ok(1)])
    show ?thesis unfolding tidy_except_def referenced_def
    proof (intro conjI ballI allI impI)
      fix e assume e: "e \<in> set (destinations (tables c'))" "d_id e \<notin> {di}"
      then obtain p where "p \<in> set (policies (tables c))" "p_destination_id p = d_id e"
        using * unfolding tidy_except_def D by blast
      with e show "\<exists>p \<in> set (policies (tables c')). p_destination_id p = d_id e" by (auto simp: P)
    next
      fix k assume "group_guid (tables c') k \<noteq> None" "k \<notin> {i}"
      then show "(\<exists>p \<in> set (policies (tables c')). p_group_id p = k) \<or> (\<exists>d \<in> set (destinations (tables c')). d_group_id d = k)"
        using * by (auto simp: tidy_except_def referenced_def P D G)
    qed
  qed
qed

lemma drop_destination_step:
  assumes del: "destination_Delete di c = (Inr u, c')" and c: "conn_ok c"
    and unused: "\<forall>p \<in> set (policies (tables c)). p_destination_id p \<noteq> di"
  shows "shrinks c c'" "policy_set (tables c') = policy_set (tables c)"
    "d \<in> set (destinations (tables c)) \<Longrightarrow> d_id d = di \<Longrightarrow> tidy_except {di} {i} (tables c) \<Longrightarrow>
       tidy_except {} {i, d_group_id d} (tables c')"
proof -
  note t = destination_Delete_Inr [OF del]
  have ok: "dests_ok (group_guid (tables c)) (destinations (tables c))"
    using c by (auto simp: conn_ok_def tables_ok_def)
  have G: "group_guid (tables c') = group_guid (tables c)" using t(2) by (intro group_guid_cong) simp
  have "policies_ok (group_guid (tables c)) (filter (\<lambda>d. d_id d \<noteq> di) (destinations (tables c))) (policies (tables c))"
    using c unused by (fastforce simp: conn_ok_def tables_ok_def policies_ok_def)
  then show "shrinks c c'"
    using t c G by (auto simp: shrinks_def conn_ok_def tables_ok_def dests_ok_def tx_step_def distinct_map_filter)
  have "row_key (group_guid (tables c)) (filter (\<lambda>d. d_id d \<noteq> di) (destinations (tables c))) p =
      row_key (group_guid (tables c)) (destinations (tables c)) p" if "p \<in> set (policies (tables c))" for p
    using unused that by (intro row_key_filter) auto
  moreover have P: "policies (tables c') = policies (tables c)"
    and D: "destinations (tables c') = filter (\<lambda>d. d_id d \<noteq> di) (destinations (tables c))"
    using t(2) by simp_all
  ultimately show "policy_set (tables c') = policy_set (tables c)"
    unfolding policy_set_def set_map_filter G P D by simp
  assume d: "d \<in> set (destinations (tables c))" "d_id d = di" and tidy: "tidy_except {di} {i} (tables c)"
  have "e = d" if "e \<in> set (destinations (tables c))" "d_id e = di" for e
    using ok d that by (auto simp: dests_ok_def distinct_map inj_on_def)
  with tidy show "tidy_except {} {i, d_group_id d} (tables c')"
    unfolding tidy_except_def referenced_def G P D set_filter by blast
qed

text \<open>The policy row of the key is there, or one of the three look-ups of \<open>Delete\<close> finds nothing.\<close>

lemma absent_key:
  assumes ok: "tables_ok t" and k: "k \<in> policy_set t"
  obtains i j d where "group_guid t i = Some (k_src k)" "group_guid t j = Some (k_dst k)"
    "d \<in> set (destinations t)" "dest_matches j (k_port k) (k_start k) (k_end k) (k_protocol k) d"
proof -
  from k obtain p where "row_key (group_guid t) (destinations t) p = Some k" by (auto simp: policy_set_iff)
  then show thesis by (rule row_key_Some) (rule that, auto simp: dest_matches_def)
qed

lemma destination_if_unused:
  assumes del: "(if n = 0 then destination_Delete di c else (Inr (), c)) = (Inr u, c')"
    and n: "n = length (filter (\<lambda>p. p_destination_id p = di) (policies (tables c)))"
    and c: "conn_ok c" and d: "d \<in> set (destinations (tables c))" "d_id d = di"
  shows "shrinks c c'" "policy_set (tables c') = policy_set (tables c)"
    "tidy_except {di} {i} (tables c) \<Longrightarrow> tidy_except {} {i, d_group_id d} (tables c')"
proof -
  have "shrinks c c' \<and> policy_set (tables c') = policy_set (tables c) \<and>
    (tidy_except {di} {i} (tables c) \<longrightarrow> tidy_except {} {i, d_group_id d} (tables c'))"
  proof (cases "n = 0")
    case True
    then have "\<forall>p \<in> set (policies (tables c)). p_destination_id p \<noteq> di" using n by (simp add: filter_empty_conv)
    then show ?thesis using drop_destination_step [OF _ c] True del d by simp
  next
    case False
    then have "c' = c" using del by simp
    moreover have "\<exists>p \<in> set (policies (tables c)). p_destination_id p = di"
      using n False by (auto simp: filter_empty_conv)
    ultimately show ?thesis using c unfolding tidy_except_def shrinks_def by fastforce
  qed
  then show "shrinks c c'" "policy_set (tables c') = policy_set (tables c)"
    "tidy_except {di} {i} (tables c) \<Longrightarrow> tidy_except {} {i, d_group_id d} (tables c')" by auto
qed

lemma tidy_except_same: "same_state c c' \<Longrightarrow> tables c' = tables c"
  by (simp add: same_state_def)

lemma shrinks_ok: "shrinks c c' \<Longrightarrow> conn_ok c'"
  by (simp add: shrinks_def)

lemma shrinks_tx: "shrinks c c' \<Longrightarrow> tx_step c c'"
  by (simp add: shrinks_def)

lemma Delete_cleanup_Inr:
  assumes run: "Delete_cleanup i (d_group_id d) di c = (Inr u, c')" and c: "conn_ok c"
    and d: "d \<in> set (destinations (tables c))" "d_id d = di"
  shows "shrinks c c' \<and> policy_set (tables c') = policy_set (tables c) \<and>
     (tidy_except {di} {i} (tables c) \<longrightarrow> tables_tidy (tables c'))"
proof -
  obtain n c1 u2 c2 u3 c3 where n: "policy_CountWhereDestinationID di c = (Inr n, c1)"
    and del: "(if n = 0 then destination_Delete di c1 else (Inr (), c1)) = (Inr u2, c2)"
    and gi: "deleteGroupRowIfLast i c2 = (Inr u3, c3)"
    and gj: "deleteGroupRowIfLast (d_group_id d) c3 = (Inr (), c')"
    using run unfolding Delete_cleanup_def by (auto split: prod.splits sum.splits)
  from n have s1: "same_state c c1" and len: "n = length (filter (\<lambda>p. p_destination_id p = di) (policies (tables c)))"
    unfolding policy_CountWhereDestinationID_def by (auto elim!: query_row_cases)
  then have t1: "tables c1 = tables c" and sh1: "shrinks c c1" using c by (auto simp: same_state_def shrinks_same)
  note S2 = destination_if_unused [OF del, unfolded t1, OF len shrinks_ok [OF sh1] d]
  note S3 = deleteGroupRowIfLast_Inr [OF gi shrinks_ok [OF S2(1)]]
  note S4 = deleteGroupRowIfLast_Inr [OF gj shrinks_ok [OF S3(1)]]
  have sh: "shrinks c c'" using sh1 S2(1) S3(1) S4(1) by (blast intro: shrinks_trans)
  then have "groups_ok (groups (tables c'))" by (simp add: shrinks_def conn_ok_def tables_ok_def)
  note E = tidy_except_empty [OF this]
  have none: "{i, d_group_id d} - {i} - {d_group_id d} = {}" by auto
  have "tables_tidy (tables c')" if "tidy_except {di} {i} (tables c)"
    using S4(3) [OF S3(3) [OF S2(3) [OF that]]] unfolding none E .
  then show ?thesis using sh S2(2) S3(2) S4(2) by simp
qed

lemma Delete_cleanup_tx: "Delete_cleanup i j di c = (r, c') \<Longrightarrow> tx_step c c'"
  unfolding Delete_cleanup_def policy_CountWhereDestinationID_def destination_Delete_def
  by (auto split: prod.splits sum.splits if_splits elim!: query_row_cases exec_cases
      dest!: deleteGroupRowIfLast_tx same_state_tx_step intro: tx_step_trans)

lemma Delete_one_tx: "Delete_one p c = (r, c') \<Longrightarrow> tx_step c c'"
  unfolding Delete_one_def group_GetID_def destination_GetID_def policy_Delete_def
  by (auto split: prod.splits sum.splits if_splits elim!: query_row_cases exec_cases
      dest!: Delete_cleanup_tx same_state_tx_step simp: tx_step_def)

definition looked_up :: "Policy \<Rightarrow> tables \<Rightarrow> (int \<times> int \<times> int) option" where
  "looked_up p t = (case select_group_id (src_ID (pol_Source p)) t of None \<Rightarrow> None | Some i \<Rightarrow>
     (case select_group_id (dst_ID (pol_Destination p)) t of None \<Rightarrow> None | Some j \<Rightarrow>
     (case select_destination_id j (dst_Port (pol_Destination p)) (Start (dst_Ports (pol_Destination p)))
             (End (dst_Ports (pol_Destination p))) (dst_Protocol (pol_Destination p)) t of
        None \<Rightarrow> None | Some di \<Rightarrow> Some (i, j, di))))"

lemma looked_up_None:
  assumes "tables_ok t" "looked_up p t = None"
  shows "key_of p \<notin> policy_set t"
proof
  assume "key_of p \<in> policy_set t"
  with assms(1) obtain i j d where *: "group_guid t i = Some (src_ID (pol_Source p))"
    "group_guid t j = Some (dst_ID (pol_Destination p))" "d \<in> set (destinations t)"
    "dest_matches j (dst_Port (pol_Destination p)) (Start (dst_Ports (pol_Destination p)))
       (End (dst_Ports (pol_Destination p))) (dst_Protocol (pol_Destination p)) d"
    by (auto simp: key_of_def elim: absent_key)
  have ok: "groups_ok (groups t)" using assms(1) by (simp add: tables_ok_def)
  have "select_destination_id j (dst_Port (pol_Destination p)) (Start (dst_Ports (pol_Destination p)))
       (End (dst_Ports (pol_Destination p))) (dst_Protocol (pol_Destination p)) t \<noteq> None"
    using *(3,4) by (auto simp: select_destination_id_def find_is_None)
  with * ok assms(2) show False
    by (auto simp: looked_up_def select_group_id_Some [OF ok, THEN iffD2])
qed

lemma Delete_one_cases:
  assumes "Delete_one p c = (Inr u, c')"
  obtains (missing) "same_state c c'" "looked_up p (tables c) = None"
  | (found) i j di c1 c2 where "looked_up p (tables c) = Some (i, j, di)" "same_state c c1"
      "policy_Delete i di c1 = (Inr (), c2)" "Delete_cleanup i j di c2 = (Inr u, c')"
proof -
  have no_rows: "policy_Delete i di c1 \<noteq> (Inl ErrNoRows, c2)" for i di c1 c2
    by (auto simp: policy_Delete_def elim!: exec_cases)
  obtain r1 c1 where q1: "query_row (select_group_id (src_ID (pol_Source p))) c = (r1, c1)" by fastforce
  obtain r2 c2 where q2: "query_row (select_group_id (dst_ID (pol_Destination p))) c1 = (r2, c2)" by fastforce
  obtain r3 c3 where q3: "query_row (select_destination_id (projr r2) (dst_Port (pol_Destination p))
      (Start (dst_Ports (pol_Destination p))) (End (dst_Ports (pol_Destination p)))
      (dst_Protocol (pol_Destination p))) c2 = (r3, c3)" by fastforce
  have same: "same_state c c1" "same_state c1 c2" "same_state c2 c3"
    using q1 q2 q3 by (auto elim: query_row_cases)
  note defs = Delete_one_def group_GetID_def destination_GetID_def looked_up_def
  show thesis
  proof (cases "is_ok r1 \<and> is_ok r2 \<and> is_ok r3")
    case True
    then have "looked_up p (tables c) = Some (projr r1, projr r2, projr r3)"
      using q1 q2 q3 by (auto simp: looked_up_def same_state_def elim!: query_row_cases)
    moreover obtain c4 where "policy_Delete (projr r1) (projr r3) c3 = (Inr (), c4)"
      "Delete_cleanup (projr r1) (projr r2) (projr r3) c4 = (Inr u, c')"
      using assms q1 q2 q3 True no_rows
      by (auto simp: Delete_one_def group_GetID_def destination_GetID_def
          split: prod.splits sum.splits if_splits)
    moreover have "same_state c c3" using same by (auto simp: same_state_def)
    ultimately show thesis using found by blast
  next
    case False
    show thesis
      using False assms q1 q2 q3 same
      by (intro missing) (auto simp: defs same_state_def split: prod.splits sum.splits if_splits option.splits
          elim!: query_row_cases)
  qed
qed

lemma looked_up_Some:
  assumes ok: "tables_ok t" and found: "looked_up p t = Some (i, j, di)"
  obtains d where "d \<in> set (destinations t)" "d_id d = di" "d_group_id d = j"
    "group_guid t i = Some (src_ID (pol_Source p))" "group_guid t j = Some (dst_ID (pol_Destination p))"
    "key_of p = \<lparr>k_src = src_ID (pol_Source p), k_dst = dst_ID (pol_Destination p), k_port = d_port d,
       k_start = d_start_port d, k_end = d_end_port d, k_protocol = d_protocol d\<rparr>"
proof -
  have G: "groups_ok (groups t)" using ok by (simp add: tables_ok_def)
  from found obtain d where
    "find (dest_matches j (dst_Port (pol_Destination p)) (Start (dst_Ports (pol_Destination p)))
       (End (dst_Ports (pol_Destination p))) (dst_Protocol (pol_Destination p))) (destinations t) = Some d"
    "d_id d = di" "group_guid t i = Some (src_ID (pol_Source p))" "group_guid t j = Some (dst_ID (pol_Destination p))"
    by (auto simp: looked_up_def select_group_id_Some [OF G] select_destination_id_def split: option.splits)
  then show thesis by (intro that [of d]) (auto simp: dest_matches_def key_of_def dest!: find_SomeD)
qed

lemma Delete_one_Inr:
  assumes run: "Delete_one p c = (Inr u, c')" and c: "conn_ok c"
  shows "shrinks c c' \<and> policy_set (tables c') = policy_set (tables c) - {key_of p} \<and>
     (tables_tidy (tables c) \<longrightarrow> tables_tidy (tables c'))"
  using run
proof (cases rule: Delete_one_cases)
  case missing
  then show ?thesis using c looked_up_None [of "tables c" p] shrinks_same [OF c]
    by (auto simp: conn_ok_def same_state_def)
next
  case (found i j di c1 c2)
  have t1: "tables c1 = tables c" and c1: "shrinks c c1" using found(2) c by (auto simp: same_state_def shrinks_same)
  have "tables_ok (tables c1)" using c t1 by (simp add: conn_ok_def)
  then obtain d where d: "d \<in> set (destinations (tables c1))" "d_id d = di" "d_group_id d = j"
    "group_guid (tables c1) i = Some (src_ID (pol_Source p))"
    "group_guid (tables c1) j = Some (dst_ID (pol_Destination p))"
    "key_of p = \<lparr>k_src = src_ID (pol_Source p), k_dst = dst_ID (pol_Destination p), k_port = d_port d,
       k_start = d_start_port d, k_end = d_end_port d, k_protocol = d_protocol d\<rparr>"
    using found(1) unfolding t1 by (elim looked_up_Some)
  note del = policy_Delete_step [OF found(3) shrinks_ok [OF c1] d(1,2,4), unfolded d(3), OF d(5)]
  have "shrinks c2 c' \<and> policy_set (tables c') = policy_set (tables c2) \<and>
     (tidy_except {di} {i} (tables c2) \<longrightarrow> tables_tidy (tables c'))"
    using found(4) d(1,2) del(2) unfolding d(3) [symmetric]
    by (intro Delete_cleanup_Inr shrinks_ok [OF del(1)]) auto
  then show ?thesis using del(1,3,4) c1 d(6) t1 by (auto intro: shrinks_trans)
qed

interpretation delete: tx_body Delete_one "\<lambda>p S. S - {key_of p}" "\<lambda>G G'. G' \<subseteq>\<^sub>m G"
proof
  fix p c r c' assume "Delete_one p c = (r, c')"
  then show "tx_step c c'" by (rule Delete_one_tx)
next
  fix p c u c' assume "Delete_one p c = (Inr u, c')" "conn_ok c"
  note del = Delete_one_Inr [OF this]
  show "kept (\<lambda>G G'. G' \<subseteq>\<^sub>m G) c c'" using del by (auto simp: kept_def shrinks_def)
  show "policy_set (tables c') = policy_set (tables c) - {key_of p}" using del by blast
qed (auto intro: map_le_trans)

end
