(* ===== verification/Policy_Store_Queries.thy ===== *)
theory Policy_Store_Queries
  imports Policy_Store_Refine
begin

text \<open>
  The queries of the policy store read the policy set back: \<open>All\<close> lists every stored policy once,
  \<open>ByGuids\<close> the ones its source and destination lists select, \<open>Tags\<close> the tag assignment in the
  order of the tags. Also the SQL text helpers, the format of tags, and the construction of the
  store.
\<close>

subsection \<open>SQL text\<close>

lemma count_QuestionMarks: "length (filter ((=) (CHR ''?'')) (QuestionMarks n)) = n"
proof -
  have "length (filter ((=) (CHR ''?'')) (repeat_string ''?, '' m)) = m" for m
    by (induction m) (simp_all add: repeat_string_def)
  then show ?thesis by (simp add: QuestionMarks_def)
qed

definition marks :: "string \<Rightarrow> nat" where
  "marks s = length (filter ((=) (CHR ''?'')) s)"

lemma marks_append [simp]: "marks (s @ t) = marks s + marks t"
  by (simp add: marks_def)

lemma marks_QuestionMarks [simp]: "marks (QuestionMarks n) = n"
  by (simp add: marks_def count_QuestionMarks)

lemma marks_where_text [simp]: "marks (where_text w) = snd w"
proof (cases w)
  case (Pair col n)
  then show ?thesis by (cases col) (simp_all add: marks_def count_QuestionMarks)
qed

lemma marks_join: "marks sep = 0 \<Longrightarrow> marks (join_with sep ws) = sum_list (map marks ws)"
  by (induction sep ws rule: join_with.induct) (auto simp: marks_def)

lemma marks_query_text: "marks (query_text q) = sum_list (map snd (wheres q))"
proof -
  have sel: "marks select_text = 0" by (simp add: marks_def select_text_def)
  have lit: "marks '' where '' = 0" "marks '';'' = 0" "marks '' AND '' = 0" "marks '' OR '' = 0" "marks [] = 0"
    by (simp_all add: marks_def)
  have "marks (if wheres q = [] then ''''
      else '' where '' @ join_with (if conjunctive q then '' AND '' else '' OR '') (map where_text (wheres q)))
    = sum_list (map snd (wheres q))"
  proof (cases "wheres q = []")
    case False
    then show ?thesis
      unfolding if_not_P [OF False] marks_append lit
      by (cases "conjunctive q") (simp_all only: if_True if_False marks_join [OF lit(3)] marks_join [OF lit(4)]
          map_map comp_def marks_where_text add_0)
  qed (simp add: lit)
  then show ?thesis unfolding query_text_def marks_append sel lit by simp
qed

lemma whereBindings_append: "whereBindings srcs dsts = srcs @ dsts"
  by (rule nth_equalityI) (auto simp: whereBindings_def nth_append)

subsection \<open>Rows and policies\<close>

definition has_tag :: "store \<Rightarrow> tables \<Rightarrow> string \<Rightarrow> string \<Rightarrow> bool" where
  "has_tag s t guid tag \<longleftrightarrow> (\<exists>i. group_guid t i = Some guid \<and> tag = tagIntToString s i)"

definition well_tagged :: "store \<Rightarrow> tables \<Rightarrow> Policy \<Rightarrow> bool" where
  "well_tagged s t p \<longleftrightarrow> has_tag s t (src_ID (pol_Source p)) (src_Tag (pol_Source p)) \<and>
     has_tag s t (dst_ID (pol_Destination p)) (dst_Tag (pol_Destination p))"

lemma row_key_defined:
  "policies_ok G D P \<Longrightarrow> dests_ok G D \<Longrightarrow> p \<in> set P \<Longrightarrow> \<exists>k. row_key G D p = Some k"
proof -
  assume ok: "policies_ok G D P" "dests_ok G D" "p \<in> set P"
  then obtain d where "d \<in> set D" "d_id d = p_destination_id p" by (auto simp: policies_ok_def)
  moreover from this ok obtain u v where "G (p_group_id p) = Some u" "G (d_group_id d) = Some v"
    unfolding policies_ok_def dests_ok_def by blast
  ultimately show ?thesis using row_key_eq [of D d p G] ok(2) by (auto simp: dests_ok_def)
qed

lemma scan_joined:
  assumes "row_key (group_guid t) (destinations t) p = Some k"
  obtains q where "scan_row s (join_row t p) = Inr q" "key_of q = k" "well_tagged s t q"
    "column_guid SrcGuid (join_row t p) = Some (k_src k)" "column_guid DstGuid (join_row t p) = Some (k_dst k)"
proof -
  from assms obtain sg d dg where *: "find (\<lambda>g. g_id g = p_group_id p) (groups t) = Some sg" "g_guid sg = Some (k_src k)"
    "find (\<lambda>d. d_id d = p_destination_id p) (destinations t) = Some d"
    "find (\<lambda>g. g_id g = d_group_id d) (groups t) = Some dg" "g_guid dg = Some (k_dst k)"
    "k = \<lparr>k_src = k_src k, k_dst = k_dst k, k_port = d_port d, k_start = d_start_port d,
               k_end = d_end_port d, k_protocol = d_protocol d\<rparr>"
    by (auto simp: row_key_def group_guid_def split: option.splits)
  let ?q = "\<lparr>pol_Source = \<lparr>src_ID = k_src k, src_Tag = tagIntToString s (g_id sg)\<rparr>,
      pol_Destination = \<lparr>dst_ID = k_dst k, dst_Tag = tagIntToString s (g_id dg), dst_Protocol = d_protocol d,
        dst_Port = d_port d, dst_Ports = \<lparr>Start = d_start_port d, End = d_end_port d\<rparr>\<rparr>\<rparr>"
  have id: "g_id sg = p_group_id p" "g_id dg = d_group_id d" using *(1,4) by (auto dest: find_SomeD)
  have "group_guid t (g_id sg) = Some (k_src k)" "group_guid t (g_id dg) = Some (k_dst k)"
    using * by (simp_all add: group_guid_def id)
  then have "well_tagged s t ?q" unfolding well_tagged_def has_tag_def by auto
  with * show thesis
    by (intro that [of ?q]) (auto simp: scan_row_def join_row_def key_of_def column_guid_def)
qed

lemma scan_rows_joined:
  assumes "\<forall>p \<in> set P. row_key (group_guid t) (destinations t) p \<noteq> None"
  shows "\<exists>qs. scan_rows s (filter sel (map (join_row t) P)) = Inr qs \<and>
     map (\<lambda>q. Some (key_of q)) qs =
       map (row_key (group_guid t) (destinations t)) (filter (\<lambda>p. sel (join_row t p)) P) \<and>
     list_all (well_tagged s t) qs"
  using assms
proof (induction P)
  case (Cons p P)
  then obtain qs where qs: "scan_rows s (filter sel (map (join_row t) P)) = Inr qs"
     "map (\<lambda>q. Some (key_of q)) qs =
       map (row_key (group_guid t) (destinations t)) (filter (\<lambda>p. sel (join_row t p)) P)"
     "list_all (well_tagged s t) qs" by auto
  from Cons.prems obtain k where k: "row_key (group_guid t) (destinations t) p = Some k" by auto
  then show ?case by (rule scan_joined [where s = s]) (use qs k in auto)
qed simp

lemma query_conn: "policiesQuery s q args c = (r, c') \<Longrightarrow> same_state c c'"
  by (auto simp: policiesQuery_def same_state_def split: sum.splits prod.splits option.splits dest!: take_fault_cases)

lemma row_key_distinct:
  assumes ok: "tables_ok t"
  shows "inj_on (row_key (group_guid t) (destinations t)) (set (policies t))"
proof (rule inj_onI)
  fix p q assume pq: "p \<in> set (policies t)" "q \<in> set (policies t)"
    and eq: "row_key (group_guid t) (destinations t) p = row_key (group_guid t) (destinations t) q"
  have ok': "policies_ok (group_guid t) (destinations t) (policies t)" "dests_ok (group_guid t) (destinations t)"
    "groups_ok (groups t)"
    using ok by (auto simp: tables_ok_def)
  from row_key_defined [OF ok'(1,2) pq(1)] eq obtain k where
    "row_key (group_guid t) (destinations t) p = Some k" "row_key (group_guid t) (destinations t) q = Some k" by auto
  then show "p = q" using row_key_inj [OF _ ok'(2)] group_guid_inj [OF ok'(3)] by blast
qed

text \<open>What a query of the store returns, for any \<^verbatim>\<open>where\<close> clause.\<close>

definition clause :: "policy_query \<Rightarrow> string list \<Rightarrow> policy_key \<Rightarrow> bool" where
  "clause q args k \<longleftrightarrow> wheres q = [] \<or>
     (let hit = (\<lambda>w. (case fst w of SrcGuid \<Rightarrow> k_src k | DstGuid \<Rightarrow> k_dst k) \<in> set (snd w)) in
      if conjunctive q then list_all hit (bind_wheres (wheres q) args)
      else list_ex hit (bind_wheres (wheres q) args))"

lemma row_selected_clause:
  assumes "row_key (group_guid t) (destinations t) p = Some k"
  shows "row_selected q args (join_row t p) \<longleftrightarrow> clause q args k"
proof -
  obtain c: "column_guid SrcGuid (join_row t p) = Some (k_src k)" "column_guid DstGuid (join_row t p) = Some (k_dst k)"
    using assms by (rule scan_joined)
  have "in_list (join_row t p) w \<longleftrightarrow> (case fst w of SrcGuid \<Rightarrow> k_src k | DstGuid \<Rightarrow> k_dst k) \<in> set (snd w)" for w
    by (cases "fst w") (simp_all add: in_list_def c)
  then have "in_list (join_row t p) = (\<lambda>w. (case fst w of SrcGuid \<Rightarrow> k_src k | DstGuid \<Rightarrow> k_dst k) \<in> set (snd w))"
    by blast
  then show ?thesis by (simp add: row_selected_def clause_def)
qed

lemma selected_keys:
  assumes "\<forall>p \<in> set (policies t). row_key (group_guid t) (destinations t) p \<noteq> None"
  shows "row_key (group_guid t) (destinations t) ` {p \<in> set (policies t). row_selected q args (join_row t p)} =
     Some ` {k \<in> policy_set t. clause q args k}" (is "?L = ?R")
proof
  show "?L \<subseteq> ?R" using assms row_selected_clause by (fastforce simp: policy_set_iff)
  show "?R \<subseteq> ?L"
  proof
    fix x assume "x \<in> ?R"
    then obtain k p where "x = Some k" "p \<in> set (policies t)" "clause q args k"
      "row_key (group_guid t) (destinations t) p = Some k" by (auto simp: policy_set_iff)
    then show "x \<in> ?L" by (auto simp: row_selected_clause intro!: image_eqI [of _ _ p])
  qed
qed

definition lists_keys :: "store \<Rightarrow> tables \<Rightarrow> policy_key set \<Rightarrow> Policy list \<Rightarrow> bool" where
  "lists_keys s t K ps \<longleftrightarrow> distinct (map key_of ps) \<and> set (map key_of ps) = K \<and> list_all (well_tagged s t) ps"

lemma scan_selects:
  assumes ok: "tables_ok t"
  obtains qs where "scan_rows s (filter (row_selected q args) (map (join_row t) (policies t))) = Inr qs"
    "lists_keys s t {k \<in> policy_set t. clause q args k} qs"
proof -
  let ?rk = "row_key (group_guid t) (destinations t)" and ?sel = "row_selected q args"
  from ok have defd: "\<forall>p \<in> set (policies t). ?rk p \<noteq> None"
    using row_key_defined unfolding tables_ok_def by fastforce
  then obtain qs where qs: "scan_rows s (filter ?sel (map (join_row t) (policies t))) = Inr qs"
     "map (\<lambda>q. Some (key_of q)) qs = map ?rk (filter (\<lambda>p. ?sel (join_row t p)) (policies t))"
     "list_all (well_tagged s t) qs" using scan_rows_joined by blast
  have "distinct (map ?rk (filter (\<lambda>p. ?sel (join_row t p)) (policies t)))"
    using ok row_key_distinct [OF ok]
    by (auto simp: distinct_map tables_ok_def policies_ok_def intro: inj_on_subset)
  then have "distinct (map (\<lambda>q. Some (key_of q)) qs)" by (simp only: qs(2))
  then have "distinct (map key_of qs)" by (auto simp: distinct_map inj_on_def)
  moreover have "Some ` set (map key_of qs) = Some ` {k \<in> policy_set t. clause q args k}"
    using arg_cong [OF qs(2), of set] selected_keys [OF defd, of q args] by (simp add: image_image)
  then have "set (map key_of qs) = {k \<in> policy_set t. clause q args k}" by (simp add: inj_image_eq_iff)
  ultimately show thesis using qs(1,3) by (intro that) (simp_all add: lists_keys_def)
qed

lemma policiesQuery_Inr:
  assumes "conn_ok c" "policiesQuery s q args c = (Inr ps, c')"
  shows "lists_keys s (tables c) {k \<in> policy_set (tables c). clause q args k} ps"
proof -
  have "tables_ok (tables c)" using assms(1) by (simp add: conn_ok_def)
  then obtain qs where qs: "scan_rows s (filter (row_selected q args) (map (join_row (tables c)) (policies (tables c)))) = Inr qs"
    "lists_keys s (tables c) {k \<in> policy_set (tables c). clause q args k} qs" by (rule scan_selects)
  obtain f1 c1 where tf: "take_fault c = (f1, c1)" by fastforce
  have "tables c1 = tables c" using take_fault_cases [OF tf] by (simp add: same_state_def)
  with qs(1) assms(2) tf have "ps = qs"
    by (auto simp: policiesQuery_def split: sum.splits option.splits prod.splits)
  with qs(2) show ?thesis by simp
qed

lemma policiesQuery_selects:
  assumes c: "conn_ok c" "no_faults c" and d: "driver s = ''mysql'' \<or> driver s = ''postgres''"
  obtains ps c' where "policiesQuery s q args c = (Inr ps, c')" "same_state c c'" "distinct (map key_of ps)"
    "set (map key_of ps) = {k \<in> policy_set (tables c). clause q args k}" "list_all (well_tagged s (tables c)) ps"
proof -
  let ?t = "tables c"
  have "tables_ok ?t" using c by (simp add: conn_ok_def)
  then obtain qs where qs: "scan_rows s (filter (row_selected q args) (map (join_row ?t) (policies ?t))) = Inr qs"
    "lists_keys s ?t {k \<in> policy_set ?t. clause q args k} qs" by (rule scan_selects)
  obtain f1 c1 f2 c2 where tf: "take_fault c = (f1, c1)" "take_fault c1 = (f2, c2)"
    by (metis prod.exhaust)
  then have same: "same_state c c1" "same_state c1 c2" "f1 = None" "f2 = None"
    using take_fault_cases c(2) unfolding same_state_def by blast+
  then have same2: "same_state c c2" "tables c1 = tables c" by (auto simp: same_state_def)
  have "policiesQuery s q args c = (Inr qs, c2)"
    using d tf qs(1) same by (auto simp: policiesQuery_def RebindForSQLDialect_def same2)
  then show thesis using same2(1) qs(2) unfolding lists_keys_def by (intro that) auto
qed

subsection \<open>All, ByGuids and Tags\<close>

definition guids_select :: "string list \<Rightarrow> string list \<Rightarrow> bool \<Rightarrow> policy_key \<Rightarrow> bool" where
  "guids_select srcs dsts both k \<longleftrightarrow>
     (if both then (srcs = [] \<or> k_src k \<in> set srcs) \<and> (dsts = [] \<or> k_dst k \<in> set dsts)
      else k_src k \<in> set srcs \<or> k_dst k \<in> set dsts)"

lemma byGuids_clause:
  assumes "\<not> (srcs = [] \<and> dsts = [])"
  shows "clause (byGuids_query srcs dsts both) (whereBindings srcs dsts) k \<longleftrightarrow> guids_select srcs dsts both k"
  using assms by (auto simp: clause_def byGuids_query_def whereBindings_append guids_select_def)

lemma ByGuids_conn: "ByGuids s srcs dsts both c = (r, c') \<Longrightarrow> same_state c c'"
  by (auto simp: ByGuids_def dest: query_conn split: if_splits) (simp add: same_state_def)

lemma All_conn: "All s c = (r, c') \<Longrightarrow> same_state c c'"
  by (auto simp: All_def dest: query_conn)

lemma Tags_conn: "Tags s c = (r, c') \<Longrightarrow> same_state c c'"
  by (auto simp: Tags_def Let_def same_state_def split: prod.splits option.splits dest!: take_fault_cases)

lemma All_Inr:
  "conn_ok c \<Longrightarrow> All s c = (Inr ps, c') \<Longrightarrow> lists_keys s (tables c) (policy_set (tables c)) ps"
  using policiesQuery_Inr [of c s _ _ ps c'] unfolding All_def by (fastforce simp: clause_def)

lemma ByGuids_Inr:
  assumes "conn_ok c" "ByGuids s srcs dsts both c = (Inr ps, c')"
  shows "lists_keys s (tables c)
     (if srcs = [] \<and> dsts = [] then {} else {k \<in> policy_set (tables c). guids_select srcs dsts both k}) ps"
proof (cases "srcs = [] \<and> dsts = []")
  case True
  then show ?thesis using assms by (simp add: ByGuids_def lists_keys_def)
next
  case False
  then have "policiesQuery s (byGuids_query srcs dsts both) (whereBindings srcs dsts) c = (Inr ps, c')"
    using assms(2) by (auto simp: ByGuids_def split: if_splits)
  from policiesQuery_Inr [OF assms(1) this] show ?thesis
    unfolding if_not_P [OF False] by (simp only: byGuids_clause [OF False])
qed

lemma All_lists:
  assumes "conn_ok c" "no_faults c" "driver s = ''mysql'' \<or> driver s = ''postgres''"
  obtains ps c' where "All s c = (Inr ps, c')" "same_state c c'" "distinct (map key_of ps)"
     "set (map key_of ps) = policy_set (tables c)" "list_all (well_tagged s (tables c)) ps"
  by (rule policiesQuery_selects [OF assms, of "\<lparr>wheres = [], conjunctive = False\<rparr>" "[]"])
    (rule that, auto simp: All_def clause_def)

lemma ByGuids_selects:
  assumes "conn_ok c" "no_faults c" "driver s = ''mysql'' \<or> driver s = ''postgres''"
  obtains ps c' where "ByGuids s srcs dsts both c = (Inr ps, c')" "same_state c c'" "distinct (map key_of ps)"
     "set (map key_of ps) =
       (if srcs = [] \<and> dsts = [] then {} else {k \<in> policy_set (tables c). guids_select srcs dsts both k})"
     "list_all (well_tagged s (tables c)) ps"
proof (cases "srcs = [] \<and> dsts = []")
  case True
  then show thesis by (intro that [of "[]" c]) (simp_all add: ByGuids_def same_state_def)
next
  case False
  show thesis
    by (rule policiesQuery_selects [OF assms, of "byGuids_query srcs dsts both" "whereBindings srcs dsts"],
        rule that) (use False in \<open>auto simp: ByGuids_def byGuids_clause\<close>)
qed

lemma Tags_lists:
  assumes "conn_ok c" "no_faults c"
  obtains ts c' where "Tags s c = (Inr ts, c')" "same_state c c'"
    "ts = map (\<lambda>g. \<lparr>tag_ID = the (g_guid g), tag_Tag = tagIntToString s (g_id g)\<rparr>) (tag_rows (tables c))"
proof -
  obtain f1 c1 f2 c2 where tf: "take_fault c = (f1, c1)" "take_fault c1 = (f2, c2)"
    by (metis prod.exhaust)
  then have same: "same_state c c1" "same_state c1 c2" "f1 = None" "f2 = None"
    using take_fault_cases assms(2) unfolding same_state_def by blast+
  then have "same_state c c2" "tables c1 = tables c" by (auto simp: same_state_def)
  with tf same show thesis by (intro that [of _ c2]) (simp_all add: Tags_def Let_def)
qed

lemma tag_rows_assignment:
  assumes "groups_ok (groups t)"
  shows "(\<lambda>g. (the (g_guid g), g_id g)) ` set (tag_rows t) = {(guid, i). group_guid t i = Some guid}" (is "?L = ?R")
    and "sorted_wrt (<) (map g_id (tag_rows t))"
proof -
  show "?L = ?R"
  proof
    show "?L \<subseteq> ?R" using assms by (auto simp: tag_rows_def group_guid_row)
    show "?R \<subseteq> ?L"
    proof
      fix x assume "x \<in> ?R"
      then obtain guid i where "x = (guid, i)" "group_guid t i = Some guid" by auto
      then show "x \<in> ?L" by (force simp: tag_rows_def dest: group_guid_SomeD)
    qed
  qed
  have "distinct (map g_id (tag_rows t))"
    using assms by (auto simp: groups_ok_def tag_rows_def distinct_map inj_on_def)
  then show "sorted_wrt (<) (map g_id (tag_rows t))"
    unfolding tag_rows_def by (metis sorted_sort_key strict_sorted_iff)
qed

subsection \<open>Tags\<close>

lemma tagIntToString_length:
  assumes "0 \<le> i" "i < 2 ^ (8 * nat (tagLength s))" "1 \<le> tagLength s"
  shows "length (tagIntToString s i) = 2 * nat (tagLength s)"
proof -
  have "nat i < 16 ^ (2 * nat (tagLength s))"
    using assms(1,2) by (simp add: power_mult nat_less_iff)
  then have "length (digits_base 16 (nat i)) \<le> 2 * nat (tagLength s)"
    using assms(3) by (intro length_digits_base) auto
  then show ?thesis using assms
    by (simp add: tagIntToString_def format_hex_def pad_zero_def nat_mult_distrib)
qed

lemma tagIntToString_inj: "0 \<le> i \<Longrightarrow> 0 \<le> j \<Longrightarrow> tagIntToString s i = tagIntToString s j \<longleftrightarrow> i = j"
  by (simp add: tagIntToString_def format_hex_inj)

subsection \<open>Construction\<close>

lemma null_rows_eq: "1 \<le> tagLen \<Longrightarrow> Suc (null_rows tagLen) = 2 ^ (8 * nat tagLen)"
proof -
  assume "1 \<le> tagLen"
  then have "(2::nat) ^ 1 \<le> 2 ^ (8 * nat tagLen)" by (intro power_increasing) auto
  then show ?thesis by (simp add: null_rows_def mult.commute)
qed

definition all_blank :: "int \<Rightarrow> tables" where
  "all_blank tagLen = \<lparr>groups = map (\<lambda>i. \<lparr>g_id = int i, g_guid = None\<rparr>) [1 ..< Suc (null_rows tagLen)],
     destinations = [], policies = []\<rparr>"

lemma all_blank_ok: "tables_ok (all_blank tagLen)" "tables_tidy (all_blank tagLen)" "policy_set (all_blank tagLen) = {}"
  by (auto simp: all_blank_def tables_ok_def groups_ok_def dests_ok_def policies_ok_def tables_tidy_def policy_set_def
      distinct_map inj_on_def comp_def)

lemma all_blank_ids: "1 \<le> tagLen \<Longrightarrow> map g_id (groups (all_blank tagLen)) = map int [1 ..< 2 ^ (8 * nat tagLen)]"
  by (simp add: all_blank_def null_rows_eq comp_def del: upt_Suc)

lemma populateTables_cases:
  assumes "populateTables tagLen c = (r, c')"
  obtains (fault) e where "r = Inl (DriverError e)" "tx_step c c'" "tables c' = tables c" "\<not> no_faults c"
  | (filled) "r = Inr ()" "same_state c c'" "groups (tables c) \<noteq> []"
  | (empty) "r = Inr ()" "tx_step c c'" "groups (tables c) = []"
      "tables c' = (tables c)\<lparr>groups := groups (all_blank tagLen)\<rparr>"
proof -
  obtain r1 c1 where q: "query_row (\<lambda>t. Some (length (groups t))) c = (r1, c1)" by fastforce
  then show thesis
  proof (cases rule: query_row_cases)
    case (fault e)
    with assms q show thesis by (intro that(1)) (auto simp: populateTables_def same_state_def tx_step_def)
  next
    case (row n)
    show thesis
    proof (cases "groups (tables c) = []")
      case True
      then have "exec (insert_null_groups tagLen) c1 = (r, c')" using assms q row by (simp add: populateTables_def)
      then show thesis
      proof (cases rule: exec_cases)
        case (fault e)
        then show thesis using row by (intro that(1)) (auto simp: same_state_def tx_step_def)
      next
        case executed
        then show thesis using row True
          by (intro that(3)) (auto simp: same_state_def tx_step_def insert_null_groups_def all_blank_def simp del: upt_Suc)
      qed (simp add: insert_null_groups_def)
    next
      case False
      with assms q row show thesis by (intro that(2)) (auto simp: populateTables_def)
    qed
  qed simp
qed
end
