(* ===== verification/Policy_Store_Progress.thy ===== *)
theory Policy_Store_Progress
  imports Policy_Store_Queries
begin

text \<open>
  When \<open>Create\<close> succeeds: no database fault, a free tag for every application that has none, and
  the \<open>port\<close> column of every destination determined by its port range, as the API mappers do. The
  last condition rules out the constraint \<^verbatim>\<open>unique_destination\<close>, which ignores \<^verbatim>\<open>port\<close>.
\<close>

definition port_of :: "int \<Rightarrow> int \<Rightarrow> int" where
  "port_of start end' = (if start = end' then start else 0)"

definition port_consistent :: "Policy \<Rightarrow> bool" where
  "port_consistent p \<longleftrightarrow> dst_Port (pol_Destination p) =
     port_of (Start (dst_Ports (pol_Destination p))) (End (dst_Ports (pol_Destination p)))"

definition ports_consistent :: "tables \<Rightarrow> bool" where
  "ports_consistent t \<longleftrightarrow> (\<forall>d \<in> set (destinations t). d_port d = port_of (d_start_port d) (d_end_port d))"

definition blanks :: "tables \<Rightarrow> int set" where
  "blanks t = {i \<in> g_id ` set (groups t). group_guid t i = None}"

definition enough_tags :: "string set \<Rightarrow> tables \<Rightarrow> bool" where
  "enough_tags W t \<longleftrightarrow> card (W - ran (group_guid t)) \<le> card (blanks t)"

lemma finite_blanks [simp]: "finite (blanks t)"
  by (simp add: blanks_def)

text \<open>Driver calls without faults.\<close>

lemma query_row_ok: "no_faults c \<Longrightarrow> \<exists>c'. query_row q c = (case q (tables c) of None \<Rightarrow> Inl ErrNoRows | Some x \<Rightarrow> Inr x, c') \<and> same_state c c'"
proof -
  assume nf: "no_faults c"
  obtain r c' where "query_row q c = (r, c')" by fastforce
  then show ?thesis using nf by (cases rule: query_row_cases) (auto simp: \<open>query_row q c = (r, c')\<close>)
qed

lemma exec_ok: "no_faults c \<Longrightarrow> stmt (next_id c) (tables c) = Inr t \<Longrightarrow>
    \<exists>c'. exec stmt c = (Inr (), c') \<and> no_faults c' \<and> tables c' = t"
proof -
  assume nf: "no_faults c" and st: "stmt (next_id c) (tables c) = Inr t"
  obtain r c' where ex: "exec stmt c = (r, c')" by fastforce
  then show ?thesis using nf st by (cases rule: exec_cases) (auto simp: tx_step_def ex)
qed

lemma group_Create_ok:
  assumes c: "conn_ok c" "no_faults c" and W: "finite W" "guid \<in> W" "enough_tags W (tables c)"
  obtains i c' where "group_Create guid c = (Inr i, c')"
proof -
  let ?t = "tables c"
  have ok: "groups_ok (groups ?t)" using c by (simp add: conn_ok_def tables_ok_def)
  obtain c1 where q: "findRowByGUID guid c = (case select_group_id guid ?t of None \<Rightarrow> Inl ErrNoRows | Some x \<Rightarrow> Inr x, c1)"
    and s1: "same_state c c1" using query_row_ok [OF c(2)] unfolding findRowByGUID_def by blast
  show thesis
  proof (cases "select_group_id guid ?t")
    case (Some i)
    then show thesis using q that by (simp add: group_Create_def)
  next
    case None
    then have "guid \<notin> ran (group_guid ?t)" by (auto simp: select_group_id_None [OF ok] ran_def)
    then have "W - ran (group_guid ?t) \<noteq> {}" using W(2) by blast
    then have "0 < card (W - ran (group_guid ?t))" using W(1) by (simp add: card_gt_0_iff)
    then have "blanks ?t \<noteq> {}" using W(3) by (auto simp: enough_tags_def)
    moreover have "set (blank_ids ?t) = blanks ?t" using blank_ids_iff [OF ok] by (auto simp: blanks_def)
    ultimately have "blank_ids ?t \<noteq> []" by (metis set_empty)
    then obtain i where i: "select_first_blank ?t = Some i" using select_first_blank_None by fastforce
    have nf1: "no_faults c1" "tables c1 = ?t" using s1 c(2) by (simp_all add: same_state_def)
    obtain c2 where f: "firstBlankRow c1 = (Inr i, c2)" and s2: "same_state c1 c2"
      using query_row_ok [OF nf1(1), of select_first_blank] i nf1(2) unfolding firstBlankRow_def by auto
    have nf2: "no_faults c2" "tables c2 = ?t" using s2 nf1 by (simp_all add: same_state_def)
    have "update_guid_stmt i guid (next_id c2) (tables c2) = Inr (set_guid i (Some guid) (tables c2))"
      using None nf2(2) by (auto simp: update_guid_stmt_def select_group_id_def list_ex_iff find_is_None)
    then obtain c3 where "updateRow i guid c2 = (Inr (), c3)"
      using exec_ok [OF nf2(1)] unfolding updateRow_def by blast
    with q f None show thesis by (intro that) (simp add: group_Create_def)
  qed
qed

lemma enough_tags_create:
  assumes W: "finite W" "enough_tags W t" and ids: "map g_id (groups t') = map g_id (groups t)"
    and G: "group_guid t \<subseteq>\<^sub>m group_guid t'" "group_guid t' i = Some guid"
      "\<forall>j. j \<noteq> i \<longrightarrow> group_guid t' j = group_guid t j" and guid: "guid \<in> W" and ok: "groups_ok (groups t')"
  shows "enough_tags W t'"
proof (cases "group_guid t i")
  case (Some s)
  with G(1,2) have "s = guid" by (metis domI map_le_def option.inject)
  with Some G have "group_guid t' = group_guid t" by (intro ext) (metis)
  moreover have "g_id ` set (groups t') = g_id ` set (groups t)" using ids by (metis list.set_map)
  ultimately show ?thesis using W by (simp add: enough_tags_def blanks_def)
next
  case None
  have new: "guid \<notin> ran (group_guid t)"
  proof
    assume "guid \<in> ran (group_guid t)"
    then obtain j where j: "group_guid t j = Some guid" by (auto simp: ran_def)
    then have "group_guid t' j = Some guid" using G(1) by (metis domI map_le_def)
    then have "j = i" using group_guid_inj [OF ok _ G(2)] by blast
    with None j show False by simp
  qed
  have eq: "group_guid t' = (group_guid t)(i \<mapsto> guid)" using G(2,3) by (auto simp: fun_eq_iff)
  then have ran: "W - ran (group_guid t') = (W - ran (group_guid t)) - {guid}" using None by auto
  have "i \<in> g_id ` set (groups t')" using G(2) group_guid_SomeD by fastforce
  moreover have idset: "g_id ` set (groups t') = g_id ` set (groups t)" using ids by (metis list.set_map)
  ultimately have "i \<in> blanks t" "blanks t' = blanks t - {i}" using None by (auto simp: blanks_def eq)
  then show ?thesis using W new guid unfolding enough_tags_def ran by (simp add: card_Diff_singleton)
qed

lemma destination_Create_ok:
  assumes c: "no_faults c" and cons: "ports_consistent (tables c)" "port = port_of start end'"
  obtains i c' where "destination_Create grp port start end' proto c = (Inr i, c')"
    "ports_consistent (tables c')"
proof -
  let ?D = "destinations (tables c)"
  have same: "dest_matches grp port start end' proto d \<longleftrightarrow>
      d_group_id d = grp \<and> d_start_port d = start \<and> d_end_port d = end' \<and> d_protocol d = proto" if "d \<in> set ?D" for d
    using cons that by (auto simp: ports_consistent_def dest_matches_def)
  have "insert_destination grp port start end' proto (next_id c) (tables c) \<noteq> Inl e" for e
    using same by (auto simp: insert_destination_def list_ex_iff)
  then obtain t where t: "insert_destination grp port start end' proto (next_id c) (tables c) = Inr t"
    by (metis sum.exhaust)
  then obtain c1 where e: "exec (insert_destination grp port start end' proto) c = (Inr (), c1)"
    "no_faults c1" "tables c1 = t" using exec_ok [OF c] by blast
  have "list_ex (dest_matches grp port start end' proto) (destinations t)"
    using t by (auto simp: insert_destination_def dest_matches_def split: if_splits)
  then obtain i where "select_destination_id grp port start end' proto (tables c1) = Some i"
    using e(3) by (cases "select_destination_id grp port start end' proto (tables c1)")
      (auto simp: select_destination_id_def find_is_None list_ex_iff)
  then obtain c2 where "destination_GetID grp port start end' proto c1 = (Inr i, c2)" "same_state c1 c2"
    using query_row_ok [OF e(2), of "select_destination_id grp port start end' proto"]
    unfolding destination_GetID_def by auto
  moreover have "ports_consistent t"
    using t cons by (auto simp: insert_destination_def ports_consistent_def split: if_splits)
  ultimately show thesis
    using e by (intro that [of i c2]) (auto simp: destination_Create_def same_state_def)
qed

definition guids_of :: "Policy \<Rightarrow> string set" where
  "guids_of p = {src_ID (pol_Source p), dst_ID (pol_Destination p)}"

definition ready :: "string set \<Rightarrow> conn \<Rightarrow> bool" where
  "ready W c \<longleftrightarrow> conn_ok c \<and> no_faults c \<and> finite W \<and> enough_tags W (tables c) \<and> ports_consistent (tables c)"

lemma group_Create_ready:
  assumes "ready W c" "guid \<in> W"
  obtains i c' where "group_Create guid c = (Inr i, c')" "ready W c'"
proof -
  from assms obtain i c' where g: "group_Create guid c = (Inr i, c')"
    unfolding ready_def by (meson group_Create_ok)
  have c: "conn_ok c" using assms(1) by (simp add: ready_def)
  note e = group_Create_Inr [OF g c]
  then have ok: "groups_ok (groups (tables c'))" by (simp add: extends_def conn_ok_def tables_ok_def)
  have W: "finite W" "enough_tags W (tables c)" using assms(1) by (simp_all add: ready_def)
  have ids: "map g_id (groups (tables c')) = map g_id (groups (tables c))"
    "group_guid (tables c) \<subseteq>\<^sub>m group_guid (tables c')" using e(1) by (simp_all add: extends_def)
  have "enough_tags W (tables c')" by (rule enough_tags_create [OF W ids e(2,3) assms(2) ok])
  with assms(1) e(1) have "ready W c'"
    by (simp add: ready_def extends_def tx_step_def ports_consistent_def)
  with g show thesis by (rule that)
qed

lemma enough_tags_cong: "groups t' = groups t \<Longrightarrow> enough_tags W t' = enough_tags W t"
  by (simp add: enough_tags_def blanks_def group_guid_cong [of t' t])

lemma Create_one_ready:
  assumes r: "ready W c" and p: "guids_of p \<subseteq> W" "port_consistent p"
  obtains c' where "Create_one p c = (Inr (), c')" "ready W c'"
proof -
  let ?d = "pol_Destination p"
  obtain i c1 where 1: "group_Create (src_ID (pol_Source p)) c = (Inr i, c1)" "ready W c1"
    using r p(1) by (auto simp: guids_of_def elim: group_Create_ready)
  obtain j c2 where 2: "group_Create (dst_ID ?d) c1 = (Inr j, c2)" "ready W c2"
    using 1(2) p(1) by (auto simp: guids_of_def elim: group_Create_ready)
  have "no_faults c2" "ports_consistent (tables c2)" using 2(2) by (simp_all add: ready_def)
  then obtain di c3 where 3: "destination_Create j (dst_Port ?d) (Start (dst_Ports ?d)) (End (dst_Ports ?d))
      (dst_Protocol ?d) c2 = (Inr di, c3)" "ports_consistent (tables c3)"
    using p(2) unfolding port_consistent_def by (elim destination_Create_ok)
  have "conn_ok c1" using 1(2) by (simp add: ready_def)
  then have j: "group_guid (tables c2) j \<noteq> None" and c2: "conn_ok c2"
    using group_Create_Inr(2) [OF 2(1)] 2(2) by (simp_all add: ready_def)
  have g3: "groups (tables c3) = groups (tables c2)" by (rule destination_Create_Inr [OF 3(1) c2 j])
  have nf3: "no_faults c3" using destination_Create_tx [OF 3(1)] 2(2) by (simp add: ready_def tx_step_def)
  obtain c4 where 4: "policy_Create i di c3 = (Inr (), c4)"
    using exec_ok [OF nf3, of "insert_policy i di"] unfolding policy_Create_def
    by (cases "insert_policy i di (next_id c3) (tables c3)") (auto simp: insert_policy_def split: if_splits)
  have one: "Create_one p c = (Inr (), c4)" using 1 2 3 4 by (simp add: Create_one_def)
  have "conn_ok c" using r by (simp add: ready_def)
  then have "conn_ok c4" by (rule Create_one_Inr [OF one])
  moreover have "no_faults c4" using policy_Create_tx [OF 4] nf3 by (simp add: tx_step_def)
  moreover have "enough_tags W (tables c4)"
    using 2(2) enough_tags_cong [of "tables c4" "tables c2" W] g3 policy_Create_Inr(1) [OF 4] by (simp add: ready_def)
  moreover have "ports_consistent (tables c4)"
    using 3(2) policy_Create_Inr(2) [OF 4] by (simp add: ports_consistent_def)
  ultimately have "ready W c4" using r by (simp add: ready_def)
  with one show thesis by (rule that)
qed

lemma Create_loop_ready:
  assumes "ready W c" "saved c = Some t0" "list_all (\<lambda>p. guids_of p \<subseteq> W \<and> port_consistent p) ps"
  shows "\<exists>c'. tx_loop Create_one ps c = (Inr (), c') \<and> no_faults c' \<and> ports_consistent (tables c')"
  using assms
proof (induction ps arbitrary: c)
  case Nil
  obtain r c' where "commit c = (r, c')" by fastforce
  then show ?case using Nil(2)
    by (cases rule: commit_cases) (use Nil \<open>commit c = (r, c')\<close> in \<open>auto simp: ready_def\<close>)
next
  case (Cons p ps)
  then obtain c1 where one: "Create_one p c = (Inr (), c1)" "ready W c1" by (auto elim: Create_one_ready)
  then have "saved c1 = Some t0" using Create_one_tx [OF one(1)] Cons.prems(2) by (simp add: tx_step_def)
  then show ?case using Cons one by simp
qed

end
