(* ===== verification/Policy_Store_Props.thy ===== *)
theory Policy_Store_Props
  imports Policy_Store_Progress
begin

text \<open>
  The properties of the policy store, with a concrete database for their witnesses: three blank
  tags, and two policies between the applications \<open>a\<close>, \<open>b\<close> and \<open>c\<close>.
\<close>

subsection \<open>Any sequence of calls\<close>

lemma CreateTag_cases:
  assumes "CreateTag guid ty c = (r, c')" "conn_ok c" "saved c = None"
  shows "(\<exists>e. r = Inl e) \<and> aborted (tables c) c c' \<or>
     (\<exists>i. r = Inr i \<and> group_guid (tables c') i = Some guid) \<and> saved c' = None \<and> conn_ok c' \<and>
       group_guid (tables c) \<subseteq>\<^sub>m group_guid (tables c') \<and> policy_set (tables c') = policy_set (tables c)"
proof -
  obtain r0 c0 where b: "Beginx c = (r0, c0)" by fastforce
  show ?thesis
  proof (cases r0)
    case (Inl e)
    with b assms show ?thesis
      by (auto simp: CreateTag_def Beginx_def aborted_def same_state_def split: prod.splits option.splits dest!: take_fault_cases)
  next
    case (Inr u)
    then have c0: "tables c0 = tables c" "saved c0 = Some (tables c)" "next_id c0 = next_id c"
      using b by (auto simp: Beginx_def same_state_def split: prod.splits option.splits dest!: take_fault_cases)
    then have ok0: "conn_ok c0" using assms(2) by (simp add: conn_ok_def)
    obtain r1 c1 where g: "group_Create guid c0 = (r1, c1)" by fastforce
    have tx: "tx_step c0 c1" using group_Create_tx [OF g] .
    show ?thesis
    proof (cases r1)
      case (Inl e)
      with g b Inr assms(1) have "rollback e c1 = (r, c')" by (simp add: CreateTag_def)
      from rollback_aborted [OF this tx c0(2)] show ?thesis using c0 by (auto simp: aborted_def)
    next
      case (Inr i)
      note e = group_Create_Inr [OF g [unfolded Inr] ok0]
      have s1: "saved c1 = Some (tables c)" using tx c0 by (simp add: tx_step_def)
      obtain r2 c2 where cm: "commit c1 = (r2, c2)" by fastforce
      from cm s1 show ?thesis
      proof (cases rule: commit_cases)
        case ok
        with e c0 cm g b Inr \<open>r0 = Inr u\<close> assms(1) show ?thesis
          by (auto simp: CreateTag_def extends_def conn_ok_def)
      next
        case (failed e)
        with c0 cm g b Inr \<open>r0 = Inr u\<close> assms(1) tx show ?thesis
          by (auto simp: CreateTag_def rollback_def tx_Rollback_def aborted_def tx_step_def)
      qed
    qed
  qed
qed

inductive store_step :: "conn \<Rightarrow> conn \<Rightarrow> bool" where
  step_Create: "Create ps c = (r, c') \<Longrightarrow> store_step c c'"
| step_Delete: "Delete ps c = (r, c') \<Longrightarrow> store_step c c'"
| step_CreateTag: "CreateTag guid ty c = (r, c') \<Longrightarrow> store_step c c'"
| step_All: "All s c = (r, c') \<Longrightarrow> store_step c c'"
| step_ByGuids: "ByGuids s srcs dsts both c = (r, c') \<Longrightarrow> store_step c c'"
| step_Tags: "Tags s c = (r, c') \<Longrightarrow> store_step c c'"
| step_faults: "store_step c (c\<lparr>faults := fs\<rparr>)"

lemma Create_cases:
  "Create ps c = (r, c') \<Longrightarrow> conn_ok c \<Longrightarrow> saved c = None \<Longrightarrow>
     (\<exists>e. r = Inl e) \<and> aborted (tables c) c c' \<or>
     r = Inr () \<and> saved c' = None \<and> next_id c \<le> next_id c' \<and> kept (\<subseteq>\<^sub>m) c c' \<and>
     policy_set (tables c') = policy_set (tables c) \<union> key_of ` set ps"
proof -
  assume "Create ps c = (r, c')" "conn_ok c" "saved c = None"
  moreover have "fold (\<lambda>p. insert (key_of p)) ps S = S \<union> key_of ` set ps" for S
    by (induction ps arbitrary: S) auto
  ultimately show ?thesis using create.call_cases [of ps c r c'] by (simp add: Create_def)
qed

lemma Delete_cases:
  "Delete ps c = (r, c') \<Longrightarrow> conn_ok c \<Longrightarrow> saved c = None \<Longrightarrow>
     (\<exists>e. r = Inl e) \<and> aborted (tables c) c c' \<or>
     r = Inr () \<and> saved c' = None \<and> next_id c \<le> next_id c' \<and> kept (\<lambda>G G'. G' \<subseteq>\<^sub>m G) c c' \<and>
     policy_set (tables c') = policy_set (tables c) - key_of ` set ps"
proof -
  assume "Delete ps c = (r, c')" "conn_ok c" "saved c = None"
  moreover have "fold (\<lambda>p S. S - {key_of p}) ps S = S - key_of ` set ps" for S
    by (induction ps arbitrary: S) auto
  ultimately show ?thesis using delete.call_cases [of ps c r c'] by (simp add: Delete_def)
qed

lemma aborted_ok: "aborted (tables c) c c' \<Longrightarrow> conn_ok c \<Longrightarrow> conn_ok c' \<and> saved c' = None"
  by (auto simp: aborted_def conn_ok_def)

lemma store_step_ok: "store_step c c' \<Longrightarrow> conn_ok c \<and> saved c = None \<Longrightarrow> conn_ok c' \<and> saved c' = None"
proof (induction rule: store_step.induct)
  case (step_Create ps c r c')
  then show ?case using Create_cases [of ps c r c'] aborted_ok by (auto simp: kept_def)
next
  case (step_Delete ps c r c')
  then show ?case using Delete_cases [of ps c r c'] aborted_ok by (auto simp: kept_def)
next
  case (step_CreateTag guid ty c r c')
  then show ?case using CreateTag_cases [of guid ty c r c'] aborted_ok by auto
qed (auto simp: same_state_def conn_ok_def dest!: All_conn ByGuids_conn Tags_conn)

subsection \<open>A concrete database\<close>

definition demo_policy :: "string \<Rightarrow> string \<Rightarrow> int \<Rightarrow> Policy" where
  "demo_policy a b port = \<lparr>pol_Source = \<lparr>src_ID = a, src_Tag = ''''\<rparr>,
     pol_Destination = \<lparr>dst_ID = b, dst_Tag = '''', dst_Protocol = ''tcp'', dst_Port = port,
       dst_Ports = \<lparr>Start = port, End = port\<rparr>\<rparr>\<rparr>"

definition demo_policies :: "Policy list" where
  "demo_policies = [demo_policy ''a'' ''b'' 8080, demo_policy ''c'' ''b'' 9090]"

definition demo_conn :: conn where
  "demo_conn = \<lparr>tables = \<lparr>groups = map (\<lambda>i. \<lparr>g_id = i, g_guid = None\<rparr>) [1, 2, 3], destinations = [], policies = []\<rparr>,
     saved = None, next_id = 1, faults = []\<rparr>"

definition demo_store :: store where
  "demo_store = \<lparr>tagLength = 1, driver = ''mysql''\<rparr>"

lemma demo_conn_ok [simp]: "conn_ok demo_conn" "saved demo_conn = None" "no_faults demo_conn"
  "tables_tidy (tables demo_conn)" "policy_set (tables demo_conn) = {}"
  by (auto simp: demo_conn_def conn_ok_def no_faults_def tables_ok_def groups_ok_def dests_ok_def
      policies_ok_def tables_tidy_def policy_set_def)

definition demo_full :: conn where
  "demo_full = snd (Create demo_policies demo_conn)"

lemma demo_full_Create: "Create demo_policies demo_conn = (Inr (), demo_full)"
proof -
  have "fst (Create demo_policies demo_conn) = Inr ()" by code_simp
  then show ?thesis by (simp add: demo_full_def prod_eq_iff)
qed

lemma demo_full_no_faults [simp]: "no_faults demo_full"
  by code_simp

lemma demo_full_ok [simp]: "conn_ok demo_full" "saved demo_full = None" "tables_tidy (tables demo_full)"
  "policy_set (tables demo_full) = key_of ` set demo_policies"
  using Create_cases [OF demo_full_Create] by (auto simp: kept_def)

subsection \<open>Properties\<close>

text \<open>C1. \<open>Create\<close> refines set union: a call that succeeds adds exactly the given policies, keeps the
  tables well-formed and tidy, gives out tags without changing one already given, and ends its
  transaction; a call that fails at any point leaves the database as it was, with no transaction
  open.\<close>

theorem Create_refines_union:
  assumes "Create ps c = (r, c')" "conn_ok c" "saved c = None"
  shows "saved c' = None \<and> conn_ok c' \<and>
     (case r of Inl e \<Rightarrow> tables c' = tables c
      | Inr _ \<Rightarrow> policy_set (tables c') = policy_set (tables c) \<union> key_of ` set ps \<and>
          group_guid (tables c) \<subseteq>\<^sub>m group_guid (tables c') \<and> (tables_tidy (tables c) \<longrightarrow> tables_tidy (tables c')))"
  using Create_cases [OF assms] aborted_ok [OF _ assms(2), of c'] by (auto simp: kept_def aborted_def)

theorem Create_refines_union_witness:
  "saved demo_full = None \<and> conn_ok demo_full \<and> tables_tidy (tables demo_full) \<and>
     policy_set (tables demo_full) = key_of ` {demo_policy ''a'' ''b'' 8080, demo_policy ''c'' ''b'' 9090}"
  using Create_refines_union [OF demo_full_Create] by (simp add: demo_policies_def)

text \<open>C2. \<open>Delete\<close> refines set difference, under the same contract: policies that are not stored are
  skipped, tags and destinations that no policy needs any more are released, and a failing call
  changes nothing.\<close>

theorem Delete_refines_difference:
  assumes "Delete ps c = (r, c')" "conn_ok c" "saved c = None"
  shows "saved c' = None \<and> conn_ok c' \<and>
     (case r of Inl e \<Rightarrow> tables c' = tables c
      | Inr _ \<Rightarrow> policy_set (tables c') = policy_set (tables c) - key_of ` set ps \<and>
          group_guid (tables c') \<subseteq>\<^sub>m group_guid (tables c) \<and> (tables_tidy (tables c) \<longrightarrow> tables_tidy (tables c')))"
  using Delete_cases [OF assms] aborted_ok [OF _ assms(2), of c'] by (auto simp: kept_def aborted_def)

theorem Delete_refines_difference_witness:
  "let p = demo_policy ''a'' ''b'' 8080; c' = snd (Delete [p] demo_full) in
     fst (Delete [p] demo_full) = Inr () \<and> policy_set (tables c') = {key_of (demo_policy ''c'' ''b'' 9090)}"
proof -
  let ?p = "demo_policy ''a'' ''b'' 8080" and ?q = "demo_policy ''c'' ''b'' 9090"
  have ok: "fst (Delete [?p] demo_full) = Inr ()" by code_simp
  have "policy_set (tables (snd (Delete [?p] demo_full))) = key_of ` set demo_policies - {key_of ?p}"
    using Delete_refines_difference [of "[?p]" demo_full "Inr ()" "snd (Delete [?p] demo_full)"] ok
    by (simp add: prod_eq_iff)
  moreover have "key_of ?p \<noteq> key_of ?q" by (simp add: key_of_def demo_policy_def)
  ultimately show ?thesis using ok by (auto simp: demo_policies_def)
qed

text \<open>C6. Every sequence of calls on a well-formed database, whatever faults the database shows, leaves
  it well-formed (guids unique, policies and destinations without dangling references, no duplicate)
  and without an open transaction.\<close>

theorem store_invariant_reachable:
  assumes "store_step\<^sup>*\<^sup>* c c'" "conn_ok c" "saved c = None"
  shows "conn_ok c' \<and> saved c' = None"
  using assms by (induction rule: rtranclp_induct) (auto dest: store_step_ok)

theorem store_invariant_reachable_witness:
  "conn_ok (snd (Delete demo_policies demo_full)) \<and> saved (snd (Delete demo_policies demo_full)) = None"
proof (rule store_invariant_reachable)
  show "store_step\<^sup>*\<^sup>* demo_conn (snd (Delete demo_policies demo_full))"
    by (rule rtranclp.rtrancl_into_rtrancl [OF r_into_rtranclp [of store_step, OF step_Create [OF demo_full_Create]]])
      (rule step_Delete [of demo_policies _ "fst (Delete demo_policies demo_full)"], simp)
qed simp_all

text \<open>\<open>Create\<close> succeeds when the database shows no fault, a free tag is left for every application
  named by the new policies that has none, and the ports obey the rule of the API mappers. In
  particular the unique constraint on destinations cannot fail.\<close>

theorem Create_ready:
  assumes "conn_ok c" "no_faults c" "saved c = None" "ports_consistent (tables c)"
    and "list_all port_consistent ps" "enough_tags (\<Union> (guids_of ` set ps)) (tables c)"
  shows "\<exists>c'. Create ps c = (Inr (), c') \<and> no_faults c' \<and> ports_consistent (tables c')"
proof -
  obtain f c0 where tf: "take_fault c = (f, c0)" by fastforce
  note same = take_fault_cases [OF tf]
  let ?c = "c0\<lparr>saved := Some (tables c0)\<rparr>" and ?W = "\<Union> (guids_of ` set ps)"
  have "ready ?W ?c" using assms same by (auto simp: ready_def same_state_def conn_ok_def no_faults_def guids_of_def)
  moreover have "list_all (\<lambda>p. guids_of p \<subseteq> ?W \<and> port_consistent p) ps"
    using assms(5) by (auto simp: list_all_iff)
  ultimately have "\<exists>c'. tx_loop Create_one ps ?c = (Inr (), c') \<and> no_faults c' \<and> ports_consistent (tables c')"
    by (intro Create_loop_ready [of ?W _ "tables c0"]) auto
  then show ?thesis using tf same assms(2) by (simp add: Create_def Beginx_def)
qed

theorem Create_ready_witness: "\<exists>c'. Create demo_policies demo_conn = (Inr (), c') \<and> no_faults c' \<and> ports_consistent (tables c')"
proof (rule Create_ready)
  have "guids_of ` set demo_policies = {{''a'', ''b''}, {''c'', ''b''}}"
    by (simp add: demo_policies_def demo_policy_def guids_of_def)
  then have "\<Union> (guids_of ` set demo_policies) = {''a'', ''b'', ''c''}" by auto
  moreover have "group_guid (tables demo_conn) = (\<lambda>_. None)" by (auto simp: group_guid_def demo_conn_def fun_eq_iff)
  moreover have "blanks (tables demo_conn) = {1, 2, 3}" by (auto simp: blanks_def demo_conn_def group_guid_def)
  ultimately show "enough_tags (\<Union> (guids_of ` set demo_policies)) (tables demo_conn)"
    by (simp add: enough_tags_def)
  show "ports_consistent (tables demo_conn)" by (simp add: ports_consistent_def demo_conn_def)
  show "list_all port_consistent demo_policies" by code_simp
qed simp_all

text \<open>Without a database fault \<open>All\<close> lists exactly the stored policies, each once, each with the
  tags of its two applications, and changes nothing.\<close>

theorem All_lists_policy_set:
  assumes "conn_ok c" "no_faults c" "driver s = ''mysql'' \<or> driver s = ''postgres''"
  shows "\<exists>ps c'. All s c = (Inr ps, c') \<and> same_state c c' \<and> distinct (map key_of ps) \<and>
     set (map key_of ps) = policy_set (tables c) \<and> list_all (well_tagged s (tables c)) ps"
  by (rule All_lists [OF assms]) blast

theorem All_lists_policy_set_witness:
  "\<exists>ps c'. All demo_store demo_full = (Inr ps, c') \<and> set (map key_of ps) = key_of ` set demo_policies"
  using All_lists_policy_set [of demo_full demo_store] by (auto simp: demo_store_def)

text \<open>\<open>ByGuids\<close> returns exactly the stored policies whose source is listed or whose destination is
  listed; with the conjunctive flag, the ones that match both lists, where an empty list puts no
  restriction. Two empty lists select nothing.\<close>

theorem ByGuids_selects_policies:
  assumes "conn_ok c" "no_faults c" "driver s = ''mysql'' \<or> driver s = ''postgres''"
  shows "\<exists>ps c'. ByGuids s srcs dsts both c = (Inr ps, c') \<and> same_state c c' \<and> distinct (map key_of ps) \<and>
     set (map key_of ps) =
       (if srcs = [] \<and> dsts = [] then {} else {k \<in> policy_set (tables c). guids_select srcs dsts both k}) \<and>
     list_all (well_tagged s (tables c)) ps"
  by (rule ByGuids_selects [OF assms]) blast

theorem ByGuids_selects_policies_witness:
  "\<exists>ps c'. ByGuids demo_store [''c''] [''b''] True demo_full = (Inr ps, c') \<and>
     set (map key_of ps) = {key_of (demo_policy ''c'' ''b'' 9090)}"
proof -
  have "{k \<in> key_of ` set demo_policies. guids_select [''c''] [''b''] True k} = {key_of (demo_policy ''c'' ''b'' 9090)}"
    by (auto simp: demo_policies_def key_of_def demo_policy_def guids_select_def)
  then show ?thesis
    using ByGuids_selects_policies [of demo_full demo_store "[''c'']" "[''b'']" True] by (auto simp: demo_store_def)
qed

text \<open>The query text that \<open>ByGuids\<close> sends has one placeholder for each bound argument, and the
  arguments are the source guids followed by the destination guids.\<close>

theorem ByGuids_placeholders:
  "marks (query_text (byGuids_query srcs dsts both)) = length (whereBindings srcs dsts) \<and>
   whereBindings srcs dsts = srcs @ dsts"
  unfolding marks_query_text whereBindings_append by (simp add: byGuids_query_def)

text \<open>\<open>Tags\<close> lists the tag assignment, in strictly increasing order of the tag numbers.\<close>

theorem Tags_lists_assignment:
  assumes "conn_ok c" "no_faults c"
  shows "\<exists>ids c'. Tags s c = (Inr (map (\<lambda>(guid, i). \<lparr>tag_ID = guid, tag_Tag = tagIntToString s i\<rparr>) ids), c') \<and>
     same_state c c' \<and> set ids = {(guid, i). group_guid (tables c) i = Some guid} \<and> sorted_wrt (<) (map snd ids)"
proof -
  let ?ids = "map (\<lambda>g. (the (g_guid g), g_id g)) (tag_rows (tables c))"
  have ok: "groups_ok (groups (tables c))" using assms(1) by (simp add: conn_ok_def tables_ok_def)
  show ?thesis
    by (rule Tags_lists [OF assms, of s], rule exI [of _ ?ids])
      (use tag_rows_assignment [OF ok] in \<open>auto simp: comp_def\<close>)
qed

theorem Tags_lists_assignment_witness:
  "\<exists>ids c'. Tags demo_store demo_full = (Inr (map (\<lambda>(guid, i). \<lparr>tag_ID = guid, tag_Tag = tagIntToString demo_store i\<rparr>) ids), c') \<and>
     same_state demo_full c' \<and> set ids = {(guid, i). group_guid (tables demo_full) i = Some guid} \<and> sorted_wrt (<) (map snd ids)"
  by (rule Tags_lists_assignment) simp_all

text \<open>C22. On a database whose tables the migrations left empty, \<open>New\<close> with a tag length from 1 to 3
  creates one blank tag for every number from 1 to 256 to the tag length (exclusive). Every one of
  them prints as exactly two hexadecimal digits per byte, no two alike.\<close>

theorem New_tags_well_formed:
  assumes "New d n mig c = (Inr s, c')" "mig d c = (Inr m, c1)" "tables c1 = \<lparr>groups = [], destinations = [], policies = []\<rparr>"
  shows "tables_ok (tables c') \<and> tables_tidy (tables c') \<and> policy_set (tables c') = {} \<and>
     map g_id (groups (tables c')) = map int [1 ..< 2 ^ (8 * nat n)] \<and> tagLength s = n \<and> 1 \<le> n \<and> n \<le> 3 \<and>
     (\<forall>i \<in> g_id ` set (groups (tables c')). length (tagIntToString s i) = 2 * nat n) \<and>
     inj_on (tagIntToString s) (g_id ` set (groups (tables c')))"
proof -
  have n: "1 \<le> n" "n \<le> 3" using assms(1) by (auto simp: New_def MinTagLength_def MaxTagLength_def split: if_splits)
  then obtain p where p: "populateTables n c1 = (Inr p, c')" and s: "s = \<lparr>tagLength = n, driver = d\<rparr>"
    using assms by (auto simp: New_def MinTagLength_def MaxTagLength_def split: prod.splits sum.splits)
  from p have t: "tables c' = all_blank n"
    by (cases rule: populateTables_cases) (auto simp: assms(3) all_blank_def)
  have ids: "map g_id (groups (tables c')) = map int [1 ..< 2 ^ (8 * nat n)]" unfolding t by (rule all_blank_ids [OF n(1)])
  have range: "0 \<le> i \<and> i < 2 ^ (8 * nat n)" if "i \<in> g_id ` set (groups (tables c'))" for i
    using that arg_cong [OF ids, of set] by auto
  have "inj_on (tagIntToString s) (g_id ` set (groups (tables c')))"
    using range by (intro inj_onI) (simp add: tagIntToString_inj)
  then show ?thesis using range n ids all_blank_ok [of n] s tagIntToString_length [of _ s] by (auto simp: t)
qed

definition empty_conn :: conn where
  "empty_conn = \<lparr>tables = \<lparr>groups = [], destinations = [], policies = []\<rparr>, saved = None, next_id = 1, faults = []\<rparr>"

theorem New_tags_well_formed_witness:
  "\<exists>s c'. New ''mysql'' 1 (\<lambda>_ c. (Inr 3, c)) empty_conn = (Inr s, c') \<and> tables_ok (tables c') \<and>
     map g_id (groups (tables c')) = map int [1 ..< 256]"
proof -
  let ?r = "New ''mysql'' 1 (\<lambda>_ c. (Inr 3, c)) empty_conn"
  let ?s = "\<lparr>tagLength = 1, driver = ''mysql''\<rparr>"
  have run: "?r = (Inr ?s, snd ?r)"
    by (simp add: New_def MinTagLength_def MaxTagLength_def empty_conn_def populateTables_def query_row_def
        take_fault_def exec_def insert_null_groups_def)
  from New_tags_well_formed [OF this, of 3 empty_conn] show ?thesis using run by (force simp: empty_conn_def)
qed


end
