(* ===== verification/Metrics_Wrapper.thy ===== *)
theory Metrics_Wrapper
  imports Policy_Store
begin

text \<open>
  \<^verbatim>\<open>policy-server/store/metrics_wrapper.go\<close>: the store the handlers use, which passes every call on and
  reports its outcome. The metrics sent are a log; the durations themselves are not modelled.
\<close>

datatype metric = IncrementCounter string | SendDuration string

record world =
  db :: conn
  metrics :: "metric list"

definition report :: "string \<Rightarrow> 'a result \<Rightarrow> metric list" where
  "report name r = (case r of
       Inl _ \<Rightarrow> [IncrementCounter (name @ ''Error''), SendDuration (name @ ''ErrorTime'')]
     | Inr _ \<Rightarrow> [SendDuration (name @ ''SuccessTime'')])"

definition metered :: "string \<Rightarrow> (conn \<Rightarrow> 'a result \<times> conn) \<Rightarrow> world \<Rightarrow> 'a result \<times> world" where
  "metered name call w = (case call (db w) of (r, c) \<Rightarrow> (r, w\<lparr>db := c, metrics := metrics w @ report name r\<rparr>))"

definition mw_Create :: "Policy list \<Rightarrow> world \<Rightarrow> unit result \<times> world" where
  "mw_Create ps = metered ''StoreCreate'' (Create ps)"

definition mw_All :: "store \<Rightarrow> world \<Rightarrow> Policy list result \<times> world" where
  "mw_All s = metered ''StoreAll'' (All s)"

definition mw_Delete :: "Policy list \<Rightarrow> world \<Rightarrow> unit result \<times> world" where
  "mw_Delete ps = metered ''StoreDelete'' (Delete ps)"

definition mw_Tags :: "store \<Rightarrow> world \<Rightarrow> Tag list result \<times> world" where
  "mw_Tags s = metered ''StoreTags'' (Tags s)"

definition mw_ByGuids :: "store \<Rightarrow> string list \<Rightarrow> string list \<Rightarrow> bool \<Rightarrow> world \<Rightarrow> Policy list result \<times> world" where
  "mw_ByGuids s srcGuids dstGuids inSourceAndDest =
     metered ''StoreByGuids'' (ByGuids s srcGuids dstGuids inSourceAndDest)"

definition mw_CheckDatabase :: "world \<Rightarrow> unit result \<times> world" where
  "mw_CheckDatabase = metered ''StoreCheckDatabase'' CheckDatabase"

text \<open>The wrapped call computes what the call computes, and logs one duration, plus a counter on an error.\<close>

lemma metered_run: "metered name call w = (r, w') \<longleftrightarrow>
   (\<exists>c. call (db w) = (r, c) \<and> w' = w\<lparr>db := c, metrics := metrics w @ report name r\<rparr>)"
  by (auto simp: metered_def split: prod.splits)

lemmas metered_defs = mw_Create_def mw_All_def mw_Delete_def mw_Tags_def mw_ByGuids_def mw_CheckDatabase_def

end
