(* ===== verification/Data_Store.thy ===== *)
theory Data_Store
  imports Policy_Store_Props Metrics_Wrapper
begin

text \<open>
  The interface \<^verbatim>\<open>dataStore\<close> of \<^verbatim>\<open>policy-server/handlers\<close> as a record of operations, and its contract as a
  locale: the operations act on an abstract set of policies. The contract is discharged for the
  metered policy store.
\<close>

record 's dataStore =
  ds_All :: "'s \<Rightarrow> Policy list result \<times> 's"
  ds_Create :: "Policy list \<Rightarrow> 's \<Rightarrow> unit result \<times> 's"
  ds_Delete :: "Policy list \<Rightarrow> 's \<Rightarrow> unit result \<times> 's"
  ds_Tags :: "'s \<Rightarrow> Tag list result \<times> 's"
  ds_ByGuids :: "string list \<Rightarrow> string list \<Rightarrow> bool \<Rightarrow> 's \<Rightarrow> Policy list result \<times> 's"
  ds_CheckDatabase :: "'s \<Rightarrow> unit result \<times> 's"

definition represents :: "policy_key set \<Rightarrow> Policy list \<Rightarrow> bool" where
  "represents K ps \<longleftrightarrow> distinct (map key_of ps) \<and> set (map key_of ps) = K"

definition guids_query :: "string list \<Rightarrow> string list \<Rightarrow> bool \<Rightarrow> policy_key set \<Rightarrow> policy_key set" where
  "guids_query srcs dsts both K = (if srcs = [] \<and> dsts = [] then {} else {k \<in> K. guids_select srcs dsts both k})"

locale data_store =
  fixes ds :: "'s dataStore" and stored :: "'s \<Rightarrow> policy_key set" and valid :: "'s \<Rightarrow> bool"
  assumes create: "valid s \<Longrightarrow> ds_Create ds ps s = (r, s') \<Longrightarrow> valid s' \<and>
        stored s' = (case r of Inl _ \<Rightarrow> stored s | Inr _ \<Rightarrow> stored s \<union> key_of ` set ps)"
    and delete: "valid s \<Longrightarrow> ds_Delete ds ps s = (r, s') \<Longrightarrow> valid s' \<and>
        stored s' = (case r of Inl _ \<Rightarrow> stored s | Inr _ \<Rightarrow> stored s - key_of ` set ps)"
    and all: "valid s \<Longrightarrow> ds_All ds s = (q, s') \<Longrightarrow> valid s' \<and> stored s' = stored s \<and>
        (\<forall>ps. q = Inr ps \<longrightarrow> represents (stored s) ps)"
    and by_guids: "valid s \<Longrightarrow> ds_ByGuids ds srcs dsts both s = (q, s') \<Longrightarrow> valid s' \<and> stored s' = stored s \<and>
        (\<forall>ps. q = Inr ps \<longrightarrow> represents (guids_query srcs dsts both (stored s)) ps)"
    and tags: "valid s \<Longrightarrow> ds_Tags ds s = (ts, s') \<Longrightarrow> valid s' \<and> stored s' = stored s"
    and check: "valid s \<Longrightarrow> ds_CheckDatabase ds s = (r, s') \<Longrightarrow> valid s' \<and> stored s' = stored s"

subsection \<open>The metered store\<close>

definition metered_store :: "store \<Rightarrow> world dataStore" where
  "metered_store s = \<lparr>ds_All = mw_All s, ds_Create = mw_Create, ds_Delete = mw_Delete, ds_Tags = mw_Tags s,
     ds_ByGuids = mw_ByGuids s, ds_CheckDatabase = mw_CheckDatabase\<rparr>"

definition world_ok :: "world \<Rightarrow> bool" where
  "world_ok w \<longleftrightarrow> conn_ok (db w) \<and> saved (db w) = None"

definition world_policies :: "world \<Rightarrow> policy_key set" where
  "world_policies w = policy_set (tables (db w))"

lemma lists_represents: "lists_keys s t K ps \<Longrightarrow> represents K ps"
  by (simp add: lists_keys_def represents_def)

lemma same_state_world: "same_state c c' \<Longrightarrow> conn_ok c \<Longrightarrow> saved c = None \<Longrightarrow>
    conn_ok c' \<and> saved c' = None \<and> policy_set (tables c') = policy_set (tables c)"
  by (simp add: same_state_def conn_ok_def)

lemma CheckDatabase_conn: "CheckDatabase c = (r, c') \<Longrightarrow> same_state c c'"
  unfolding CheckDatabase_def by (auto elim: query_row_cases)

lemma metered_read:
  assumes "metered name call w = (r, w')" "world_ok w" and "\<And>c r c'. call c = (r, c') \<Longrightarrow> same_state c c'"
  shows "world_ok w' \<and> world_policies w' = world_policies w \<and> call (db w) = (r, db w')"
proof -
  from assms(1) obtain c where c: "call (db w) = (r, c)" "db w' = c" by (auto simp: metered_run)
  from assms(3) [OF c(1)] show ?thesis
    using c assms(2) same_state_world [of "db w" c] by (simp add: world_ok_def world_policies_def)
qed

lemmas metered_store_simps = metered_store_def metered_defs

interpretation metered: data_store "metered_store s" world_policies world_ok for s
proof
  fix w ps r w' assume ok: "world_ok w" and "ds_Create (metered_store s) ps w = (r, w')"
  then show "world_ok w' \<and> world_policies w' = (case r of Inl _ \<Rightarrow> world_policies w | Inr _ \<Rightarrow> world_policies w \<union> key_of ` set ps)"
    using Create_cases [of ps "db w" r "db w'"] aborted_ok [of "db w" "db w'"]
    by (auto simp: metered_store_def metered_defs metered_run world_ok_def world_policies_def kept_def aborted_def)
next
  fix w ps r w' assume ok: "world_ok w" and "ds_Delete (metered_store s) ps w = (r, w')"
  then show "world_ok w' \<and> world_policies w' = (case r of Inl _ \<Rightarrow> world_policies w | Inr _ \<Rightarrow> world_policies w - key_of ` set ps)"
    using Delete_cases [of ps "db w" r "db w'"] aborted_ok [of "db w" "db w'"]
    by (auto simp: metered_store_def metered_defs metered_run world_ok_def world_policies_def kept_def aborted_def)
next
  fix w r w' assume ok: "world_ok w" and run: "ds_All (metered_store s) w = (r, w')"
  have m: "metered ''StoreAll'' (Policy_Store.All s) w = (r, w')" using run by (simp add: metered_store_simps)
  have rd: "world_ok w' \<and> world_policies w' = world_policies w \<and> Policy_Store.All s (db w) = (r, db w')"
    by (rule metered_read [OF m ok]) (rule All_conn)
  have "represents (world_policies w) ps" if "r = Inr ps" for ps
    using All_Inr [of "db w" s ps "db w'"] rd ok that lists_represents by (simp add: world_ok_def world_policies_def)
  then show "world_ok w' \<and> world_policies w' = world_policies w \<and> (\<forall>ps. r = Inr ps \<longrightarrow> represents (world_policies w) ps)"
    using rd by blast
next
  fix w srcs dsts both r w' assume ok: "world_ok w" and run: "ds_ByGuids (metered_store s) srcs dsts both w = (r, w')"
  have m: "metered ''StoreByGuids'' (ByGuids s srcs dsts both) w = (r, w')" using run by (simp add: metered_store_simps)
  have rd: "world_ok w' \<and> world_policies w' = world_policies w \<and> ByGuids s srcs dsts both (db w) = (r, db w')"
    by (rule metered_read [OF m ok]) (rule ByGuids_conn)
  have "represents (guids_query srcs dsts both (world_policies w)) ps" if "r = Inr ps" for ps
    using ByGuids_Inr [of "db w" s srcs dsts both ps "db w'"] rd ok that lists_represents
    by (simp add: world_ok_def world_policies_def guids_query_def)
  then show "world_ok w' \<and> world_policies w' = world_policies w \<and>
      (\<forall>ps. r = Inr ps \<longrightarrow> represents (guids_query srcs dsts both (world_policies w)) ps)" using rd by blast
next
  fix w r w' assume ok: "world_ok w" and run: "ds_Tags (metered_store s) w = (r, w')"
  have "metered ''StoreTags'' (Tags s) w = (r, w')" using run by (simp add: metered_store_simps)
  from metered_read [OF this ok] Tags_conn show "world_ok w' \<and> world_policies w' = world_policies w" by blast
next
  fix w r w' assume ok: "world_ok w" and run: "ds_CheckDatabase (metered_store s) w = (r, w')"
  have "metered ''StoreCheckDatabase'' CheckDatabase w = (r, w')" using run by (simp add: metered_store_simps)
  from metered_read [OF this ok] CheckDatabase_conn show "world_ok w' \<and> world_policies w' = world_policies w" by blast
qed

end
