(* ===== verification/Clients.thy ===== *)
theory Clients
  imports Go_Prelude "HOL-Library.AList"
begin

text \<open>
  \<^verbatim>\<open>policy-server/uaa_client\<close> and \<^verbatim>\<open>policy-server/cc_client\<close>: the clients of the token service (UAA) and
  of the Cloud Controller (CC). The remote services are parameters: \<open>httpDo\<close> answers a UAA request
  with a status and a body whose reading may fail; a function \<open>do\<close> per response type answers a CC
  request with the decoded response or the error of the JSON client.
\<close>

subsection \<open>UAA\<close>

record uaa_request =
  req_URL :: string
  req_Body :: string
  req_User :: string
  req_Password :: string

record http_response =
  resp_StatusCode :: int
  resp_Body :: "string result"

record uaa_Client =
  BaseURL :: string
  Name :: string
  Secret :: string

record CheckTokenResponse =
  Scope :: "string list"
  UserID :: string
  UserName :: string

definition BadUaaResponse_Error :: "int \<Rightarrow> string \<Rightarrow> string" where
  "BadUaaResponse_Error status body = ''bad uaa response: '' @ itoa status @ '': '' @ body"

definition makeRequest ::
    "(uaa_request \<Rightarrow> http_response result) \<Rightarrow> (string \<Rightarrow> 'r result) \<Rightarrow> uaa_request \<Rightarrow> 'r result" where
  "makeRequest httpDo unmarshal request = (case httpDo request of
       Inl e \<Rightarrow> Inl (Errorf ''http client: '' e)
     | Inr resp \<Rightarrow> (case resp_Body resp of
         Inl e \<Rightarrow> Inl (Errorf ''read body: '' e)
       | Inr respBytes \<Rightarrow>
           if resp_StatusCode resp \<noteq> 200 then Inl (BadUaaResponse (resp_StatusCode resp) respBytes)
           else (case unmarshal respBytes of
               Inl e \<Rightarrow> Inl (Errorf ''unmarshal json: '' e)
             | Inr r \<Rightarrow> Inr r)))"

text \<open>
  \<^verbatim>\<open>http.NewRequest\<close> fails on a URL that does not parse and returns no request; its error is not
  looked at, so the next line panics. \<open>url_ok\<close> is the URL parser's verdict.
\<close>

definition uaa_post :: "(string \<Rightarrow> bool) \<Rightarrow> (uaa_request \<Rightarrow> http_response result) \<Rightarrow> (string \<Rightarrow> 'r result) \<Rightarrow>
    uaa_Client \<Rightarrow> string \<Rightarrow> string \<Rightarrow> 'r result" where
  "uaa_post url_ok httpDo unmarshal c reqURL body =
     (if \<not> url_ok reqURL then Inl (Panic ''nil request'')
      else makeRequest httpDo unmarshal
             \<lparr>req_URL = reqURL, req_Body = body, req_User = Name c, req_Password = Secret c\<rparr>)"

definition GetToken :: "(string \<Rightarrow> bool) \<Rightarrow> (uaa_request \<Rightarrow> http_response result) \<Rightarrow> (string \<Rightarrow> string result) \<Rightarrow>
    uaa_Client \<Rightarrow> string result" where
  "GetToken url_ok httpDo unmarshal c =
     uaa_post url_ok httpDo unmarshal c (BaseURL c @ ''/oauth/token'')
       (''client_id='' @ Name c @ ''&grant_type=client_credentials'')"

definition CheckToken :: "(string \<Rightarrow> bool) \<Rightarrow> (uaa_request \<Rightarrow> http_response result) \<Rightarrow>
    (string \<Rightarrow> CheckTokenResponse result) \<Rightarrow> uaa_Client \<Rightarrow> string \<Rightarrow> CheckTokenResponse result" where
  "CheckToken url_ok httpDo unmarshal c token =
     uaa_post url_ok httpDo unmarshal c (BaseURL c @ ''/check_token'') (''token='' @ token)"

subsection \<open>Cloud Controller\<close>

record app_resource =
  app_GUID :: string
  app_SpaceHref :: string

record AppsV3Response =
  TotalPages :: int
  NextHref :: string
  apps :: "app_resource list"

record Space =
  space_Name :: string
  OrgGUID :: string

record space_resource =
  meta_GUID :: string
  entity_Name :: string
  entity_OrgGUID :: string

type_synonym SpacesResponse = "space_resource list"

type_synonym 'r json_do = "string \<Rightarrow> string \<Rightarrow> 'r result"

definition makeAppsV3Request :: "AppsV3Response json_do \<Rightarrow> string \<Rightarrow> string \<Rightarrow> AppsV3Response result" where
  "makeAppsV3Request jsonDo queryParams token =
     (let route = (if queryParams \<noteq> '''' then ''/v3/apps'' @ ''?'' @ queryParams else ''/v3/apps'') in
      case jsonDo route token of Inl e \<Rightarrow> Inl (Errorf ''json client do: '' e) | Inr r \<Rightarrow> Inr r)"

text \<open>
  The pagination loop ends when the service answers a page without a next link; a service that
  links its pages in a circle keeps it running for ever, which is the value \<open>None\<close>.
\<close>

partial_function (option) GetAllAppGUIDs_loop ::
    "AppsV3Response json_do \<Rightarrow> string \<Rightarrow> string \<Rightarrow> string list \<Rightarrow> string list result option" where
  "GetAllAppGUIDs_loop jsonDo token nextPage acc =
     (if nextPage = '''' then Some (Inr acc)
      else (case split_on (CHR ''?'') nextPage of
          _ # queryParams # _ \<Rightarrow>
            (case makeAppsV3Request jsonDo queryParams token of
               Inl e \<Rightarrow> Some (Inl e)
             | Inr response \<Rightarrow>
                 GetAllAppGUIDs_loop jsonDo token (NextHref response) (insert_keys acc (map app_GUID (apps response))))
        | _ \<Rightarrow> Some (Inl (Panic ''index out of range''))))"

definition GetAllAppGUIDs :: "AppsV3Response json_do \<Rightarrow> string \<Rightarrow> string list result option" where
  "GetAllAppGUIDs jsonDo token = GetAllAppGUIDs_loop jsonDo (''bearer '' @ token) ''?'' []"

definition apps_route :: "string list \<Rightarrow> string" where
  "apps_route appGUIDs = ''/v3/apps?'' @
     values_encode (values_add ''per_page'' (itoa (int (length appGUIDs)))
       (values_add ''guids'' (join_with '','' appGUIDs) []))"

definition GetLiveAppGUIDs :: "AppsV3Response json_do \<Rightarrow> string \<Rightarrow> string list \<Rightarrow> string list result" where
  "GetLiveAppGUIDs jsonDo token appGUIDs = (case jsonDo (apps_route appGUIDs) (''bearer '' @ token) of
       Inl e \<Rightarrow> Inl (Errorf ''json client do: '' e)
     | Inr response \<Rightarrow>
         if TotalPages response > 1 then Inl (ErrText ''pagination support not yet implemented'')
         else Inr (insert_keys [] (map app_GUID (apps response))))"

definition GetAppSpaces :: "AppsV3Response json_do \<Rightarrow> string \<Rightarrow> string list \<Rightarrow> (string \<times> string) list result" where
  "GetAppSpaces jsonDo token appGUIDs =
     (if length appGUIDs < 1 then Inr []
      else case jsonDo (apps_route appGUIDs) (''bearer '' @ token) of
          Inl e \<Rightarrow> Inl (Errorf ''json client do: '' e)
        | Inr response \<Rightarrow>
            if TotalPages response > 1 then Inl (ErrText ''pagination support not yet implemented'')
            else Inr (fold (\<lambda>r. AList.update (app_GUID r) (last (split_on (CHR ''/'') (app_SpaceHref r))))
                        (apps response) []))"

definition GetSpaceGUIDs :: "(string list \<Rightarrow> string list) \<Rightarrow> AppsV3Response json_do \<Rightarrow> string \<Rightarrow> string list \<Rightarrow> string list result" where
  "GetSpaceGUIDs rng jsonDo token appGUIDs = (case GetAppSpaces jsonDo token appGUIDs of
       Inl e \<Rightarrow> Inl e
     | Inr mapping \<Rightarrow> Inr (rng (insert_keys [] (map (\<lambda>k. the (map_of mapping k)) (rng (map fst mapping))))))"

definition GetSpace :: "Space json_do \<Rightarrow> string \<Rightarrow> string \<Rightarrow> Space option result" where
  "GetSpace jsonDo token spaceGUID = (case jsonDo (''/v2/spaces/'' @ spaceGUID) (''bearer '' @ token) of
       Inl (HttpResponseCodeError status body) \<Rightarrow>
         if status = 404 then Inr None else Inl (Errorf ''json client do: '' (HttpResponseCodeError status body))
     | Inl e \<Rightarrow> Inl (Errorf ''json client do: '' e)
     | Inr entity \<Rightarrow> Inr (Some \<lparr>space_Name = space_Name entity, OrgGUID = OrgGUID entity\<rparr>))"

definition user_space_route :: "string \<Rightarrow> Space \<Rightarrow> string" where
  "user_space_route userGUID space = ''/v2/spaces?'' @
     values_encode (values_add ''q'' (''organization_guid:'' @ OrgGUID space)
       (values_add ''q'' (''name:'' @ space_Name space)
         (values_add ''q'' (''developer_guid:'' @ userGUID) [])))"

definition GetUserSpace :: "SpacesResponse json_do \<Rightarrow> string \<Rightarrow> string \<Rightarrow> Space \<Rightarrow> Space option result" where
  "GetUserSpace jsonDo token userGUID space = (case jsonDo (user_space_route userGUID space) (''bearer '' @ token) of
       Inl e \<Rightarrow> Inl (Errorf ''json client do: '' e)
     | Inr [] \<Rightarrow> Inr None
     | Inr [r] \<Rightarrow> Inr (Some \<lparr>space_Name = entity_Name r, OrgGUID = entity_OrgGUID r\<rparr>)
     | Inr (_ # _ # _) \<Rightarrow> Inl (ErrText ''found more than one matching space''))"

definition GetUserSpaces :: "SpacesResponse json_do \<Rightarrow> string \<Rightarrow> string \<Rightarrow> string list result" where
  "GetUserSpaces jsonDo token userGUID = (case jsonDo (''/v2/users/'' @ userGUID @ ''/spaces'') (''bearer '' @ token) of
       Inl e \<Rightarrow> Inl (Errorf ''json client do: '' e)
     | Inr rs \<Rightarrow> Inr (insert_keys [] (map meta_GUID rs)))"

subsection \<open>Pagination\<close>

text \<open>\<open>rs\<close> are the pages the service serves from the link \<open>next\<close> on, each linking to the following one.\<close>

fun page_chain :: "AppsV3Response json_do \<Rightarrow> string \<Rightarrow> string \<Rightarrow> AppsV3Response list \<Rightarrow> bool" where
  "page_chain jsonDo token next [] = (next = '''')"
| "page_chain jsonDo token next (r # rs) = (next \<noteq> '''' \<and>
     (case split_on (CHR ''?'') next of
        _ # q # _ \<Rightarrow> makeAppsV3Request jsonDo q token = Inr r | _ \<Rightarrow> False) \<and>
     page_chain jsonDo token (NextHref r) rs)"

lemma GetAllAppGUIDs_loop_chain:
  "page_chain jsonDo token next rs \<Longrightarrow> GetAllAppGUIDs_loop jsonDo token next acc =
     Some (Inr (fold (\<lambda>r acc. insert_keys acc (map app_GUID (apps r))) rs acc))"
  by (induction rs arbitrary: "next" acc) (auto simp: GetAllAppGUIDs_loop.simps split: list.splits)

lemma set_fold_insert_keys:
  "set (fold (\<lambda>r acc. insert_keys acc (f r)) rs acc) = set acc \<union> (\<Union>r \<in> set rs. set (f r))"
  by (induction rs arbitrary: acc) auto

lemma distinct_fold_insert_keys: "distinct acc \<Longrightarrow> distinct (fold (\<lambda>r acc. insert_keys acc (f r)) rs acc)"
  by (induction rs arbitrary: acc) auto

text \<open>A service that never answers a page without a next link keeps the loop running.\<close>

definition endless :: "AppsV3Response json_do \<Rightarrow> string \<Rightarrow> bool" where
  "endless jsonDo token \<longleftrightarrow>
     (\<forall>q. \<exists>r. makeAppsV3Request jsonDo q token = Inr r \<and> CHR ''?'' \<in> set (NextHref r))"

lemma split_two:
  assumes "CHR ''?'' \<in> set s"
  obtains a b ws where "split_on (CHR ''?'') s = a # b # ws"
proof -
  have "2 \<le> length (split_on (CHR ''?'') s)"
    using assms by (simp add: length_split_on Suc_le_eq count_list_0_iff neq0_conv [symmetric])
  then show thesis using that by (metis Suc_le_length_iff numeral_2_eq_2)
qed

lemma endless_loop:
  "GetAllAppGUIDs_loop jsonDo token next acc = Some y \<Longrightarrow> endless jsonDo token \<longrightarrow> CHR ''?'' \<notin> set next"
proof (rule GetAllAppGUIDs_loop.raw_induct [where P = "\<lambda>jsonDo token next acc y. endless jsonDo token \<longrightarrow> CHR ''?'' \<notin> set next"])
  fix loop and jsonDo :: "AppsV3Response json_do" and token "next" :: string and acc y
  assume IH: "\<And>jsonDo token next acc y. loop jsonDo token next acc = Some y \<Longrightarrow> endless jsonDo token \<longrightarrow> CHR ''?'' \<notin> set next"
    and run: "(if next = [] then Some (Inr acc)
        else case split_on CHR ''?'' next of
             [] \<Rightarrow> Some (Inl (Panic ''index out of range''))
             | [x] \<Rightarrow> Some (Inl (Panic ''index out of range''))
             | x # queryParams # xa \<Rightarrow>
                 case makeAppsV3Request jsonDo queryParams token of
                 Inl e \<Rightarrow> Some (Inl e)
                 | Inr response \<Rightarrow> loop jsonDo token (NextHref response)
                      (insert_keys acc (map app_GUID (apps response)))) = Some y"
  show "endless jsonDo token \<longrightarrow> CHR ''?'' \<notin> set next"
  proof (intro impI notI)
    assume circ: "endless jsonDo token" and q: "CHR ''?'' \<in> set next"
    from q obtain a b ws where s: "split_on (CHR ''?'') next = a # b # ws" by (rule split_two)
    from circ obtain r where r: "makeAppsV3Request jsonDo b token = Inr r" "CHR ''?'' \<in> set (NextHref r)"
      unfolding endless_def by blast
    have "next \<noteq> []" using q by auto
    with run s r have "loop jsonDo token (NextHref r) (insert_keys acc (map app_GUID (apps r))) = Some y" by simp
    from IH [OF this] circ r show False by blast
  qed
qed

subsection \<open>Application spaces\<close>

lemma fold_update_spaces:
  "map_of (fold (\<lambda>r. AList.update (k r) (v r)) rs m) = fold (\<lambda>r f. f(k r \<mapsto> v r)) rs (map_of m)"
  by (induction rs arbitrary: m) (simp_all add: update_conv')

lemma fold_map_upd: "fold (\<lambda>r f. f(k r \<mapsto> v r)) rs f a = (case find (\<lambda>r. k r = a) (rev rs) of None \<Rightarrow> f a | Some r \<Rightarrow> Some (v r))"
  by (induction rs arbitrary: f) (auto simp: find_append split: option.splits)


subsection \<open>Properties\<close>

text \<open>C25. \<open>GetAllAppGUIDs\<close> follows the next links: when the service serves a finite chain of pages, it
  returns, and the result is the set of the application guids of all the pages. When the service
  never ends the chain, it does not return.\<close>

theorem GetAllAppGUIDs_collects_pages:
  "(page_chain jsonDo (''bearer '' @ token) ''?'' rs \<longrightarrow>
     (\<exists>guids. GetAllAppGUIDs jsonDo token = Some (Inr guids) \<and> distinct guids \<and>
        set guids = (\<Union>r \<in> set rs. app_GUID ` set (apps r)))) \<and>
   (endless jsonDo (''bearer '' @ token) \<longrightarrow> GetAllAppGUIDs jsonDo token = None)"
proof (intro conjI impI)
  assume "page_chain jsonDo (''bearer '' @ token) ''?'' rs"
  then show "\<exists>guids. GetAllAppGUIDs jsonDo token = Some (Inr guids) \<and> distinct guids \<and>
        set guids = (\<Union>r \<in> set rs. app_GUID ` set (apps r))"
    by (auto simp: GetAllAppGUIDs_def GetAllAppGUIDs_loop_chain set_fold_insert_keys
        intro!: distinct_fold_insert_keys)
next
  assume "endless jsonDo (''bearer '' @ token)"
  then show "GetAllAppGUIDs jsonDo token = None"
    unfolding GetAllAppGUIDs_def using endless_loop by (metis list.set_intros(1) not_Some_eq)
qed

definition two_pages :: "AppsV3Response json_do" where
  "two_pages route token =
     (if route = ''/v3/apps''
      then Inr \<lparr>TotalPages = 2, NextHref = ''/v3/apps?page=2'', apps = [\<lparr>app_GUID = ''a'', app_SpaceHref = ''''\<rparr>]\<rparr>
      else if route = ''/v3/apps?page=2''
      then Inr \<lparr>TotalPages = 2, NextHref = '''', apps = [\<lparr>app_GUID = ''b'', app_SpaceHref = ''''\<rparr>]\<rparr>
      else Inl (HttpResponseCodeError 404 ''''))"

theorem GetAllAppGUIDs_collects_pages_witness:
  "\<exists>guids. GetAllAppGUIDs two_pages ''t'' = Some (Inr guids) \<and> set guids = {''a'', ''b''}"
proof -
  let ?p = "projr (two_pages ''/v3/apps'' '''')" and ?q = "projr (two_pages ''/v3/apps?page=2'' '''')"
  have "page_chain two_pages (''bearer '' @ ''t'') ''?'' [?p, ?q]" by code_simp
  with GetAllAppGUIDs_collects_pages [of two_pages "''t''" "[?p, ?q]"] show ?thesis
    by (auto simp: two_pages_def)
qed

text \<open>\<open>GetAppSpaces\<close> answers, on a single page, the space of exactly the applications the service
  knows: the last path element of the space link of the application's last entry. Applications the
  service does not list are left out without an error.\<close>

theorem GetAppSpaces_known_apps:
  assumes "GetAppSpaces jsonDo token guids = Inr m" "guids \<noteq> []"
  shows "\<exists>r. jsonDo (apps_route guids) (''bearer '' @ token) = Inr r \<and> TotalPages r \<le> 1 \<and>
     (\<forall>a. map_of m a = map_option (\<lambda>x. last (split_on (CHR ''/'') (app_SpaceHref x)))
                         (find (\<lambda>x. app_GUID x = a) (rev (apps r))))"
  using assms by (auto simp: GetAppSpaces_def fold_update_spaces fold_map_upd split: sum.splits if_splits option.splits)

theorem GetAppSpaces_known_apps_witness:
  "let jsonDo = (\<lambda>_ _. Inr \<lparr>TotalPages = 1, NextHref = '''', apps = [\<lparr>app_GUID = ''a'', app_SpaceHref = ''/v3/spaces/s1''\<rparr>]\<rparr>) in
     \<exists>m. GetAppSpaces jsonDo ''t'' [''a'', ''b''] = Inr m \<and> map_of m ''a'' = Some ''s1'' \<and> map_of m ''b'' = None"
proof -
  let ?do = "(\<lambda>_ _. Inr \<lparr>TotalPages = 1, NextHref = '''', apps = [\<lparr>app_GUID = ''a'', app_SpaceHref = ''/v3/spaces/s1''\<rparr>]\<rparr>) :: AppsV3Response json_do"
  have "GetAppSpaces ?do ''t'' [''a'', ''b''] = Inr [(''a'', ''s1'')]" by (simp add: GetAppSpaces_def)
  with GetAppSpaces_known_apps [OF this] show ?thesis by auto
qed


end
