(* ===== verification/Guards.thy ===== *)
theory Guards
  imports Data_Store Clients
begin

text \<open>
  \<^verbatim>\<open>policy_guard.go\<close>, \<^verbatim>\<open>quota_guard.go\<close> and \<^verbatim>\<open>policy_filter.go\<close> of \<^verbatim>\<open>policy-server/handlers\<close>: which policies a
  user may create or see. The UAA and CC clients are records of functions; \<open>rng\<close> is the iteration
  order of Go maps.
\<close>

record ccClient =
  cc_GetAppSpaces :: "string \<Rightarrow> string list \<Rightarrow> (string \<times> string) list result"
  cc_GetSpace :: "string \<Rightarrow> string \<Rightarrow> Space option result"
  cc_GetSpaceGUIDs :: "string \<Rightarrow> string list \<Rightarrow> string list result"
  cc_GetUserSpace :: "string \<Rightarrow> string \<Rightarrow> Space \<Rightarrow> Space option result"
  cc_GetUserSpaces :: "string \<Rightarrow> string \<Rightarrow> string list result"

record uaaClient =
  uaa_GetToken :: "string result"
  uaa_CheckToken :: "string \<Rightarrow> CheckTokenResponse result"

fun isNetworkAdmin :: "string list \<Rightarrow> bool" where
  "isNetworkAdmin [] = False"
| "isNetworkAdmin (scope # scopes) = (if scope = ''network.admin'' then True else isNetworkAdmin scopes)"

fun isNetworkWrite :: "string list \<Rightarrow> bool" where
  "isNetworkWrite [] = False"
| "isNetworkWrite (scope # scopes) = (if scope = ''network.write'' then True else isNetworkWrite scopes)"

lemma isNetworkAdmin_iff [simp]: "isNetworkAdmin scopes \<longleftrightarrow> ''network.admin'' \<in> set scopes"
  by (induction scopes) auto

lemma isNetworkWrite_iff [simp]: "isNetworkWrite scopes \<longleftrightarrow> ''network.write'' \<in> set scopes"
  by (induction scopes) auto

type_synonym range = "string list \<Rightarrow> string list"

definition uniqueAppGUIDs :: "range \<Rightarrow> Policy list \<Rightarrow> string list" where
  "uniqueAppGUIDs rng ps =
     rng (insert_keys [] (concat (map (\<lambda>p. [src_ID (pol_Source p), dst_ID (pol_Destination p)]) ps)))"

subsection \<open>PolicyGuard\<close>

fun check_spaces :: "ccClient \<Rightarrow> string \<Rightarrow> string \<Rightarrow> string list \<Rightarrow> bool result" where
  "check_spaces cc token userID [] = Inr True"
| "check_spaces cc token userID (guid # guids) = (case cc_GetSpace cc token guid of
       Inl e \<Rightarrow> Inl (Errorf (''getting space with guid '' @ guid @ '': '') e)
     | Inr None \<Rightarrow> Inr False
     | Inr (Some space) \<Rightarrow> (case cc_GetUserSpace cc token userID space of
         Inl e \<Rightarrow> Inl (Errorf (''getting space with guid '' @ guid @ '': '') e)
       | Inr None \<Rightarrow> Inr False
       | Inr (Some _) \<Rightarrow> check_spaces cc token userID guids))"

definition PolicyGuard_CheckAccess ::
    "range \<Rightarrow> ccClient \<Rightarrow> uaaClient \<Rightarrow> Policy list \<Rightarrow> CheckTokenResponse \<Rightarrow> bool result" where
  "PolicyGuard_CheckAccess rng cc uaa ps userToken =
     (if isNetworkAdmin (Scope userToken) then Inr True
      else case uaa_GetToken uaa of
          Inl e \<Rightarrow> Inl (Errorf ''getting token: '' e)
        | Inr token \<Rightarrow> (case cc_GetSpaceGUIDs cc token (uniqueAppGUIDs rng ps) of
            Inl e \<Rightarrow> Inl (Errorf ''getting space guids: '' e)
          | Inr spaceGUIDs \<Rightarrow> check_spaces cc token (UserID userToken) spaceGUIDs))"

subsection \<open>QuotaGuard\<close>

text \<open>A Go map from strings to ints answers 0 for a key it does not hold.\<close>

definition sourceCounts :: "Policy list \<Rightarrow> string list \<Rightarrow> string \<Rightarrow> int" where
  "sourceCounts ps knownAppGuids =
     fold (\<lambda>p m. m(src_ID (pol_Source p) := m (src_ID (pol_Source p)) + 1)) ps
       (fold (\<lambda>g m. m(g := 0)) knownAppGuids (\<lambda>_. 0))"

fun within_quota :: "int \<Rightarrow> (string \<Rightarrow> int) \<Rightarrow> (string \<Rightarrow> int) \<Rightarrow> string list \<Rightarrow> bool" where
  "within_quota maxPolicies current toAdd [] = True"
| "within_quota maxPolicies current toAdd (g # gs) =
     (if current g + toAdd g > maxPolicies then False else within_quota maxPolicies current toAdd gs)"

definition QuotaGuard_CheckAccess ::
    "range \<Rightarrow> 's dataStore \<Rightarrow> int \<Rightarrow> Policy list \<Rightarrow> CheckTokenResponse \<Rightarrow> 's \<Rightarrow> bool result \<times> 's" where
  "QuotaGuard_CheckAccess rng ds maxPolicies ps userToken s =
     (if isNetworkAdmin (Scope userToken) then (Inr True, s)
      else let appGuids = uniqueAppGUIDs rng ps;
               toAdd = sourceCounts ps appGuids in
        case ds_ByGuids ds appGuids [] False s of
          (Inl e, s) \<Rightarrow> (Inl (Errorf ''getting policies: '' e), s)
        | (Inr sourcePolicies, s) \<Rightarrow>
            (Inr (within_quota maxPolicies (sourceCounts sourcePolicies appGuids) toAdd appGuids), s))"

subsection \<open>PolicyFilter\<close>

definition flatten :: "(string \<times> string) list list \<Rightarrow> (string \<times> string) list" where
  "flatten ms = fold (\<lambda>m ret. fold (\<lambda>(k, v). AList.update k v) m ret) ms []"

definition getChunks :: "string list \<Rightarrow> int \<Rightarrow> string list list" where
  "getChunks appGuids chunkSize = chunk_loop (nat (if chunkSize < 1 then 100 else chunkSize)) appGuids 0"

definition space_of :: "(string \<times> string) list \<Rightarrow> string \<Rightarrow> string" where
  "space_of appSpaces app = (case map_of appSpaces app of None \<Rightarrow> '''' | Some s \<Rightarrow> s)"

definition filter_policies :: "Policy list \<Rightarrow> (string \<times> string) list \<Rightarrow> string list \<Rightarrow> Policy list" where
  "filter_policies ps appSpaces userSpaces =
     filter (\<lambda>p. space_of appSpaces (src_ID (pol_Source p)) \<in> set userSpaces \<and>
                 space_of appSpaces (dst_ID (pol_Destination p)) \<in> set userSpaces) ps"

fun app_spaces_list ::
    "ccClient \<Rightarrow> string \<Rightarrow> string list list \<Rightarrow> (string \<times> string) list list result" where
  "app_spaces_list cc token [] = Inr []"
| "app_spaces_list cc token (chunk # chunks) = (case cc_GetAppSpaces cc token chunk of
       Inl e \<Rightarrow> Inl (Errorf ''getting app spaces: '' e)
     | Inr spaces \<Rightarrow> (case app_spaces_list cc token chunks of Inl e \<Rightarrow> Inl e | Inr ms \<Rightarrow> Inr (spaces # ms)))"

definition FilterPolicies ::
    "range \<Rightarrow> ccClient \<Rightarrow> uaaClient \<Rightarrow> int \<Rightarrow> Policy list \<Rightarrow> CheckTokenResponse \<Rightarrow> Policy list result" where
  "FilterPolicies rng cc uaa chunkSize ps userToken =
     (if isNetworkAdmin (Scope userToken) then Inr ps
      else case uaa_GetToken uaa of
          Inl e \<Rightarrow> Inl (Errorf ''getting token: '' e)
        | Inr token \<Rightarrow> (case app_spaces_list cc token (getChunks (uniqueAppGUIDs rng ps) chunkSize) of
            Inl e \<Rightarrow> Inl e
          | Inr appSpacesList \<Rightarrow> (case cc_GetUserSpaces cc token (UserID userToken) of
              Inl e \<Rightarrow> Inl (Errorf ''getting user spaces: '' e)
            | Inr userSpaces \<Rightarrow> Inr (filter_policies ps (flatten appSpacesList) userSpaces))))"

subsection \<open>Lemmas\<close>

lemma set_uniqueAppGUIDs: "is_range rng \<Longrightarrow> set (uniqueAppGUIDs rng ps) = (\<Union>p \<in> set ps. guids_of p)"
  by (auto simp: uniqueAppGUIDs_def is_range_set guids_of_def)

lemma distinct_uniqueAppGUIDs: "is_range rng \<Longrightarrow> distinct (uniqueAppGUIDs rng ps)"
  by (simp add: uniqueAppGUIDs_def is_range_distinct)

lemma fold_zero: "fold (\<lambda>g m. m(g := 0)) gs (\<lambda>_. 0 :: int) = (\<lambda>_. 0)"
  by (induction gs) (simp_all add: fun_upd_idem)

lemma sourceCounts_eq: "sourceCounts ps gs g = int (length (filter (\<lambda>p. src_ID (pol_Source p) = g) ps))"
proof -
  have "fold (\<lambda>p m. m(src_ID (pol_Source p) := m (src_ID (pol_Source p)) + 1)) ps m g =
      m g + int (length (filter (\<lambda>p. src_ID (pol_Source p) = g) ps))" for m
    by (induction ps arbitrary: m) auto
  then show ?thesis by (simp add: sourceCounts_def fold_zero)
qed

lemma within_quota_iff: "within_quota mx cur add gs \<longleftrightarrow> (\<forall>g \<in> set gs. cur g + add g \<le> mx)"
  by (induction gs) auto

lemma check_spaces_True:
  "check_spaces cc token user guids = Inr True \<longleftrightarrow>
     (\<forall>g \<in> set guids. \<exists>sp us. cc_GetSpace cc token g = Inr (Some sp) \<and> cc_GetUserSpace cc token user sp = Inr (Some us))"
  by (induction guids) (auto split: sum.splits option.splits)

lemma app_spaces_list_Inr:
  "app_spaces_list cc token chunks = Inr ms \<longleftrightarrow>
     map (cc_GetAppSpaces cc token) chunks = map Inr ms"
proof (induction chunks arbitrary: ms)
  case Nil
  then show ?case by auto
next
  case (Cons c cs)
  show ?case
  proof (cases "app_spaces_list cc token cs")
    case (Inl e)
    then have "map (cc_GetAppSpaces cc token) cs \<noteq> map Inr ms'" for ms' using Cons.IH [of ms'] by auto
    then show ?thesis using Inl by (cases ms) (auto split: sum.splits)
  next
    case (Inr ms')
    then show ?thesis using Cons.IH [of ms'] by (cases ms) (auto split: sum.splits)
  qed
qed

definition upd_all :: "('k \<times> 'v) list \<Rightarrow> ('k \<Rightarrow> 'v option) \<Rightarrow> 'k \<Rightarrow> 'v option" where
  "upd_all m f = fold (\<lambda>(k, v) f. f(k \<mapsto> v)) m f"

lemma map_of_flatten: "map_of (flatten ms) = fold upd_all ms Map.empty"
proof -
  have one: "map_of (fold (\<lambda>(k, v). AList.update k v) m r) = upd_all m (map_of r)" for m r
    unfolding upd_all_def by (induction m arbitrary: r) (auto simp: update_conv')
  have "map_of (fold (\<lambda>m ret. fold (\<lambda>(k, v). AList.update k v) m ret) ms r) = fold upd_all ms (map_of r)" for r
    by (induction ms arbitrary: r) (simp_all add: one)
  then show ?thesis by (simp add: flatten_def)
qed

text \<open>The Cloud Controller as the code relies on it: \<open>sp\<close> assigns each application it knows its space.\<close>

definition cc_serves :: "ccClient \<Rightarrow> string \<Rightarrow> (string \<Rightarrow> string option) \<Rightarrow> bool" where
  "cc_serves cc token sp \<longleftrightarrow>
     (\<forall>guids. \<exists>m. cc_GetAppSpaces cc token guids = Inr m \<and> distinct (map fst m) \<and>
        (\<forall>a. map_of m a = (if a \<in> set guids then sp a else None)))"

lemma upd_all_distinct:
  "distinct (map fst m) \<Longrightarrow> upd_all m f a = (case map_of m a of None \<Rightarrow> f a | Some v \<Rightarrow> Some v)"
  unfolding upd_all_def
proof (induction m arbitrary: f)
  case (Cons x m)
  obtain k v where x: "x = (k, v)" by fastforce
  have "k \<notin> dom (map_of m)" using Cons.prems x by (simp add: dom_map_of_conv_image_fst)
  then show ?case using Cons x by (auto split: option.splits)
qed simp

lemma flatten_served:
  assumes "cc_serves cc token sp" "map (cc_GetAppSpaces cc token) chunks = map Inr ms"
  shows "map_of (flatten ms) a = (if a \<in> set (concat chunks) then sp a else None)"
proof -
  have "fold upd_all ms f a = (if a \<in> set (concat chunks) \<and> sp a \<noteq> None then sp a else f a)" for f
    using assms(2)
  proof (induction chunks arbitrary: ms f)
    case (Cons c cs)
    then obtain m ms' where ms: "ms = m # ms'" "cc_GetAppSpaces cc token c = Inr m"
      "map (cc_GetAppSpaces cc token) cs = map Inr ms'" by (auto simp: map_eq_Cons_conv)
    from assms(1) ms(2) have "distinct (map fst m)" "map_of m a = (if a \<in> set c then sp a else None)"
      unfolding cc_serves_def by (metis Inr_inject)+
    then show ?case using Cons.IH [OF ms(3)] ms(1) by (auto simp: upd_all_distinct split: option.splits)
  qed simp
  then show ?thesis by (auto simp: map_of_flatten)
qed

lemma getChunks_concat: "concat (getChunks gs n) = gs"
  by (simp add: getChunks_def concat_chunk_loop)

lemma app_spaces_served:
  assumes "cc_serves cc token sp"
  obtains ms where "app_spaces_list cc token chunks = Inr ms" "map (cc_GetAppSpaces cc token) chunks = map Inr ms"
proof -
  have "\<forall>c. \<exists>m. cc_GetAppSpaces cc token c = Inr m" using assms unfolding cc_serves_def by blast
  then have "map (cc_GetAppSpaces cc token) chunks = map Inr (map (\<lambda>c. projr (cc_GetAppSpaces cc token c)) chunks)"
    by (auto) (metis sum.sel(2))
  then show thesis using that app_spaces_list_Inr by blast
qed

subsection \<open>Properties\<close>

text \<open>C20. \<open>FilterPolicies\<close> shows a user without the admin scope exactly the policies whose two
  applications lie in spaces of the user, in the order of the store and whatever the chunk size:
  splitting the look-up of the spaces into requests of bounded size does not change the answer.\<close>

theorem FilterPolicies_visible:
  assumes "is_range rng" "uaa_GetToken uaa = Inr token" "cc_serves cc token sp"
    and "cc_GetUserSpaces cc token (UserID u) = Inr userSpaces" "''network.admin'' \<notin> set (Scope u)"
    and "'''' \<notin> set userSpaces"
  shows "FilterPolicies rng cc uaa chunkSize ps u =
     Inr (filter (\<lambda>p. \<exists>a b. sp (src_ID (pol_Source p)) = Some a \<and> sp (dst_ID (pol_Destination p)) = Some b \<and>
        a \<in> set userSpaces \<and> b \<in> set userSpaces) ps)"
proof -
  let ?guids = "uniqueAppGUIDs rng ps"
  obtain ms where ms: "app_spaces_list cc token (getChunks ?guids chunkSize) = Inr ms"
    "map (cc_GetAppSpaces cc token) (getChunks ?guids chunkSize) = map Inr ms"
    using app_spaces_served [OF assms(3)] by blast
  have "space_of (flatten ms) a \<in> set userSpaces \<longleftrightarrow> (\<exists>x. sp a = Some x \<and> x \<in> set userSpaces)"
    if "a \<in> set ?guids" for a
    using flatten_served [OF assms(3) ms(2), of a] that assms(6)
    by (auto simp: space_of_def getChunks_concat split: option.splits)
  note known = this
  have "filter_policies ps (flatten ms) userSpaces =
      filter (\<lambda>p. \<exists>a b. sp (src_ID (pol_Source p)) = Some a \<and> sp (dst_ID (pol_Destination p)) = Some b \<and>
        a \<in> set userSpaces \<and> b \<in> set userSpaces) ps"
    unfolding filter_policies_def
  proof (rule filter_cong [OF refl])
    fix p assume "p \<in> set ps"
    then have "src_ID (pol_Source p) \<in> set ?guids" "dst_ID (pol_Destination p) \<in> set ?guids"
      using set_uniqueAppGUIDs [OF assms(1), of ps] by (auto simp: guids_of_def)
    from this [THEN known] show "(space_of (flatten ms) (src_ID (pol_Source p)) \<in> set userSpaces \<and>
        space_of (flatten ms) (dst_ID (pol_Destination p)) \<in> set userSpaces) =
      (\<exists>a b. sp (src_ID (pol_Source p)) = Some a \<and> sp (dst_ID (pol_Destination p)) = Some b \<and>
        a \<in> set userSpaces \<and> b \<in> set userSpaces)" by blast
  qed
  with ms(1) assms show ?thesis by (simp add: FilterPolicies_def)
qed

definition demo_cc :: ccClient where
  "demo_cc = \<lparr>cc_GetAppSpaces = (\<lambda>_ guids. Inr (if ''a'' \<in> set guids then [(''a'', ''s'')] else [])),
     cc_GetSpace = (\<lambda>_ _. Inr None), cc_GetSpaceGUIDs = (\<lambda>_ _. Inr [''s'']),
     cc_GetUserSpace = (\<lambda>_ _ _. Inr None), cc_GetUserSpaces = (\<lambda>_ _. Inr [''s''])\<rparr>"

definition demo_uaa :: uaaClient where
  "demo_uaa = \<lparr>uaa_GetToken = Inr ''t'', uaa_CheckToken = (\<lambda>_. Inr \<lparr>Scope = [''network.write''], UserID = ''u'', UserName = ''n''\<rparr>)\<rparr>"

definition demo_user :: CheckTokenResponse where
  "demo_user = \<lparr>Scope = [''network.write''], UserID = ''u'', UserName = ''n''\<rparr>"

theorem FilterPolicies_visible_witness:
  "FilterPolicies rev demo_cc demo_uaa 1 [demo_policy ''a'' ''a'' 80, demo_policy ''a'' ''b'' 80] demo_user =
     Inr [demo_policy ''a'' ''a'' 80]"
proof -
  have "cc_serves demo_cc ''t'' [''a'' \<mapsto> ''s'']" by (auto simp: cc_serves_def demo_cc_def)
  then show ?thesis
    by (subst FilterPolicies_visible [where token = "''t''" and userSpaces = "[''s'']" and sp = "[''a'' \<mapsto> ''s'']"])
      (simp_all add: demo_uaa_def demo_user_def demo_cc_def demo_policy_def)
qed

text \<open>C21. \<open>PolicyGuard.CheckAccess\<close> grants access to a user without the admin scope only if every space
  that the Cloud Controller lists for the applications exists and has the user as a developer.\<close>

theorem PolicyGuard_grants:
  assumes "''network.admin'' \<notin> set (Scope u)"
  shows "PolicyGuard_CheckAccess rng cc uaa ps u = Inr True \<longleftrightarrow>
     (\<exists>token spaces. uaa_GetToken uaa = Inr token \<and> cc_GetSpaceGUIDs cc token (uniqueAppGUIDs rng ps) = Inr spaces \<and>
        (\<forall>g \<in> set spaces. \<exists>sp us. cc_GetSpace cc token g = Inr (Some sp) \<and>
           cc_GetUserSpace cc token (UserID u) sp = Inr (Some us)))"
  using assms by (auto simp: PolicyGuard_CheckAccess_def check_spaces_True split: sum.splits)

theorem PolicyGuard_grants_witness:
  "PolicyGuard_CheckAccess rev demo_cc demo_uaa [demo_policy ''a'' ''b'' 80] demo_user \<noteq> Inr True"
proof -
  have "''network.admin'' \<notin> set (Scope demo_user)" by (simp add: demo_user_def)
  from PolicyGuard_grants [OF this] show ?thesis by (simp add: demo_cc_def demo_uaa_def)
qed


context data_store
begin

lemma QuotaGuard_keeps:
  "valid s \<Longrightarrow> QuotaGuard_CheckAccess rng ds mx ps u s = (r, s') \<Longrightarrow> valid s' \<and> stored s' = stored s"
  using by_guids by (auto simp: QuotaGuard_CheckAccess_def Let_def split: if_splits prod.splits sum.splits)

lemma represents_count:
  "represents K ps \<Longrightarrow> card {k \<in> K. k_src k = g} = length (filter (\<lambda>p. src_ID (pol_Source p) = g) ps)"
proof -
  assume r: "represents K ps"
  let ?qs = "filter (\<lambda>p. src_ID (pol_Source p) = g) ps"
  have "{k \<in> K. k_src k = g} = set (map key_of ?qs)" using r by (auto simp: represents_def key_of_def)
  moreover have "distinct (map key_of ?qs)" using r by (simp add: represents_def distinct_map_filter)
  ultimately show ?thesis by (metis distinct_card length_map)
qed

text \<open>
  The quota: when the guard grants access to a user without the admin scope, adding the policies
  leaves every application named in them with at most \<open>mx\<close> policies as a source.
\<close>

lemma QuotaGuard_bound:
  assumes "valid s" "QuotaGuard_CheckAccess rng ds mx ps u s = (Inr True, s')" "is_range rng"
    and "''network.admin'' \<notin> set (Scope u)" and g: "g \<in> (\<Union>p \<in> set ps. guids_of p)"
  shows "int (card {k \<in> stored s \<union> key_of ` set ps. k_src k = g}) \<le> mx"
proof -
  let ?guids = "uniqueAppGUIDs rng ps"
  have gs: "g \<in> set ?guids" using g set_uniqueAppGUIDs [OF assms(3)] by blast
  from assms(2,4) obtain cur where cur: "ds_ByGuids ds ?guids [] False s = (Inr cur, s')"
    and quota: "within_quota mx (sourceCounts cur ?guids) (sourceCounts ps ?guids) ?guids"
    by (auto simp: QuotaGuard_CheckAccess_def Let_def split: prod.splits sum.splits)
  have rep: "represents (guids_query ?guids [] False (stored s)) cur" using by_guids [OF assms(1) cur] by blast
  have "finite (guids_query ?guids [] False (stored s))" using rep unfolding represents_def by (metis List.finite_set)
  then have fin: "finite {k \<in> guids_query ?guids [] False (stored s). k_src k = g}" by simp
  have "{k \<in> guids_query ?guids [] False (stored s). k_src k = g} = {k \<in> stored s. k_src k = g}"
    using gs by (auto simp: guids_query_def guids_select_def)
  then have old: "card {k \<in> stored s. k_src k = g} = length (filter (\<lambda>p. src_ID (pol_Source p) = g) cur)"
    "finite {k \<in> stored s. k_src k = g}"
    using represents_count [OF rep, of g] fin by simp_all
  have "{k \<in> stored s \<union> key_of ` set ps. k_src k = g} =
      {k \<in> stored s. k_src k = g} \<union> key_of ` set (filter (\<lambda>p. src_ID (pol_Source p) = g) ps)"
    by (auto simp: key_of_def)
  then have "card {k \<in> stored s \<union> key_of ` set ps. k_src k = g} \<le>
      card {k \<in> stored s. k_src k = g} + card (key_of ` set (filter (\<lambda>p. src_ID (pol_Source p) = g) ps))"
    by (simp add: card_Un_le)
  also have "card (key_of ` set (filter (\<lambda>p. src_ID (pol_Source p) = g) ps)) \<le>
      length (filter (\<lambda>p. src_ID (pol_Source p) = g) ps)"
    by (metis card_image_le card_length List.finite_set le_trans)
  finally show ?thesis using quota gs old by (simp add: within_quota_iff sourceCounts_eq) fastforce
qed

end


end
