(* ===== verification/Policy_Cleaner.thy ===== *)
theory Policy_Cleaner
  imports Guards
begin

text \<open>
  \<^verbatim>\<open>policy-server/cleaner/policy_cleaner.go\<close>: deletes the policies of applications that the Cloud
  Controller no longer knows, one chunk of application guids at a time.
\<close>

definition getStaleAppGUIDs :: "string list \<Rightarrow> string list \<Rightarrow> string list" where
  "getStaleAppGUIDs liveAppGUIDs appGUIDs = insert_keys [] (filter (\<lambda>g. g \<notin> set liveAppGUIDs) appGUIDs)"

definition getStalePolicies :: "Policy list \<Rightarrow> string list \<Rightarrow> Policy list" where
  "getStalePolicies policyList staleAppGUIDs =
     filter (\<lambda>p. src_ID (pol_Source p) \<in> set staleAppGUIDs \<or> dst_ID (pol_Destination p) \<in> set staleAppGUIDs) policyList"

definition policyAppGUIDs :: "range \<Rightarrow> Policy list \<Rightarrow> string list" where
  "policyAppGUIDs rng policyList =
     rng (insert_keys [] (concat (map (\<lambda>p. [src_ID (pol_Source p), dst_ID (pol_Destination p)]) policyList)))"

definition cleaner_getChunks :: "string list \<Rightarrow> int \<Rightarrow> string list list" where
  "cleaner_getChunks appGuids chunkSize = chunk_loop (nat (if chunkSize < 1 then 100 else chunkSize)) appGuids 0"

fun delete_stale_chunks :: "(string \<Rightarrow> string list \<Rightarrow> string list result) \<Rightarrow> 's dataStore \<Rightarrow> string \<Rightarrow> Policy list \<Rightarrow>
    string list list \<Rightarrow> Policy list \<Rightarrow> 's \<Rightarrow> Policy list result \<times> 's" where
  "delete_stale_chunks getLive ds token ps [] stalePolicies s = (Inr stalePolicies, s)"
| "delete_stale_chunks getLive ds token ps (chunk # chunks) stalePolicies s = (case getLive token chunk of
       Inl e \<Rightarrow> (Inl (Errorf ''get app guids from Cloud-Controller failed: '' e), s)
     | Inr liveAppGUIDs \<Rightarrow>
         (let toDelete = getStalePolicies ps (getStaleAppGUIDs liveAppGUIDs chunk) in
          case ds_Delete ds toDelete s of
            (Inl e, s) \<Rightarrow> (Inl (Errorf ''database write failed: '' e), s)
          | (Inr _, s) \<Rightarrow> delete_stale_chunks getLive ds token ps chunks (stalePolicies @ toDelete) s))"

definition DeleteStalePolicies :: "range \<Rightarrow> string result \<Rightarrow> (string \<Rightarrow> string list \<Rightarrow> string list result) \<Rightarrow> int \<Rightarrow>
    's dataStore \<Rightarrow> 's \<Rightarrow> Policy list result \<times> 's" where
  "DeleteStalePolicies rng getToken getLive chunkSize ds s = (case ds_All ds s of
       (Inl e, s) \<Rightarrow> (Inl (Errorf ''database read failed: '' e), s)
     | (Inr ps, s) \<Rightarrow> (case getToken of
         Inl e \<Rightarrow> (Inl (Errorf ''get UAA token failed: '' e), s)
       | Inr token \<Rightarrow>
           delete_stale_chunks getLive ds token ps (cleaner_getChunks (policyAppGUIDs rng ps) chunkSize) [] s))"

definition DeleteStalePoliciesWrapper :: "range \<Rightarrow> string result \<Rightarrow> (string \<Rightarrow> string list \<Rightarrow> string list result) \<Rightarrow> int \<Rightarrow>
    's dataStore \<Rightarrow> 's \<Rightarrow> unit result \<times> 's" where
  "DeleteStalePoliciesWrapper rng getToken getLive chunkSize ds s =
     (case DeleteStalePolicies rng getToken getLive chunkSize ds s of
        (Inl e, s) \<Rightarrow> (Inl e, s) | (Inr _, s) \<Rightarrow> (Inr (), s))"

subsection \<open>Lemmas\<close>

text \<open>The Cloud Controller as the code relies on it: of the guids asked for it answers the live ones.\<close>

definition reports_live :: "(string \<Rightarrow> string list \<Rightarrow> string list result) \<Rightarrow> string \<Rightarrow> string set \<Rightarrow> bool" where
  "reports_live getLive token live \<longleftrightarrow>
     (\<forall>guids ls. getLive token guids = Inr ls \<longrightarrow> set ls \<inter> set guids = live \<inter> set guids)"

definition touches :: "string set \<Rightarrow> policy_key \<Rightarrow> bool" where
  "touches A k \<longleftrightarrow> k_src k \<in> A \<or> k_dst k \<in> A"

lemma stale_keys:
  assumes "reports_live getLive token live" "getLive token chunk = Inr ls"
  shows "key_of ` set (getStalePolicies ps (getStaleAppGUIDs ls chunk)) =
     {k \<in> key_of ` set ps. touches (set chunk - live) k}"
proof -
  have "set ls \<inter> set chunk = live \<inter> set chunk" using assms unfolding reports_live_def by blast
  moreover have "set (getStaleAppGUIDs ls chunk) = set chunk - set ls" by (auto simp: getStaleAppGUIDs_def)
  ultimately have "set (getStaleAppGUIDs ls chunk) = set chunk - live" by blast
  then have "set (getStalePolicies ps (getStaleAppGUIDs ls chunk)) = {p \<in> set ps. touches (set chunk - live) (key_of p)}"
    by (simp add: getStalePolicies_def touches_def key_of_def)
  then show ?thesis by blast
qed

context data_store
begin

lemma delete_stale_chunks_effect:
  assumes "reports_live getLive token live" "valid s" "stored s \<subseteq> key_of ` set ps"
    and "delete_stale_chunks getLive ds token ps chunks acc s = (r, s')"
  shows "valid s' \<and> stored s' \<subseteq> stored s \<and> {k \<in> stored s. \<not> touches (set (concat chunks) - live) k} \<subseteq> stored s' \<and>
     (\<forall>out. r = Inr out \<longrightarrow> stored s' = {k \<in> stored s. \<not> touches (set (concat chunks) - live) k} \<and>
        key_of ` set out = key_of ` set acc \<union> {k \<in> key_of ` set ps. touches (set (concat chunks) - live) k})"
  using assms(2-)
proof (induction chunks arbitrary: acc s)
  case Nil
  then show ?case by (auto simp: touches_def)
next
  case (Cons chunk chunks)
  show ?case
  proof (cases "getLive token chunk")
    case (Inl e)
    with Cons.prems show ?thesis by auto
  next
    case (Inr ls)
    let ?del = "getStalePolicies ps (getStaleAppGUIDs ls chunk)"
    have del: "key_of ` set ?del = {k \<in> key_of ` set ps. touches (set chunk - live) k}"
      by (rule stale_keys [OF assms(1) Inr])
    obtain r1 s1 where d: "ds_Delete ds ?del s = (r1, s1)" by fastforce
    note step = delete [OF Cons.prems(1) d]
    have split: "touches (set (concat (chunk # chunks)) - live) k \<longleftrightarrow>
        touches (set chunk - live) k \<or> touches (set (concat chunks) - live) k" for k
      by (auto simp: touches_def)
    show ?thesis
    proof (cases r1)
      case (Inl e)
      with step d Inr Cons.prems(3) show ?thesis by auto
    next
      case (Inr u)
      then have s1: "stored s1 = {k \<in> stored s. \<not> touches (set chunk - live) k}" "valid s1"
        using step del Cons.prems(2) by auto
      have "delete_stale_chunks getLive ds token ps chunks (acc @ ?del) s1 = (r, s')"
        using Cons.prems(3) d Inr \<open>getLive token chunk = Inr ls\<close> by simp
      moreover have "stored s1 \<subseteq> key_of ` set ps" using s1(1) Cons.prems(2) by blast
      ultimately have IH: "valid s' \<and> stored s' \<subseteq> stored s1 \<and> {k \<in> stored s1. \<not> touches (set (concat chunks) - live) k} \<subseteq> stored s' \<and>
         (\<forall>out. r = Inr out \<longrightarrow> stored s' = {k \<in> stored s1. \<not> touches (set (concat chunks) - live) k} \<and>
           key_of ` set out = key_of ` set (acc @ ?del) \<union> {k \<in> key_of ` set ps. touches (set (concat chunks) - live) k})"
        by (intro Cons.IH [OF s1(2)])
      have acc: "key_of ` set (acc @ ?del) = key_of ` set acc \<union> {k \<in> key_of ` set ps. touches (set chunk - live) k}"
        by (simp add: image_Un del)
      show ?thesis using IH unfolding split s1(1) acc by (intro conjI) (blast, blast, blast, blast)
    qed
  qed
qed

end

subsection \<open>Properties\<close>

text \<open>C19. A cleanup that succeeds leaves exactly the policies whose two applications are live, for every
  chunk size, and reports exactly the policies it removed; a cleanup that fails half-way has removed
  only policies of applications that are not live.\<close>

theorem DeleteStalePolicies_exact:
  assumes "DeleteStalePolicies rng (Inr token) getLive chunkSize (metered_store st) w = (r, w')"
    and "world_ok w" "reports_live getLive token live" "is_range rng"
  shows "world_ok w' \<and> {k \<in> world_policies w. k_src k \<in> live \<and> k_dst k \<in> live} \<subseteq> world_policies w' \<and>
     world_policies w' \<subseteq> world_policies w \<and>
     (\<forall>out. r = Inr out \<longrightarrow> world_policies w' = {k \<in> world_policies w. k_src k \<in> live \<and> k_dst k \<in> live} \<and>
        key_of ` set out = world_policies w - world_policies w')"
proof -
  obtain r1 w1 where all: "ds_All (metered_store st) w = (r1, w1)" by fastforce
  note a = metered.all [OF assms(2) all]
  show ?thesis
  proof (cases r1)
    case (Inl e)
    with assms(1) all a show ?thesis by (auto simp: DeleteStalePolicies_def)
  next
    case (Inr ps)
    let ?guids = "policyAppGUIDs rng ps" and ?chunks = "cleaner_getChunks (policyAppGUIDs rng ps) chunkSize"
    have ps: "key_of ` set ps = world_policies w" using a Inr by (simp add: represents_def)
    have run: "delete_stale_chunks getLive (metered_store st) token ps ?chunks [] w1 = (r, w')"
      using assms(1) all Inr by (simp add: DeleteStalePolicies_def)
    have "set (concat ?chunks) = set ?guids" by (simp add: cleaner_getChunks_def concat_chunk_loop)
    also have "\<dots> = (\<Union>p \<in> set ps. guids_of p)"
      using assms(4) by (auto simp: policyAppGUIDs_def is_range_set guids_of_def)
    finally have "touches (set (concat ?chunks) - live) k \<longleftrightarrow> \<not> (k_src k \<in> live \<and> k_dst k \<in> live)"
      if "k \<in> world_policies w" for k
      using that unfolding ps [symmetric] by (auto simp: touches_def guids_of_def key_of_def)
    then have keep: "{k \<in> world_policies w. \<not> touches (set (concat ?chunks) - live) k} =
        {k \<in> world_policies w. k_src k \<in> live \<and> k_dst k \<in> live}"
      and drop: "{k \<in> world_policies w. touches (set (concat ?chunks) - live) k} =
        world_policies w - {k \<in> world_policies w. k_src k \<in> live \<and> k_dst k \<in> live}" by blast+
    have "world_ok w1" "world_policies w1 = world_policies w" using a by auto
    with metered.delete_stale_chunks_effect [OF assms(3) _ _ run]
    have "world_ok w' \<and> world_policies w' \<subseteq> world_policies w \<and>
        {k \<in> world_policies w. \<not> touches (set (concat ?chunks) - live) k} \<subseteq> world_policies w' \<and>
        (\<forall>out. r = Inr out \<longrightarrow> world_policies w' = {k \<in> world_policies w. \<not> touches (set (concat ?chunks) - live) k} \<and>
          key_of ` set out = {k \<in> world_policies w. touches (set (concat ?chunks) - live) k})"
      using ps by simp
    then show ?thesis unfolding keep drop by blast
  qed
qed

definition demo_world :: world where
  "demo_world = \<lparr>db = demo_full, metrics = []\<rparr>"

lemma demo_world_ok [simp]: "world_ok demo_world" "world_policies demo_world = key_of ` set demo_policies"
  by (simp_all add: demo_world_def world_ok_def world_policies_def)

theorem DeleteStalePolicies_exact_witness:
  "let w' = snd (DeleteStalePolicies rev (Inr ''t'') (\<lambda>_ guids. Inr (filter (\<lambda>g. g \<noteq> ''a'') guids)) 2 (metered_store demo_store) demo_world) in
     world_ok w' \<and> key_of (demo_policy ''c'' ''b'' 9090) \<in> world_policies w'"
proof -
  let ?live = "\<lambda>_ guids. Inr (filter (\<lambda>g. g \<noteq> ''a'') guids) :: string list result"
  let ?run = "DeleteStalePolicies rev (Inr ''t'') ?live 2 (metered_store demo_store) demo_world"
  have "?run = (fst ?run, snd ?run)" by simp
  moreover have "reports_live ?live ''t'' (- {''a''})" by (auto simp: reports_live_def)
  ultimately have "world_ok (snd ?run)" and
    "{k \<in> world_policies demo_world. k_src k \<in> - {''a''} \<and> k_dst k \<in> - {''a''}} \<subseteq> world_policies (snd ?run)"
    using DeleteStalePolicies_exact [of rev "''t''" ?live 2 demo_store demo_world "fst ?run" "snd ?run" "- {''a''}"] by simp_all
  moreover have "key_of (demo_policy ''c'' ''b'' 9090) \<in> world_policies demo_world" by (simp add: demo_policies_def)
  ultimately show ?thesis by (auto simp: key_of_def demo_policy_def)
qed

end
