(* ===== verification/Policy_API.thy ===== *)
theory Policy_API
  imports Policy_Store_Progress
begin

text \<open>
  \<^verbatim>\<open>policy-server/api\<close>, \<^verbatim>\<open>api/api_v0\<close> and \<^verbatim>\<open>api/api_v0_internal\<close>: the JSON payloads of the two versions of
  the external API and of the internal API, their validators, and the mappers between payloads and
  store policies. JSON encoding is a parameter: \<open>unmarshal\<close> and \<open>marshal\<close> act on the payload record,
  and \<open>'b\<close> stands for byte strings.
\<close>

subsection \<open>Version 1\<close>

record api_Ports =
  a_Start :: int
  a_End :: int

record api_Source =
  a_src_ID :: string
  a_src_Tag :: string

record api_Destination =
  a_dst_ID :: string
  a_dst_Tag :: string
  a_Protocol :: string
  a_Ports :: api_Ports

record api_Policy =
  a_Source :: api_Source
  a_Destination :: api_Destination

record api_Policies =
  TotalPolicies :: int
  Policies :: "api_Policy list"

record api_Tag =
  a_tag_ID :: string
  a_tag_Tag :: string

fun ValidatePolicies_loop :: "api_Policy list \<Rightarrow> go_error option" where
  "ValidatePolicies_loop [] = None"
| "ValidatePolicies_loop (policy # rest) =
     (let dest = a_Destination policy; ports = a_Ports dest in
      if a_src_ID (a_Source policy) = '''' then Some (ErrText ''missing source id'')
      else if a_dst_ID dest = '''' then Some (ErrText ''missing destination id'')
      else if a_Protocol dest \<noteq> ''udp'' \<and> a_Protocol dest \<noteq> ''tcp''
      then Some (ErrText ''invalid destination protocol, specify either udp or tcp'')
      else if a_Start ports > a_End ports
      then Some (ErrText (''invalid port range '' @ itoa (a_Start ports) @ ''-'' @ itoa (a_End ports)
             @ '', start must be less than or equal to end''))
      else if a_Start ports < 0
      then Some (ErrText (''invalid start port '' @ itoa (a_Start ports) @ '', must be in range 1-65535''))
      else if a_Start ports = 0 then Some (ErrText ''missing start port'')
      else if a_End ports > 65535
      then Some (ErrText (''invalid end port '' @ itoa (a_End ports) @ '', must be in range 1-65535''))
      else if a_src_Tag (a_Source policy) \<noteq> '''' \<or> a_dst_Tag dest \<noteq> ''''
      then Some (ErrText ''tags may not be specified'')
      else ValidatePolicies_loop rest)"

definition ValidatePolicies :: "api_Policy list \<Rightarrow> go_error option" where
  "ValidatePolicies ps =
     (if length ps = 0 then Some (ErrText ''missing policies'') else ValidatePolicies_loop ps)"

definition asStorePolicy :: "api_Policy \<Rightarrow> Policy" where
  "asStorePolicy p =
     (let ports = a_Ports (a_Destination p);
          port = (if a_Start ports = a_End ports then a_Start ports else 0) in
      \<lparr>pol_Source = \<lparr>src_ID = a_src_ID (a_Source p), src_Tag = a_src_Tag (a_Source p)\<rparr>,
       pol_Destination = \<lparr>dst_ID = a_dst_ID (a_Destination p), dst_Tag = a_dst_Tag (a_Destination p),
         dst_Protocol = a_Protocol (a_Destination p), dst_Port = port,
         dst_Ports = \<lparr>Start = a_Start ports, End = a_End ports\<rparr>\<rparr>\<rparr>)"

definition mapStorePolicy :: "Policy \<Rightarrow> api_Policy" where
  "mapStorePolicy p =
     \<lparr>a_Source = \<lparr>a_src_ID = src_ID (pol_Source p), a_src_Tag = src_Tag (pol_Source p)\<rparr>,
      a_Destination = \<lparr>a_dst_ID = dst_ID (pol_Destination p), a_dst_Tag = dst_Tag (pol_Destination p),
        a_Protocol = dst_Protocol (pol_Destination p),
        a_Ports = \<lparr>a_Start = Start (dst_Ports (pol_Destination p)), a_End = End (dst_Ports (pol_Destination p))\<rparr>\<rparr>\<rparr>"

definition AsStorePolicy :: "('b \<Rightarrow> api_Policies result) \<Rightarrow> 'b \<Rightarrow> Policy list result" where
  "AsStorePolicy unmarshal bytes = (case unmarshal bytes of
       Inl e \<Rightarrow> Inl (Errorf ''unmarshal json: '' e)
     | Inr payload \<Rightarrow> (case ValidatePolicies (Policies payload) of
         Some e \<Rightarrow> Inl (Errorf ''validate policies: '' e)
       | None \<Rightarrow> Inr (map asStorePolicy (Policies payload))))"

definition AsBytes :: "(api_Policies \<Rightarrow> 'b result) \<Rightarrow> Policy list \<Rightarrow> 'b result" where
  "AsBytes marshal storePolicies =
     (let apiPolicies = map mapStorePolicy storePolicies in
      case marshal \<lparr>TotalPolicies = int (length apiPolicies), Policies = apiPolicies\<rparr> of
        Inl e \<Rightarrow> Inl (Errorf ''marshal json: '' e)
      | Inr bytes \<Rightarrow> Inr bytes)"

definition MapStoreTag :: "Tag \<Rightarrow> api_Tag" where
  "MapStoreTag t = \<lparr>a_tag_ID = tag_ID t, a_tag_Tag = tag_Tag t\<rparr>"

definition MapStoreTags :: "Tag list \<Rightarrow> api_Tag list" where
  "MapStoreTags ts = map MapStoreTag ts"

text \<open>\<^verbatim>\<open>PolicySlice\<close>: the order of \<^verbatim>\<open>sort.Sort\<close>, by JSON text, where \<open>marshal\<close> encodes one policy.\<close>

fun str_less :: "string \<Rightarrow> string \<Rightarrow> bool" where
  "str_less s [] = False"
| "str_less [] (d # t) = True"
| "str_less (c # s) (d # t) = ((of_char c :: nat) < of_char d \<or> c = d \<and> str_less s t)"

definition PolicySlice_Less :: "('p \<Rightarrow> string result) \<Rightarrow> 'p list \<Rightarrow> nat \<Rightarrow> nat \<Rightarrow> bool result" where
  "PolicySlice_Less marshal s i j = (case marshal (s ! i) of
       Inl e \<Rightarrow> Inl (Errorf ''panic: '' e)
     | Inr a \<Rightarrow> (case marshal (s ! j) of
         Inl e \<Rightarrow> Inl (Errorf ''panic: '' e)
       | Inr b \<Rightarrow> Inr (str_less a b)))"

definition PolicySlice_Swap :: "'p list \<Rightarrow> nat \<Rightarrow> nat \<Rightarrow> 'p list" where
  "PolicySlice_Swap s i j = s[i := s ! j, j := s ! i]"

subsection \<open>Version 0\<close>

record v0_Destination =
  v0_dst_ID :: string
  v0_dst_Tag :: string
  v0_Protocol :: string
  v0_Port :: int

record v0_Policy =
  v0_Source :: api_Source
  v0_Destination :: v0_Destination

record v0_Policies =
  v0_TotalPolicies :: int
  v0_Policies :: "v0_Policy list"

fun v0_ValidatePolicies_loop :: "v0_Policy list \<Rightarrow> go_error option" where
  "v0_ValidatePolicies_loop [] = None"
| "v0_ValidatePolicies_loop (policy # rest) =
     (let dest = v0_Destination policy in
      if a_src_ID (v0_Source policy) = '''' then Some (ErrText ''missing source id'')
      else if v0_dst_ID dest = '''' then Some (ErrText ''missing destination id'')
      else if v0_Protocol dest \<noteq> ''udp'' \<and> v0_Protocol dest \<noteq> ''tcp''
      then Some (ErrText ''invalid destination protocol, specify either udp or tcp'')
      else if v0_Port dest < 0
      then Some (ErrText (''invalid port '' @ itoa (v0_Port dest) @ '', must be in range 1-65535''))
      else if v0_Port dest = 0 then Some (ErrText ''missing port'')
      else if a_src_Tag (v0_Source policy) \<noteq> '''' \<or> v0_dst_Tag dest \<noteq> ''''
      then Some (ErrText ''tags may not be specified'')
      else v0_ValidatePolicies_loop rest)"

definition v0_ValidatePolicies :: "v0_Policy list \<Rightarrow> go_error option" where
  "v0_ValidatePolicies ps =
     (if length ps = 0 then Some (ErrText ''missing policies'') else v0_ValidatePolicies_loop ps)"

definition v0_asStorePolicy :: "v0_Policy \<Rightarrow> Policy" where
  "v0_asStorePolicy p =
     \<lparr>pol_Source = \<lparr>src_ID = a_src_ID (v0_Source p), src_Tag = a_src_Tag (v0_Source p)\<rparr>,
      pol_Destination = \<lparr>dst_ID = v0_dst_ID (v0_Destination p), dst_Tag = v0_dst_Tag (v0_Destination p),
        dst_Protocol = v0_Protocol (v0_Destination p), dst_Port = v0_Port (v0_Destination p),
        dst_Ports = \<lparr>Start = v0_Port (v0_Destination p), End = v0_Port (v0_Destination p)\<rparr>\<rparr>\<rparr>"

definition v0_mapStorePolicy :: "Policy \<Rightarrow> v0_Policy option" where
  "v0_mapStorePolicy p =
     (if Start (dst_Ports (pol_Destination p)) \<noteq> End (dst_Ports (pol_Destination p)) then None
      else Some \<lparr>v0_Source = \<lparr>a_src_ID = src_ID (pol_Source p), a_src_Tag = src_Tag (pol_Source p)\<rparr>,
        v0_Destination = \<lparr>v0_dst_ID = dst_ID (pol_Destination p), v0_dst_Tag = dst_Tag (pol_Destination p),
          v0_Protocol = dst_Protocol (pol_Destination p), v0_Port = Start (dst_Ports (pol_Destination p))\<rparr>\<rparr>)"

definition v0_AsStorePolicy :: "('b \<Rightarrow> v0_Policies result) \<Rightarrow> 'b \<Rightarrow> Policy list result" where
  "v0_AsStorePolicy unmarshal bytes = (case unmarshal bytes of
       Inl e \<Rightarrow> Inl (Errorf ''unmarshal json: '' e)
     | Inr payload \<Rightarrow> (case v0_ValidatePolicies (v0_Policies payload) of
         Some e \<Rightarrow> Inl (Errorf ''validate policies: '' e)
       | None \<Rightarrow> Inr (map v0_asStorePolicy (v0_Policies payload))))"

definition v0_AsBytes :: "(v0_Policies \<Rightarrow> 'b result) \<Rightarrow> Policy list \<Rightarrow> 'b result" where
  "v0_AsBytes marshal storePolicies =
     (let apiPolicies = List.map_filter v0_mapStorePolicy storePolicies in
      case marshal \<lparr>v0_TotalPolicies = int (length apiPolicies), v0_Policies = apiPolicies\<rparr> of
        Inl e \<Rightarrow> Inl (Errorf ''marshal json: '' e)
      | Inr bytes \<Rightarrow> Inr bytes)"

subsection \<open>The internal API\<close>

record internal_Destination =
  i_dst_ID :: string
  i_dst_Tag :: string
  i_Protocol :: string
  i_Port :: int
  i_Ports :: api_Ports

record internal_Policy =
  i_Source :: api_Source
  i_Destination :: internal_Destination

record internal_Policies =
  i_TotalPolicies :: int
  i_Policies :: "internal_Policy list"

definition internal_mapStorePolicy :: "Policy \<Rightarrow> internal_Policy option" where
  "internal_mapStorePolicy p =
     (let ports = dst_Ports (pol_Destination p) in
      if Start ports \<noteq> End ports then None
      else Some \<lparr>i_Source = \<lparr>a_src_ID = src_ID (pol_Source p), a_src_Tag = src_Tag (pol_Source p)\<rparr>,
        i_Destination = \<lparr>i_dst_ID = dst_ID (pol_Destination p), i_dst_Tag = dst_Tag (pol_Destination p),
          i_Protocol = dst_Protocol (pol_Destination p), i_Port = Start ports,
          i_Ports = \<lparr>a_Start = Start ports, a_End = End ports\<rparr>\<rparr>\<rparr>)"

definition internal_AsStorePolicy :: "'b \<Rightarrow> Policy list result" where
  "internal_AsStorePolicy bytes = Inl (Panic ''as store policy was called for internal api'')"

definition internal_AsBytes :: "(internal_Policies \<Rightarrow> 'b result) \<Rightarrow> Policy list \<Rightarrow> 'b result" where
  "internal_AsBytes marshal storePolicies =
     (let apiPolicies = List.map_filter internal_mapStorePolicy storePolicies in
      case marshal \<lparr>i_TotalPolicies = int (length apiPolicies), i_Policies = apiPolicies\<rparr> of
        Inl e \<Rightarrow> Inl (Errorf ''marshal json: '' e)
      | Inr bytes \<Rightarrow> Inr bytes)"

subsection \<open>Properties\<close>

definition valid_policy :: "api_Policy \<Rightarrow> bool" where
  "valid_policy p \<longleftrightarrow> a_src_ID (a_Source p) \<noteq> '''' \<and> a_dst_ID (a_Destination p) \<noteq> '''' \<and>
     a_Protocol (a_Destination p) \<in> {''tcp'', ''udp''} \<and>
     1 \<le> a_Start (a_Ports (a_Destination p)) \<and>
     a_Start (a_Ports (a_Destination p)) \<le> a_End (a_Ports (a_Destination p)) \<and>
     a_End (a_Ports (a_Destination p)) \<le> 65535 \<and>
     a_src_Tag (a_Source p) = '''' \<and> a_dst_Tag (a_Destination p) = ''''"

definition v0_valid_policy :: "v0_Policy \<Rightarrow> bool" where
  "v0_valid_policy p \<longleftrightarrow> a_src_ID (v0_Source p) \<noteq> '''' \<and> v0_dst_ID (v0_Destination p) \<noteq> '''' \<and>
     v0_Protocol (v0_Destination p) \<in> {''tcp'', ''udp''} \<and> 1 \<le> v0_Port (v0_Destination p) \<and>
     a_src_Tag (v0_Source p) = '''' \<and> v0_dst_Tag (v0_Destination p) = ''''"

lemma ValidatePolicies_loop_iff: "ValidatePolicies_loop ps = None \<longleftrightarrow> list_all valid_policy ps"
  by (induction ps) (auto simp: Let_def valid_policy_def)

lemma v0_ValidatePolicies_loop_iff: "v0_ValidatePolicies_loop ps = None \<longleftrightarrow> list_all v0_valid_policy ps"
  by (induction ps) (auto simp: Let_def v0_valid_policy_def)

lemma ValidatePolicies_iff: "ValidatePolicies ps = None \<longleftrightarrow> ps \<noteq> [] \<and> list_all valid_policy ps"
  by (simp add: ValidatePolicies_def ValidatePolicies_loop_iff)

lemma v0_ValidatePolicies_iff: "v0_ValidatePolicies ps = None \<longleftrightarrow> ps \<noteq> [] \<and> list_all v0_valid_policy ps"
  by (simp add: v0_ValidatePolicies_def v0_ValidatePolicies_loop_iff)

lemma mapStorePolicy_inverse: "mapStorePolicy (asStorePolicy p) = p"
  by (simp add: mapStorePolicy_def asStorePolicy_def Let_def)

lemma v0_mapStorePolicy_inverse: "v0_mapStorePolicy (v0_asStorePolicy p) = Some p"
  by (simp add: v0_mapStorePolicy_def v0_asStorePolicy_def)

lemma asStorePolicy_consistent: "port_consistent (asStorePolicy p)" "port_consistent (v0_asStorePolicy q)"
  by (simp_all add: port_consistent_def port_of_def asStorePolicy_def v0_asStorePolicy_def Let_def)

lemma AsStorePolicy_ok:
  assumes "AsStorePolicy unmarshal b = Inr ps"
  obtains payload where "unmarshal b = Inr payload" "ps = map asStorePolicy (Policies payload)"
    "Policies payload \<noteq> []" "list_all valid_policy (Policies payload)"
  using assms by (auto simp: AsStorePolicy_def ValidatePolicies_iff split: sum.splits option.splits)

lemma v0_AsStorePolicy_ok:
  assumes "v0_AsStorePolicy unmarshal b = Inr ps"
  obtains payload where "unmarshal b = Inr payload" "ps = map v0_asStorePolicy (v0_Policies payload)"
    "v0_Policies payload \<noteq> []" "list_all v0_valid_policy (v0_Policies payload)"
  using assms by (auto simp: v0_AsStorePolicy_def v0_ValidatePolicies_iff split: sum.splits option.splits)

text \<open>C24. The version-1 validator accepts exactly the non-empty lists of policies with both ids, protocol
  tcp or udp, a port range inside 1 to 65535 and no tags.\<close>

theorem ValidatePolicies_exact:
  "ValidatePolicies ps = None \<longleftrightarrow> ps \<noteq> [] \<and> list_all valid_policy ps"
  by (rule ValidatePolicies_iff)

text \<open>What the version-1 mapper accepts from a client, stores and gives back is the same payload: if
  \<open>marshal\<close> and \<open>unmarshal\<close> are inverse on it, reading the bytes written for the accepted policies
  yields the accepted list again.\<close>

theorem policy_mapper_roundtrip:
  assumes "AsStorePolicy unmarshal b = Inr ps" "AsBytes marshal ps = Inr b'"
    and "\<And>x y. marshal x = Inr y \<Longrightarrow> unmarshal y = Inr x"
  shows "\<exists>payload payload'. unmarshal b = Inr payload \<and> unmarshal b' = Inr payload' \<and>
     Policies payload' = Policies payload \<and> TotalPolicies payload' = int (length (Policies payload)) \<and>
     AsStorePolicy unmarshal b' = Inr ps"
proof -
  obtain payload where u: "unmarshal b = Inr payload" and ps: "ps = map asStorePolicy (Policies payload)"
    and ok: "ValidatePolicies (Policies payload) = None"
    using assms(1) by (auto simp: AsStorePolicy_def split: sum.splits option.splits)
  let ?p = "\<lparr>TotalPolicies = int (length (Policies payload)), Policies = Policies payload\<rparr>"
  have "marshal ?p = Inr b'"
    using assms(2) by (simp add: AsBytes_def ps comp_def mapStorePolicy_inverse Let_def split: sum.splits)
  then have "unmarshal b' = Inr ?p" by (rule assms(3))
  then show ?thesis using u ok by (simp add: AsStorePolicy_def ps)
qed

definition demo_payload :: api_Policies where
  "demo_payload = \<lparr>TotalPolicies = 1, Policies = [\<lparr>a_Source = \<lparr>a_src_ID = ''a'', a_src_Tag = ''''\<rparr>,
     a_Destination = \<lparr>a_dst_ID = ''b'', a_dst_Tag = '''', a_Protocol = ''udp'', a_Ports = \<lparr>a_Start = 80, a_End = 90\<rparr>\<rparr>\<rparr>]\<rparr>"

theorem policy_mapper_roundtrip_witness:
  "AsStorePolicy Inr demo_payload = Inr (map asStorePolicy (Policies demo_payload)) \<and>
   (\<exists>payload'. (Inr payload' :: api_Policies result) = Inr demo_payload \<and> Policies payload' = Policies demo_payload)"
proof -
  have ok: "AsStorePolicy Inr demo_payload = Inr (map asStorePolicy (Policies demo_payload))" by code_simp
  have "AsBytes Inr (map asStorePolicy (Policies demo_payload)) = Inr demo_payload" by code_simp
  from policy_mapper_roundtrip [OF ok this] ok show ?thesis by auto
qed

text \<open>A single-port policy reads the same through every version of the API: what a version-0 client
  stored is shown to a version-0 client unchanged, to a version-1 client with the range from the
  port to the port, and to the internal API with both.\<close>

theorem versions_agree_on_single_ports:
  "v0_mapStorePolicy (v0_asStorePolicy p) = Some p \<and>
   a_Ports (a_Destination (mapStorePolicy (v0_asStorePolicy p))) =
     \<lparr>a_Start = v0_Port (v0_Destination p), a_End = v0_Port (v0_Destination p)\<rparr> \<and>
   (\<exists>q. internal_mapStorePolicy (v0_asStorePolicy p) = Some q \<and> i_Port (i_Destination q) = v0_Port (v0_Destination p) \<and>
      i_Ports (i_Destination q) = \<lparr>a_Start = v0_Port (v0_Destination p), a_End = v0_Port (v0_Destination p)\<rparr>)"
  by (simp add: v0_mapStorePolicy_def mapStorePolicy_def v0_asStorePolicy_def internal_mapStorePolicy_def)

text \<open>The version-0 validator puts no upper bound on the port, although its message names the range
  1-65535: an otherwise valid policy is accepted for every port from 1 on.\<close>

theorem v0_validator_port_bound:
  assumes "a_src_ID src \<noteq> ''''" "a_src_Tag src = ''''" "dst \<noteq> ''''" "proto \<in> {''tcp'', ''udp''}"
  shows "v0_ValidatePolicies [\<lparr>v0_Source = src, v0_Destination =
      \<lparr>v0_dst_ID = dst, v0_dst_Tag = '''', v0_Protocol = proto, v0_Port = n\<rparr>\<rparr>] = None \<longleftrightarrow> 1 \<le> n"
  using assms by (simp add: v0_ValidatePolicies_iff v0_valid_policy_def)

theorem v0_validator_port_bound_witness:
  "v0_ValidatePolicies [\<lparr>v0_Source = \<lparr>a_src_ID = ''a'', a_src_Tag = ''''\<rparr>, v0_Destination =
      \<lparr>v0_dst_ID = ''b'', v0_dst_Tag = '''', v0_Protocol = ''tcp'', v0_Port = 70000\<rparr>\<rparr>] = None"
  by (subst v0_validator_port_bound) simp_all

subsection \<open>Order of PolicySlice\<close>

lemma str_less_irrefl: "\<not> str_less s s"
  by (induction s) auto

lemma str_less_trans: "str_less s t \<Longrightarrow> str_less t u \<Longrightarrow> str_less s u"
proof (induction s t arbitrary: u rule: str_less.induct)
  case (3 c s d t)
  then show ?case by (cases u) auto
qed (auto elim: str_less.elims)

lemma str_less_total: "s \<noteq> t \<Longrightarrow> str_less s t \<or> str_less t s"
proof (induction s t rule: str_less.induct)
  case (3 c s d t)
  then show ?case by (cases "c = d") (auto simp: neq_iff)
qed (auto simp: neq_Nil_conv)


end
