(* ===== verification/Handlers.thy ===== *)
theory Handlers
  imports Policy_Cleaner Policy_API
begin

text \<open>
  \<^verbatim>\<open>policy-server/handlers\<close>, \<^verbatim>\<open>middleware/cors.go\<close> and the routes of \<^verbatim>\<open>cmd/policy-server/main.go\<close> and
  \<^verbatim>\<open>cmd/policy-server-internal/main.go\<close>. A handler maps a request and the state of the store to a reply
  and the new state. A reply is what the handler writes: the body of a 200 answer, a call of the
  error responder (a library) with its kind, cause and message, a bare status, nothing, or a crash.
  \<open>errText\<close> is the text of an error value. Logging and the metric and log wrappers of the library
  are left out.
\<close>

subsection \<open>Requests and replies\<close>

datatype errorKind = InternalServerError | BadRequest | NotAcceptable | Forbidden | Unauthorized

datatype reply =
    OK string
  | ErrorReply errorKind "go_error option" string
  | WriteHeader int
  | Empty
  | Crash string

record request =
  Method :: string
  URLPath :: string
  Authorization :: "string list"
  Origin :: "string list"
  URLQuery :: "(string \<times> string list) list"
  Body :: "string result"
  VersionParam :: string
  TokenData :: "CheckTokenResponse option"

type_synonym 's handler = "request \<Rightarrow> 's \<Rightarrow> reply \<times> 's"

record policyMapper =
  m_AsStorePolicy :: "string \<Rightarrow> Policy list result"
  m_AsBytes :: "Policy list \<Rightarrow> string result"

definition getTokenData :: "request \<Rightarrow> CheckTokenResponse" where
  "getTokenData req = (case TokenData req of Some t \<Rightarrow> t | None \<Rightarrow> \<lparr>Scope = [], UserID = '''', UserName = ''''\<rparr>)"

subsection \<open>Authentication\<close>

definition MAX_REQ_BODY_SIZE :: nat where
  "MAX_REQ_BODY_SIZE = 10 * 2 ^ 20"

record authenticator =
  CheckTokenFn :: "string \<Rightarrow> CheckTokenResponse result"
  Scopes :: "string list"
  ScopeChecking :: bool

fun scope_allowed :: "string \<Rightarrow> string list \<Rightarrow> bool" where
  "scope_allowed scope [] = False"
| "scope_allowed scope (allowed # rest) = (if scope = allowed then True else scope_allowed scope rest)"

fun isAuthorized :: "string list \<Rightarrow> string list \<Rightarrow> bool" where
  "isAuthorized [] allowedScopes = False"
| "isAuthorized (scope # scopes) allowedScopes =
     (if scope_allowed scope allowedScopes then True else isAuthorized scopes allowedScopes)"

text \<open>\<^verbatim>\<open>%s\<close> of a slice of strings.\<close>

definition fmt_strings :: "string list \<Rightarrow> string" where
  "fmt_strings xs = ''['' @ join_with '' '' xs @ '']''"

text \<open>\<^verbatim>\<open>http.MaxBytesReader\<close>: reading more than the limit fails.\<close>

definition limit_body :: "string result \<Rightarrow> string result" where
  "limit_body b = (case b of
       Inl e \<Rightarrow> Inl e
     | Inr s \<Rightarrow> if length s > MAX_REQ_BODY_SIZE then Inl (ReadError ''http: request body too large'') else Inr s)"

definition auth_Wrap :: "authenticator \<Rightarrow> 's handler \<Rightarrow> 's handler" where
  "auth_Wrap a handle req s = (case Authorization req of
       [] \<Rightarrow> (ErrorReply Unauthorized (Some (ErrText ''no auth header'')) ''missing authorization header'', s)
     | token # _ \<Rightarrow>
         (case CheckTokenFn a (trim_prefix ''bearer '' (trim_prefix ''Bearer '' token)) of
            Inl e \<Rightarrow> (ErrorReply Forbidden (Some e) ''failed to verify token with uaa'', s)
          | Inr tokenData \<Rightarrow>
              if ScopeChecking a \<and> \<not> isAuthorized (Scope tokenData) (Scopes a)
              then let err = ''provided scopes '' @ fmt_strings (Scope tokenData) @
                     '' do not include allowed scopes '' @ fmt_strings (Scopes a) in
                   (ErrorReply Forbidden (Some (ErrText err)) err, s)
              else handle (req\<lparr>Body := limit_body (Body req), TokenData := Some tokenData\<rparr>) s))"

subsection \<open>Versions\<close>

definition CheckVersion :: "(string \<times> 's handler) list \<Rightarrow> 's handler" where
  "CheckVersion handlers req s = (case map_of handlers (VersionParam req) of
       Some handler \<Rightarrow> handler req s
     | None \<Rightarrow> (ErrorReply NotAcceptable None (''api version '' @ [CHR 0x27] @ VersionParam req @ [CHR 0x27] @ '' not supported''), s))"

subsection \<open>Policy handlers\<close>

definition PoliciesCreate :: "(go_error \<Rightarrow> string) \<Rightarrow> 's dataStore \<Rightarrow> policyMapper \<Rightarrow>
    (Policy list \<Rightarrow> CheckTokenResponse \<Rightarrow> bool result) \<Rightarrow>
    (Policy list \<Rightarrow> CheckTokenResponse \<Rightarrow> 's \<Rightarrow> bool result \<times> 's) \<Rightarrow> 's handler" where
  "PoliciesCreate errText ds mapper policyGuard quotaGuard req s =
     (let tokenData = getTokenData req in
      case Body req of
        Inl e \<Rightarrow> (ErrorReply BadRequest (Some e) ''failed reading request body'', s)
      | Inr bodyBytes \<Rightarrow> (case m_AsStorePolicy mapper bodyBytes of
          Inl e \<Rightarrow> (ErrorReply BadRequest (Some e) (''mapper: '' @ errText e), s)
        | Inr ps \<Rightarrow> (case policyGuard ps tokenData of
            Inl e \<Rightarrow> (ErrorReply InternalServerError (Some e) ''check access failed'', s)
          | Inr authorized \<Rightarrow>
              if \<not> authorized
              then (ErrorReply Forbidden (Some (ErrText ''one or more applications cannot be found or accessed''))
                      ''one or more applications cannot be found or accessed'', s)
              else (case quotaGuard ps tokenData s of
                  (Inl e, s) \<Rightarrow> (ErrorReply InternalServerError (Some e) ''check quota failed'', s)
                | (Inr authorized, s) \<Rightarrow>
                    if \<not> authorized
                    then (ErrorReply Forbidden (Some (ErrText ''policy quota exceeded'')) ''policy quota exceeded'', s)
                    else (case ds_Create ds ps s of
                        (Inl e, s) \<Rightarrow> (ErrorReply InternalServerError (Some e) ''database create failed'', s)
                      | (Inr _, s) \<Rightarrow> (OK ''{}'', s))))))"

definition PoliciesDelete :: "(go_error \<Rightarrow> string) \<Rightarrow> 's dataStore \<Rightarrow> policyMapper \<Rightarrow>
    (Policy list \<Rightarrow> CheckTokenResponse \<Rightarrow> bool result) \<Rightarrow> 's handler" where
  "PoliciesDelete errText ds mapper policyGuard req s =
     (let tokenData = getTokenData req in
      case Body req of
        Inl e \<Rightarrow> (ErrorReply BadRequest (Some e) ''invalid request body'', s)
      | Inr bodyBytes \<Rightarrow> (case m_AsStorePolicy mapper bodyBytes of
          Inl e \<Rightarrow> (ErrorReply BadRequest (Some e) (''mapper: '' @ errText e), s)
        | Inr ps \<Rightarrow> (case policyGuard ps tokenData of
            Inl e \<Rightarrow> (ErrorReply InternalServerError (Some e) ''check access failed'', s)
          | Inr authorized \<Rightarrow>
              if \<not> authorized
              then (ErrorReply Forbidden (Some (ErrText ''one or more applications cannot be found or accessed''))
                      ''one or more applications cannot be found or accessed'', s)
              else (case ds_Delete ds ps s of
                  (Inl e, s) \<Rightarrow> (ErrorReply InternalServerError (Some e) ''database delete failed'', s)
                | (Inr _, s) \<Rightarrow> (OK ''{}'', s)))))"

text \<open>
  \<^verbatim>\<open>queryValues[key]\<close>: the list of a key that is present is not empty, so its first element exists.
\<close>

definition parse_list :: "string \<Rightarrow> (string \<times> string list) list \<Rightarrow> string list" where
  "parse_list key queryValues = (case map_of queryValues key of
       Some (ids # _) \<Rightarrow> split_on (CHR '','') ids | _ \<Rightarrow> [])"

definition parseIds :: "(string \<times> string list) list \<Rightarrow> string list" where
  "parseIds queryValues = parse_list ''id'' queryValues"

definition parseSourceIds :: "(string \<times> string list) list \<Rightarrow> string list" where
  "parseSourceIds queryValues = parse_list ''source_id'' queryValues"

definition parseDestIds :: "(string \<times> string list) list \<Rightarrow> string list" where
  "parseDestIds queryValues = parse_list ''dest_id'' queryValues"

definition clear_tags :: "Policy \<Rightarrow> Policy" where
  "clear_tags p = p\<lparr>pol_Source := (pol_Source p)\<lparr>src_Tag := ''''\<rparr>, pol_Destination := (pol_Destination p)\<lparr>dst_Tag := ''''\<rparr>\<rparr>"

definition PoliciesIndex :: "'s dataStore \<Rightarrow> policyMapper \<Rightarrow>
    (Policy list \<Rightarrow> CheckTokenResponse \<Rightarrow> Policy list result) \<Rightarrow> 's handler" where
  "PoliciesIndex ds mapper policyFilter req s =
     (let userToken = getTokenData req;
          ids = parseIds (URLQuery req);
          sourceIDs = parseSourceIds (URLQuery req);
          destIDs = parseDestIds (URLQuery req) in
      case (if length ids > 0 then ds_ByGuids ds ids ids False s
            else if length sourceIDs > 0 \<and> length destIDs > 0 then ds_ByGuids ds sourceIDs destIDs True s
            else if length sourceIDs > 0 then ds_ByGuids ds sourceIDs [] False s
            else if length destIDs > 0 then ds_ByGuids ds [] destIDs False s
            else ds_All ds s) of
        (Inl e, s) \<Rightarrow> (ErrorReply InternalServerError (Some e) ''database read failed'', s)
      | (Inr storePolicies, s) \<Rightarrow> (case policyFilter storePolicies userToken of
          Inl e \<Rightarrow> (ErrorReply InternalServerError (Some e) ''filter policies failed'', s)
        | Inr ps \<Rightarrow> (case m_AsBytes mapper (map clear_tags ps) of
            Inl e \<Rightarrow> (ErrorReply InternalServerError (Some e) ''map policy as bytes failed'', s)
          | Inr bytes \<Rightarrow> (OK bytes, s))))"

definition PoliciesIndexInternal :: "'s dataStore \<Rightarrow> policyMapper \<Rightarrow> 's handler" where
  "PoliciesIndexInternal ds mapper req s =
     (let ids = parseIds (URLQuery req) in
      case (if length ids = 0 then ds_All ds s else ds_ByGuids ds ids ids False s) of
        (Inl e, s) \<Rightarrow> (ErrorReply InternalServerError (Some e) ''database read failed'', s)
      | (Inr ps, s) \<Rightarrow> (case m_AsBytes mapper ps of
          Inl e \<Rightarrow> (ErrorReply InternalServerError (Some e) ''map policy as bytes failed'', s)
        | Inr bytes \<Rightarrow> (OK bytes, s)))"

definition PoliciesCleanup :: "policyMapper \<Rightarrow> ('s \<Rightarrow> Policy list result \<times> 's) \<Rightarrow> 's handler" where
  "PoliciesCleanup mapper deleteStalePolicies req s = (case deleteStalePolicies s of
       (Inl e, s) \<Rightarrow> (ErrorReply InternalServerError (Some e) ''policies cleanup failed'', s)
     | (Inr ps, s) \<Rightarrow> (case m_AsBytes mapper (map clear_tags ps) of
         Inl e \<Rightarrow> (ErrorReply InternalServerError (Some e) ''map policy as bytes failed'', s)
       | Inr bytes \<Rightarrow> (OK bytes, s)))"

definition TagsIndex :: "'s dataStore \<Rightarrow> (api_Tag list \<Rightarrow> string result) \<Rightarrow> 's handler" where
  "TagsIndex ds marshal req s = (case ds_Tags ds s of
       (Inl e, s) \<Rightarrow> (ErrorReply InternalServerError (Some e) ''database read failed'', s)
     | (Inr ts, s) \<Rightarrow> (case marshal (MapStoreTags ts) of
         Inl e \<Rightarrow> (ErrorReply InternalServerError (Some e) ''database marshalling failed'', s)
       | Inr bytes \<Rightarrow> (OK bytes, s)))"

text \<open>The interface of \<open>TagsCreate\<close> expects a tag as text, unlike \<open>CreateTag\<close> of the store.\<close>

definition TagsCreate :: "(string \<Rightarrow> (string \<times> string) result) \<Rightarrow> (string \<Rightarrow> string \<Rightarrow> 's \<Rightarrow> string result \<times> 's) \<Rightarrow> 's handler" where
  "TagsCreate unmarshal createTag req s = (case Body req of
       Inl e \<Rightarrow> (ErrorReply BadRequest (Some e) ''failed reading request body'', s)
     | Inr bodyBytes \<Rightarrow> (case unmarshal bodyBytes of
         Inl e \<Rightarrow> (ErrorReply BadRequest (Some e) ''failed parsing request body'', s)
       | Inr (groupType, groupGuid) \<Rightarrow> (case createTag groupGuid groupType s of
           (Inl e, s) \<Rightarrow> (ErrorReply InternalServerError (Some e) ''database create failed'', s)
         | (Inr tag, s) \<Rightarrow> (OK (''{ '' @ [CHR 0x22] @ ''tag'' @ [CHR 0x22] @ '': '' @ [CHR 0x22] @ tag @ [CHR 0x22] @ '' }''), s))))"

definition Health :: "'s dataStore \<Rightarrow> 's handler" where
  "Health ds req s = (case ds_CheckDatabase ds s of
       (Inl e, s) \<Rightarrow> (ErrorReply InternalServerError (Some e) ''check database failed'', s)
     | (Inr _, s) \<Rightarrow> (Empty, s))"

text \<open>\<^verbatim>\<open>has_responder\<close>: whether the handler was built with an error responder; without one the error path crashes.\<close>

definition WhoAmIHandler :: "bool \<Rightarrow> (string \<Rightarrow> string result) \<Rightarrow> 's handler" where
  "WhoAmIHandler has_responder marshal req s = (case marshal (UserName (getTokenData req)) of
       Inl e \<Rightarrow> (if has_responder then ErrorReply InternalServerError (Some e) ''marshaling response failed''
                else Crash ''nil pointer dereference'', s)
     | Inr json \<Rightarrow> (OK json, s))"

definition UptimeHandler :: "string \<Rightarrow> 's handler" where
  "UptimeHandler uptime req s = (OK (''Network policy server, up for '' @ uptime @ [CHR 10]), s)"

subsection \<open>CORS\<close>

record route =
  route_Name :: string
  route_Method :: string
  route_Path :: string

definition routeInRoutes :: "route \<Rightarrow> route list \<Rightarrow> bool" where
  "routeInRoutes r routes = list_ex (\<lambda>r'. r' = r) routes"

text \<open>The loop ranges over the routes it was called with while the list it checks and appends to grows.\<close>

definition AddOptionsRoutes :: "string \<Rightarrow> route list \<Rightarrow> route list" where
  "AddOptionsRoutes handlerName routes =
     fold (\<lambda>r acc. let optionRoute = \<lparr>route_Name = handlerName, route_Method = ''OPTIONS'', route_Path = route_Path r\<rparr> in
             if routeInRoutes optionRoute acc then acc else acc @ [optionRoute]) routes routes"

text \<open>
  \<open>matchRoute\<close>: every \<^verbatim>\<open>:name\<close> of the route's path becomes \<^verbatim>\<open>\w+\<close> and the path must match as a whole. The
  other characters of a route's path stand for themselves: the paths of the program contain no
  character that is special in a regular expression.
\<close>

definition word_char :: "char \<Rightarrow> bool" where
  "word_char c \<longleftrightarrow> alphanumeric c \<or> c = CHR ''_''"

datatype path_token = Lit char | Word

function path_tokens :: "string \<Rightarrow> path_token list" where
  "path_tokens [] = []"
| "path_tokens [c] = [Lit c]"
| "path_tokens (c # d # s) =
     (if c = CHR '':'' \<and> word_char d then Word # path_tokens (dropWhile word_char s) else Lit c # path_tokens (d # s))"
  by pat_completeness auto
termination
  by (relation "measure length") (auto simp: less_Suc_eq_le le_Suc_eq length_dropWhile_le)

function match_tokens :: "path_token list \<Rightarrow> string \<Rightarrow> bool" where
  "match_tokens [] s = (s = [])"
| "match_tokens (Lit c # ts) s = (case s of [] \<Rightarrow> False | d # s' \<Rightarrow> c = d \<and> match_tokens ts s')"
| "match_tokens (Word # ts) s = (case s of [] \<Rightarrow> False
     | d # s' \<Rightarrow> word_char d \<and> (match_tokens ts s' \<or> match_tokens (Word # ts) s'))"
  by pat_completeness auto
termination
  by (relation "measure (\<lambda>(ts, s). length s)") auto

definition matchRoute :: "string \<Rightarrow> string \<Rightarrow> bool" where
  "matchRoute rataPath requestPath = match_tokens (path_tokens rataPath) requestPath"

fun allowedOrigin :: "string list \<Rightarrow> string list \<Rightarrow> string option" where
  "allowedOrigin [] origins = None"
| "allowedOrigin (allowed # rest) origins = (case origins of
       [] \<Rightarrow> None
     | requestOrigin # _ \<Rightarrow>
         if allowed = requestOrigin \<or> allowed = ''*'' then Some allowed else allowedOrigin rest origins)"

text \<open>The response headers the wrapper sets, before the reply of the wrapped handler.\<close>

definition cors_headers :: "route list \<Rightarrow> string list \<Rightarrow> request \<Rightarrow> (string \<times> string) list" where
  "cors_headers routes allowedDomains req =
     (if Method req = ''OPTIONS''
      then [(''Access-Control-Allow-Methods'',
             join_with '','' (map route_Method (filter (\<lambda>r. matchRoute (route_Path r) (URLPath req)) routes))),
            (''Access-Control-Allow-Headers'', ''authorization'')]
      else []) @
     (case allowedOrigin allowedDomains (Origin req) of
        Some o' \<Rightarrow> [(''Access-Control-Allow-Origin'', o')] | None \<Rightarrow> [])"

definition cors_Wrap :: "route list \<Rightarrow> string list \<Rightarrow> 's handler \<Rightarrow> request \<Rightarrow> 's \<Rightarrow> ((string \<times> string) list \<times> reply) \<times> 's" where
  "cors_Wrap routes allowedDomains handler req s =
     (case handler req s of (r, s) \<Rightarrow> ((cors_headers routes allowedDomains req, r), s))"

subsection \<open>The external server\<close>

definition externalRoutes :: "route list" where
  "externalRoutes = map (\<lambda>(n, mt, p). \<lparr>route_Name = n, route_Method = mt, route_Path = p\<rparr>)
     [(''uptime'', ''GET'', ''/''), (''uptime'', ''GET'', ''/networking''), (''health'', ''GET'', ''/health''),
      (''whoami'', ''GET'', ''/networking/:version/external/whoami''),
      (''create_policies'', ''POST'', ''/networking/:version/external/policies''),
      (''delete_policies'', ''POST'', ''/networking/:version/external/policies/delete''),
      (''policies_index'', ''GET'', ''/networking/:version/external/policies''),
      (''cleanup'', ''POST'', ''/networking/:version/external/policies/cleanup''),
      (''tags_index'', ''GET'', ''/networking/:version/external/tags'')]"

text \<open>
  What \<^verbatim>\<open>main\<close> wires into the handlers: the clients, the JSON functions, the text of errors, the
  configuration, the order of map iteration and the uptime.
\<close>

record environment =
  env_uaa :: uaaClient
  env_cc :: ccClient
  env_getLive :: "string \<Rightarrow> string list \<Rightarrow> string list result"
  env_mapper1 :: policyMapper
  env_mapper0 :: policyMapper
  env_marshalTags :: "api_Tag list \<Rightarrow> string result"
  env_marshalWho :: "string \<Rightarrow> string result"
  env_errText :: "go_error \<Rightarrow> string"
  env_rng :: "string list \<Rightarrow> string list"
  MaxPolicies :: int
  EnableSpaceDeveloperSelfService :: bool
  AllowedCORSDomains :: "string list"
  env_uptime :: string

definition versionWrap :: "'s handler \<Rightarrow> 's handler \<Rightarrow> 's handler" where
  "versionWrap v1Handler v0Handler = CheckVersion [(''v1'', v1Handler), (''v0'', v0Handler)]"

definition authAdminWrap :: "environment \<Rightarrow> 's handler \<Rightarrow> 's handler" where
  "authAdminWrap env = auth_Wrap \<lparr>CheckTokenFn = uaa_CheckToken (env_uaa env), Scopes = [''network.admin''], ScopeChecking = True\<rparr>"

definition authWriteWrap :: "environment \<Rightarrow> 's handler \<Rightarrow> 's handler" where
  "authWriteWrap env = auth_Wrap \<lparr>CheckTokenFn = uaa_CheckToken (env_uaa env), Scopes = [''network.admin'', ''network.write''],
     ScopeChecking = (\<not> EnableSpaceDeveloperSelfService env)\<rparr>"

definition create_handler :: "environment \<Rightarrow> 's dataStore \<Rightarrow> policyMapper \<Rightarrow> 's handler" where
  "create_handler env ds mapper = PoliciesCreate (env_errText env) ds mapper
     (PolicyGuard_CheckAccess (env_rng env) (env_cc env) (env_uaa env))
     (QuotaGuard_CheckAccess (env_rng env) ds (MaxPolicies env))"

definition delete_handler :: "environment \<Rightarrow> 's dataStore \<Rightarrow> policyMapper \<Rightarrow> 's handler" where
  "delete_handler env ds mapper = PoliciesDelete (env_errText env) ds mapper
     (PolicyGuard_CheckAccess (env_rng env) (env_cc env) (env_uaa env))"

definition index_handler :: "environment \<Rightarrow> 's dataStore \<Rightarrow> policyMapper \<Rightarrow> 's handler" where
  "index_handler env ds mapper = PoliciesIndex ds mapper (FilterPolicies (env_rng env) (env_cc env) (env_uaa env) 100)"

definition cleanup_handler :: "environment \<Rightarrow> 's dataStore \<Rightarrow> 's handler" where
  "cleanup_handler env ds = PoliciesCleanup (env_mapper1 env)
     (DeleteStalePolicies (env_rng env) (uaa_GetToken (env_uaa env)) (env_getLive env) 100 ds)"

definition externalHandlers :: "environment \<Rightarrow> 's dataStore \<Rightarrow> (string \<times> 's handler) list" where
  "externalHandlers env ds =
     [(''options'', \<lambda>req s. (Empty, s)),
      (''uptime'', UptimeHandler (env_uptime env)),
      (''health'', Health ds),
      (''create_policies'', versionWrap (authWriteWrap env (create_handler env ds (env_mapper1 env)))
                                       (authWriteWrap env (create_handler env ds (env_mapper0 env)))),
      (''delete_policies'', versionWrap (authWriteWrap env (delete_handler env ds (env_mapper1 env)))
                                       (authWriteWrap env (delete_handler env ds (env_mapper0 env)))),
      (''policies_index'', versionWrap (authWriteWrap env (index_handler env ds (env_mapper1 env)))
                                      (authWriteWrap env (index_handler env ds (env_mapper0 env)))),
      (''cleanup'', versionWrap (authAdminWrap env (cleanup_handler env ds)) (authAdminWrap env (cleanup_handler env ds))),
      (''tags_index'', versionWrap (authAdminWrap env (TagsIndex ds (env_marshalTags env)))
                                  (authAdminWrap env (TagsIndex ds (env_marshalTags env)))),
      (''whoami'', versionWrap (authAdminWrap env (WhoAmIHandler False (env_marshalWho env)))
                              (authAdminWrap env (WhoAmIHandler False (env_marshalWho env))))]"

definition serve_external :: "environment \<Rightarrow> 's dataStore \<Rightarrow> string \<Rightarrow> request \<Rightarrow> 's \<Rightarrow> (((string \<times> string) list \<times> reply) \<times> 's) option" where
  "serve_external env ds name req s = (case map_of (externalHandlers env ds) name of
       None \<Rightarrow> None
     | Some h \<Rightarrow> Some (cors_Wrap (AddOptionsRoutes ''options'' externalRoutes) (AllowedCORSDomains env) h req s))"


subsection \<open>The internal server\<close>

definition internalHandlers :: "'s dataStore \<Rightarrow> policyMapper \<Rightarrow> policyMapper \<Rightarrow> (string \<times> 's handler) list" where
  "internalHandlers ds policyMapperV1 policyMapperV0Internal =
     [(''internal_policies'', versionWrap (PoliciesIndexInternal ds policyMapperV1)
                                         (PoliciesIndexInternal ds policyMapperV0Internal))]"

definition healthHandlers :: "string \<Rightarrow> 's dataStore \<Rightarrow> (string \<times> 's handler) list" where
  "healthHandlers uptime ds = [(''uptime'', UptimeHandler uptime), (''health'', Health ds)]"

text \<open>\<^verbatim>\<open>server_metrics.go\<close>: the getter of the metric \<^verbatim>\<open>totalPolicies\<close>, which reports the count beside the error.\<close>

definition TotalPoliciesSource :: "'s dataStore \<Rightarrow> 's \<Rightarrow> (int \<times> go_error option) \<times> 's" where
  "TotalPoliciesSource ds s = (case ds_All ds s of
       (Inl e, s) \<Rightarrow> ((0, Some e), s) | (Inr ps, s) \<Rightarrow> ((int (length ps), None), s))"


end
