(* ===== verification/Server_Props.thy ===== *)
theory Server_Props
  imports Handlers
begin

text \<open>
  The properties of the policy server as a whole: who may call what, what a request changes in the
  policy set, the quota, and what a reader gets to see. They rest on the contract \<open>data_store\<close>,
  through its interpretation on the metered store.
\<close>

subsection \<open>Handlers over any store that keeps the contract\<close>

declare trim_prefix.simps [simp del]

lemma scope_allowed_iff: "scope_allowed x allowed \<longleftrightarrow> x \<in> set allowed"
  by (induction allowed) auto

lemma isAuthorized_iff: "isAuthorized scopes allowed \<longleftrightarrow> set scopes \<inter> set allowed \<noteq> {}"
  by (induction scopes) (auto simp: scope_allowed_iff)

definition bearer_token :: "string \<Rightarrow> string" where
  "bearer_token h = trim_prefix ''bearer '' (trim_prefix ''Bearer '' h)"

text \<open>The token data under which an authenticator passes a request on.\<close>

definition admitted :: "authenticator \<Rightarrow> request \<Rightarrow> CheckTokenResponse option" where
  "admitted a req = (case Authorization req of
       [] \<Rightarrow> None
     | h # _ \<Rightarrow> (case CheckTokenFn a (bearer_token h) of
         Inl _ \<Rightarrow> None
       | Inr t \<Rightarrow> if ScopeChecking a \<and> set (Scope t) \<inter> set (Scopes a) = {} then None else Some t))"

lemma auth_Wrap_admitted:
  "admitted a req = Some t \<Longrightarrow>
     auth_Wrap a h req s = h (req\<lparr>Body := limit_body (Body req), TokenData := Some t\<rparr>) s"
  by (auto simp: admitted_def auth_Wrap_def isAuthorized_iff bearer_token_def split: list.splits sum.splits if_splits)

lemma auth_Wrap_refused:
  assumes "admitted a req = None"
  obtains kind e msg where "auth_Wrap a h req s = (ErrorReply kind (Some e) msg, s)" "kind = Unauthorized \<or> kind = Forbidden"
  using assms
  by (auto simp: admitted_def auth_Wrap_def isAuthorized_iff bearer_token_def Let_def split: list.splits sum.splits if_splits)

definition reply_ok :: "reply \<Rightarrow> bool" where
  "reply_ok r \<longleftrightarrow> (\<exists>b. r = OK b)"

lemma reply_ok_simps [simp]: "reply_ok (OK b)" "\<not> reply_ok (ErrorReply k e m)" "\<not> reply_ok (WriteHeader n)" "\<not> reply_ok Empty" "\<not> reply_ok (Crash m)"
  by (simp_all add: reply_ok_def)

context data_store
begin

text \<open>A create request changes the policy set only when it is answered OK.\<close>

lemma PoliciesCreate_effect:
  assumes "valid s" "PoliciesCreate errText ds mapper pg (QuotaGuard_CheckAccess rng ds mx) req s = (r, s')"
  shows "valid s' \<and>
    (if reply_ok r
     then (\<exists>b ps s1. Body req = Inr b \<and> m_AsStorePolicy mapper b = Inr ps \<and> pg ps (getTokenData req) = Inr True \<and>
        QuotaGuard_CheckAccess rng ds mx ps (getTokenData req) s = (Inr True, s1) \<and>
        stored s' = stored s \<union> key_of ` set ps)
     else stored s' = stored s)"
proof (cases "\<exists>b ps. Body req = Inr b \<and> m_AsStorePolicy mapper b = Inr ps \<and> pg ps (getTokenData req) = Inr True")
  case False
  then show ?thesis using assms
    by (auto simp: PoliciesCreate_def Let_def split: sum.splits if_splits)
next
  case True
  then obtain b ps where g: "Body req = Inr b" "m_AsStorePolicy mapper b = Inr ps" "pg ps (getTokenData req) = Inr True" by blast
  obtain q s1 where q: "QuotaGuard_CheckAccess rng ds mx ps (getTokenData req) s = (q, s1)" by fastforce
  note keep = QuotaGuard_keeps [OF assms(1) q]
  obtain r2 s2 where c: "ds_Create ds ps s1 = (r2, s2)" by fastforce
  have v1: "valid s1" using keep by blast
  note cr = create [OF v1 c]
  show ?thesis
  proof (cases "q = Inr True \<and> is_ok r2")
    case True
    then show ?thesis using assms(2) g q c keep cr by (auto simp: PoliciesCreate_def Let_def)
  next
    case False
    then show ?thesis using assms(2) g q c keep cr
      by (auto simp: PoliciesCreate_def Let_def split: sum.splits if_splits)
  qed
qed

lemma PoliciesDelete_effect:
  assumes "valid s" "PoliciesDelete errText ds mapper pg req s = (r, s')"
  shows "valid s' \<and>
    (if reply_ok r
     then (\<exists>b ps. Body req = Inr b \<and> m_AsStorePolicy mapper b = Inr ps \<and> pg ps (getTokenData req) = Inr True \<and>
        stored s' = stored s - key_of ` set ps)
     else stored s' = stored s)"
proof (cases "\<exists>b ps. Body req = Inr b \<and> m_AsStorePolicy mapper b = Inr ps \<and> pg ps (getTokenData req) = Inr True")
  case False
  then show ?thesis using assms
    by (auto simp: PoliciesDelete_def Let_def split: sum.splits if_splits)
next
  case True
  then obtain b ps where g: "Body req = Inr b" "m_AsStorePolicy mapper b = Inr ps" "pg ps (getTokenData req) = Inr True" by blast
  obtain r2 s2 where d: "ds_Delete ds ps s = (r2, s2)" by fastforce
  show ?thesis using assms(2) g d delete [OF assms(1) d]
    by (cases r2) (auto simp: PoliciesDelete_def Let_def)
qed

end

text \<open>The policies an index request asks for.\<close>

definition asked :: "request \<Rightarrow> policy_key set \<Rightarrow> policy_key set" where
  "asked req K = (let ids = parseIds (URLQuery req); srcs = parseSourceIds (URLQuery req); dsts = parseDestIds (URLQuery req) in
     if ids \<noteq> [] then {k \<in> K. k_src k \<in> set ids \<or> k_dst k \<in> set ids}
     else {k \<in> K. (srcs = [] \<or> k_src k \<in> set srcs) \<and> (dsts = [] \<or> k_dst k \<in> set dsts)})"

context data_store
begin

lemma PoliciesIndex_effect:
  assumes "valid s" "PoliciesIndex ds mapper filt req s = (r, s')"
  shows "valid s' \<and> stored s' = stored s \<and>
    (\<forall>body. r = OK body \<longrightarrow> (\<exists>ps shown. represents (asked req (stored s)) ps \<and>
       filt ps (getTokenData req) = Inr shown \<and> m_AsBytes mapper (map clear_tags shown) = Inr body))"
proof -
  let ?ids = "parseIds (URLQuery req)" and ?src = "parseSourceIds (URLQuery req)" and ?dst = "parseDestIds (URLQuery req)"
  obtain q s1 where q: "(if length ?ids > 0 then ds_ByGuids ds ?ids ?ids False s
            else if length ?src > 0 \<and> length ?dst > 0 then ds_ByGuids ds ?src ?dst True s
            else if length ?src > 0 then ds_ByGuids ds ?src [] False s
            else if length ?dst > 0 then ds_ByGuids ds [] ?dst False s
            else ds_All ds s) = (q, s1)" by fastforce
  have rd: "valid s1 \<and> stored s1 = stored s \<and> (\<forall>ps. q = Inr ps \<longrightarrow> represents (asked req (stored s)) ps)"
  proof (cases "?ids = [] \<and> ?src = [] \<and> ?dst = []")
    case True
    then show ?thesis using all [OF assms(1), of q s1] q by (simp add: asked_def)
  next
    case False
    then obtain srcs dsts both where bg: "ds_ByGuids ds srcs dsts both s = (q, s1)"
      "guids_query srcs dsts both (stored s) = asked req (stored s)"
      using q that [of ?ids ?ids False] that [of ?src ?dst True] that [of ?src "[]" False] that [of "[]" ?dst False]
      by (auto simp: asked_def Let_def guids_query_def guids_select_def split: if_splits)
    show ?thesis using by_guids [OF assms(1) bg(1)] bg(2) by simp
  qed
  have "s' = s1 \<and> (\<forall>body. r = OK body \<longrightarrow> (\<exists>ps shown. q = Inr ps \<and>
       filt ps (getTokenData req) = Inr shown \<and> m_AsBytes mapper (map clear_tags shown) = Inr body))"
  proof (cases q)
    case (Inl e)
    then show ?thesis using assms(2) unfolding PoliciesIndex_def Let_def q by auto
  next
    case (Inr ps)
    have "(case filt ps (getTokenData req) of
          Inl e \<Rightarrow> (ErrorReply InternalServerError (Some e) ''filter policies failed'', s1)
        | Inr shown \<Rightarrow> (case m_AsBytes mapper (map clear_tags shown) of
            Inl e \<Rightarrow> (ErrorReply InternalServerError (Some e) ''map policy as bytes failed'', s1)
          | Inr bytes \<Rightarrow> (OK bytes, s1))) = (r, s')"
      using assms(2) unfolding PoliciesIndex_def Let_def q by (simp add: Inr)
    then show ?thesis using Inr by (auto split: sum.splits)
  qed
  then have s': "s' = s1" and ok: "\<And>body. r = OK body \<Longrightarrow> (\<exists>ps shown. q = Inr ps \<and>
       filt ps (getTokenData req) = Inr shown \<and> m_AsBytes mapper (map clear_tags shown) = Inr body)" by simp_all
  have "\<exists>ps shown. represents (asked req (stored s)) ps \<and>
       filt ps (getTokenData req) = Inr shown \<and> m_AsBytes mapper (map clear_tags shown) = Inr body" if "r = OK body" for body
    using ok [OF that] rd by metis
  then show ?thesis using rd s' by simp
qed

end

subsection \<open>Requests to the external server\<close>

definition write_auth :: "environment \<Rightarrow> authenticator" where
  "write_auth env = \<lparr>CheckTokenFn = uaa_CheckToken (env_uaa env), Scopes = [''network.admin'', ''network.write''],
     ScopeChecking = (\<not> EnableSpaceDeveloperSelfService env)\<rparr>"

definition admin_auth :: "environment \<Rightarrow> authenticator" where
  "admin_auth env = \<lparr>CheckTokenFn = uaa_CheckToken (env_uaa env), Scopes = [''network.admin''], ScopeChecking = True\<rparr>"

definition mapper_for :: "environment \<Rightarrow> string \<Rightarrow> policyMapper" where
  "mapper_for env v = (if v = ''v1'' then env_mapper1 env else env_mapper0 env)"

lemma authWrite_eq: "authWriteWrap env = auth_Wrap (write_auth env)"
  by (simp add: authWriteWrap_def write_auth_def)

lemma authAdmin_eq: "authAdminWrap env = auth_Wrap (admin_auth env)"
  by (simp add: authAdminWrap_def admin_auth_def)

lemma versionWrap_cases:
  "versionWrap h1 h0 req s = (if VersionParam req = ''v1'' then h1 req s else if VersionParam req = ''v0'' then h0 req s
     else (ErrorReply NotAcceptable None (''api version '' @ [CHR 0x27] @ VersionParam req @ [CHR 0x27] @ '' not supported''), s))"
  by (auto simp: versionWrap_def CheckVersion_def)

text \<open>
  A request to a protected route either never reaches its handler, and leaves the state alone, or
  reaches it with the token data of an admitted user and a body of bounded size.
\<close>

definition protected :: "environment \<Rightarrow> authenticator \<Rightarrow> (policyMapper \<Rightarrow> 's handler) \<Rightarrow> 's handler" where
  "protected env a h = versionWrap (auth_Wrap a (h (env_mapper1 env))) (auth_Wrap a (h (env_mapper0 env)))"

lemma protected_cases:
  assumes "protected env a h req s = (r, s')"
  obtains (refused) kind e msg where "r = ErrorReply kind e msg" "s' = s"
    "kind \<in> {Unauthorized, Forbidden, NotAcceptable}"
    "admitted a req = None \<or> VersionParam req \<notin> {''v1'', ''v0''}"
  | (served) t where "admitted a req = Some t" "VersionParam req \<in> {''v1'', ''v0''}"
    "h (mapper_for env (VersionParam req)) (req\<lparr>Body := limit_body (Body req), TokenData := Some t\<rparr>) s = (r, s')"
proof (cases "VersionParam req \<in> {''v1'', ''v0''}")
  case False
  then show thesis using assms refused by (auto simp: protected_def versionWrap_cases)
next
  case True
  then have run: "auth_Wrap a (h (mapper_for env (VersionParam req))) req s = (r, s')"
    using assms by (auto simp: protected_def versionWrap_cases mapper_for_def split: if_splits)
  show thesis
  proof (cases "admitted a req")
    case None
    then obtain kind e msg where "auth_Wrap a (h (mapper_for env (VersionParam req))) req s = (ErrorReply kind (Some e) msg, s)"
      "kind = Unauthorized \<or> kind = Forbidden" by (rule auth_Wrap_refused)
    with run None show thesis by (intro refused [of kind "Some e" msg]) auto
  next
    case (Some t)
    with run True show thesis by (intro served) (auto simp: auth_Wrap_admitted)
  qed
qed

lemma serve_external_protected:
  "serve_external env ds ''create_policies'' req s = Some (cors_Wrap (AddOptionsRoutes ''options'' externalRoutes)
     (AllowedCORSDomains env) (protected env (write_auth env) (create_handler env ds)) req s)"
  "serve_external env ds ''delete_policies'' req s = Some (cors_Wrap (AddOptionsRoutes ''options'' externalRoutes)
     (AllowedCORSDomains env) (protected env (write_auth env) (delete_handler env ds)) req s)"
  "serve_external env ds ''policies_index'' req s = Some (cors_Wrap (AddOptionsRoutes ''options'' externalRoutes)
     (AllowedCORSDomains env) (protected env (write_auth env) (index_handler env ds)) req s)"
  "serve_external env ds ''cleanup'' req s = Some (cors_Wrap (AddOptionsRoutes ''options'' externalRoutes)
     (AllowedCORSDomains env) (protected env (admin_auth env) (\<lambda>_. cleanup_handler env ds)) req s)"
  "serve_external env ds ''tags_index'' req s = Some (cors_Wrap (AddOptionsRoutes ''options'' externalRoutes)
     (AllowedCORSDomains env) (protected env (admin_auth env) (\<lambda>_. TagsIndex ds (env_marshalTags env))) req s)"
  "serve_external env ds ''whoami'' req s = Some (cors_Wrap (AddOptionsRoutes ''options'' externalRoutes)
     (AllowedCORSDomains env) (protected env (admin_auth env) (\<lambda>_. WhoAmIHandler False (env_marshalWho env))) req s)"
  by (simp_all add: serve_external_def externalHandlers_def protected_def authWrite_eq authAdmin_eq)

lemma cors_Wrap_run: "cors_Wrap rs ds h req s = ((hs, r), s') \<Longrightarrow> h req s = (r, s')"
  by (auto simp: cors_Wrap_def split: prod.splits)


subsection \<open>Properties\<close>

text \<open>C5. The routes for policies, tags, clean-up and identity answer nobody without an accepted token:
  when the authorization header is missing, the token is refused, or the required scope is missing,
  the reply is an error and the database and the metrics are untouched. Clean-up, tags and identity
  need the admin scope; the policy routes need the admin or the write scope, unless self-service is
  enabled.\<close>

theorem protected_routes_refuse:
  fixes ds :: "'s dataStore"
  assumes "name \<in> {''create_policies'', ''delete_policies'', ''policies_index''} \<and> admitted (write_auth env) req = None \<or>
     name \<in> {''cleanup'', ''tags_index'', ''whoami''} \<and> admitted (admin_auth env) req = None"
  shows "\<exists>hs kind e msg. serve_external env ds name req s = Some ((hs, ErrorReply kind e msg), s) \<and>
     kind \<in> {Unauthorized, Forbidden, NotAcceptable}"
proof -
  have refused: "\<exists>hs kind e msg. cors_Wrap rs dom (protected env a h) req s = ((hs, ErrorReply kind e msg), s) \<and>
      kind \<in> {Unauthorized, Forbidden, NotAcceptable}" if "admitted a req = None" for rs dom a and h :: "policyMapper \<Rightarrow> 's handler"
  proof -
    obtain r s' where run: "protected env a h req s = (r, s')" by fastforce
    then show ?thesis by (cases rule: protected_cases) (use that in \<open>auto simp: cors_Wrap_def run\<close>)
  qed
  from assms show ?thesis
    by (elim disjE conjE insertE emptyE) (simp_all only: serve_external_protected option.inject refused)
qed

definition demo_mapper :: policyMapper where
  "demo_mapper = \<lparr>m_AsStorePolicy = (\<lambda>b. if b = ''a-to-c'' then Inr [demo_policy ''a'' ''c'' 81] else Inl (JsonError b)),
     m_AsBytes = (\<lambda>ps. Inr (join_with '','' (map (\<lambda>p. dst_ID (pol_Destination p)) ps)))\<rparr>"

definition demo_env :: environment where
  "demo_env = \<lparr>env_uaa = demo_uaa, env_cc = demo_cc, env_getLive = (\<lambda>_ gs. Inr gs), env_mapper1 = demo_mapper,
     env_mapper0 = demo_mapper, env_marshalTags = (\<lambda>_. Inr ''''), env_marshalWho = Inr, env_errText = (\<lambda>_. ''''),
     env_rng = rev, MaxPolicies = 2, EnableSpaceDeveloperSelfService = False, AllowedCORSDomains = [], env_uptime = ''1s''\<rparr>"

definition demo_request :: "string list \<Rightarrow> request" where
  "demo_request auth = \<lparr>Method = ''POST'', URLPath = ''/'', Authorization = auth, Origin = [], URLQuery = [(''id'', [''a,c''])],
     Body = Inr ''a-to-c'', VersionParam = ''v1'', TokenData = None\<rparr>"

theorem protected_routes_refuse_witness:
  "\<exists>hs kind e msg. serve_external demo_env (metered_store demo_store) ''cleanup'' (demo_request [''Bearer t'']) demo_world =
     Some ((hs, ErrorReply kind e msg), demo_world) \<and> kind \<in> {Unauthorized, Forbidden, NotAcceptable}"
proof (rule protected_routes_refuse)
  have "admitted (admin_auth demo_env) (demo_request [''Bearer t'']) = None" by code_simp
  then show "''cleanup'' \<in> {''create_policies'', ''delete_policies'', ''policies_index''} \<and>
      admitted (write_auth demo_env) (demo_request [''Bearer t'']) = None \<or>
     ''cleanup'' \<in> {''cleanup'', ''tags_index'', ''whoami''} \<and>
      admitted (admin_auth demo_env) (demo_request [''Bearer t'']) = None" by simp
qed

lemma serve_external_some:
  assumes "name \<in> {''create_policies'', ''delete_policies'', ''policies_index''}"
  obtains hs r s' where "serve_external env ds name req s = Some ((hs, r), s')"
proof -
  have "serve_external env ds name req s \<noteq> None"
    using assms by (elim insertE emptyE) (simp_all only: serve_external_protected option.distinct not_False_eq_True)
  then obtain x where "serve_external env ds name req s = Some x" by blast
  then show thesis using that by (metis prod.exhaust)
qed

text \<open>C3. The effect of a create request: only a request that is answered OK changes the policy set, and
  it adds exactly the policies its body maps to, which passed the access guard. If the user has no
  admin scope, every application named in the request ends with at most \<^verbatim>\<open>MaxPolicies\<close> policies of
  which it is the source.\<close>

theorem create_request_effect:
  assumes "serve_external env (metered_store st) ''create_policies'' req w = Some ((hs, r), w')" "world_ok w"
  shows "world_ok w' \<and>
    (if reply_ok r
     then \<exists>t b ps. admitted (write_auth env) req = Some t \<and> Body req = Inr b \<and> length b \<le> MAX_REQ_BODY_SIZE \<and>
        m_AsStorePolicy (mapper_for env (VersionParam req)) b = Inr ps \<and>
        PolicyGuard_CheckAccess (env_rng env) (env_cc env) (env_uaa env) ps t = Inr True \<and>
        world_policies w' = world_policies w \<union> key_of ` set ps \<and>
        (is_range (env_rng env) \<and> ''network.admin'' \<notin> set (Scope t) \<longrightarrow>
          (\<forall>g \<in> (\<Union>p \<in> set ps. guids_of p). int (card {k \<in> world_policies w'. k_src k = g}) \<le> MaxPolicies env))
     else world_policies w' = world_policies w)"
proof -
  have run: "protected env (write_auth env) (create_handler env (metered_store st)) req w = (r, w')"
    using assms(1) by (auto simp: serve_external_protected dest: cors_Wrap_run)
  then show ?thesis
  proof (cases rule: protected_cases)
    case (served t)
    let ?req = "req\<lparr>Body := limit_body (Body req), TokenData := Some t\<rparr>"
    have tok: "getTokenData ?req = t" by (simp add: getTokenData_def)
    have body: "Body req = Inr b \<and> length b \<le> MAX_REQ_BODY_SIZE" if "Body ?req = Inr b" for b
      using that by (auto simp: limit_body_def split: sum.splits if_splits)
    note eff = metered.PoliciesCreate_effect [OF assms(2) served(3) [unfolded create_handler_def], unfolded tok]
    show ?thesis
    proof (cases "reply_ok r")
      case True
      then obtain b ps s1 where *: "Body ?req = Inr b" "m_AsStorePolicy (mapper_for env (VersionParam req)) b = Inr ps"
        "PolicyGuard_CheckAccess (env_rng env) (env_cc env) (env_uaa env) ps t = Inr True"
        "QuotaGuard_CheckAccess (env_rng env) (metered_store st) (MaxPolicies env) ps t w = (Inr True, s1)"
        "world_policies w' = world_policies w \<union> key_of ` set ps" using eff by auto
      with body [OF *(1)] served(1) eff True metered.QuotaGuard_bound [OF assms(2) *(4)] show ?thesis by auto
    next
      case False
      with eff show ?thesis by auto
    qed
  qed (use assms(2) in auto)
qed

theorem create_request_effect_witness:
  "\<exists>hs r w'. serve_external demo_env (metered_store demo_store) ''create_policies'' (demo_request [''Bearer t'']) demo_world =
     Some ((hs, r), w') \<and> world_ok w' \<and> world_policies demo_world \<subseteq> world_policies w'"
proof -
  obtain hs r w' where run: "serve_external demo_env (metered_store demo_store) ''create_policies''
      (demo_request [''Bearer t'']) demo_world = Some ((hs, r), w')"
    by (rule serve_external_some [of "''create_policies''"]) auto
  from create_request_effect [OF this] run show ?thesis by (auto split: if_splits)
qed

text \<open>C4. The effect of a delete request: only a request that is answered OK changes the policy set, and
  it removes exactly the policies its body maps to, which passed the access guard.\<close>

theorem delete_request_effect:
  assumes "serve_external env (metered_store st) ''delete_policies'' req w = Some ((hs, r), w')" "world_ok w"
  shows "world_ok w' \<and>
    (if reply_ok r
     then \<exists>t b ps. admitted (write_auth env) req = Some t \<and> Body req = Inr b \<and>
        m_AsStorePolicy (mapper_for env (VersionParam req)) b = Inr ps \<and>
        PolicyGuard_CheckAccess (env_rng env) (env_cc env) (env_uaa env) ps t = Inr True \<and>
        world_policies w' = world_policies w - key_of ` set ps
     else world_policies w' = world_policies w)"
proof -
  have run: "protected env (write_auth env) (delete_handler env (metered_store st)) req w = (r, w')"
    using assms(1) by (auto simp: serve_external_protected dest: cors_Wrap_run)
  then show ?thesis
  proof (cases rule: protected_cases)
    case (served t)
    let ?req = "req\<lparr>Body := limit_body (Body req), TokenData := Some t\<rparr>"
    have tok: "getTokenData ?req = t" by (simp add: getTokenData_def)
    have body: "Body req = Inr b" if "Body ?req = Inr b" for b
      using that by (auto simp: limit_body_def split: sum.splits if_splits)
    note eff = metered.PoliciesDelete_effect [OF assms(2) served(3) [unfolded delete_handler_def], unfolded tok]
    show ?thesis using eff served(1) body by (cases "reply_ok r") (auto dest: body)
  qed (use assms(2) in auto)
qed

theorem delete_request_effect_witness:
  "\<exists>hs r w'. serve_external demo_env (metered_store demo_store) ''delete_policies'' (demo_request [''Bearer t'']) demo_world =
     Some ((hs, r), w') \<and> world_ok w' \<and> world_policies w' \<subseteq> world_policies demo_world"
proof -
  obtain hs r w' where run: "serve_external demo_env (metered_store demo_store) ''delete_policies''
      (demo_request [''Bearer t'']) demo_world = Some ((hs, r), w')"
    by (rule serve_external_some [of "''delete_policies''"]) auto
  from delete_request_effect [OF this] run show ?thesis by (auto split: if_splits)
qed

text \<open>C26. An index request changes nothing, and what it shows is a filtered part of what was asked for:
  the body encodes, with the tags removed, the policies that the filter lets the user see among
  exactly the stored policies that match the \<^verbatim>\<open>id\<close>, \<^verbatim>\<open>source_id\<close> and \<^verbatim>\<open>dest_id\<close> parameters.\<close>

theorem index_request_shows:
  assumes "serve_external env (metered_store st) ''policies_index'' req w = Some ((hs, r), w')" "world_ok w"
  shows "world_ok w' \<and> world_policies w' = world_policies w \<and>
    (\<forall>body. r = OK body \<longrightarrow> (\<exists>t ps shown. admitted (write_auth env) req = Some t \<and>
       represents (asked req (world_policies w)) ps \<and>
       FilterPolicies (env_rng env) (env_cc env) (env_uaa env) 100 ps t = Inr shown \<and>
       m_AsBytes (mapper_for env (VersionParam req)) (map clear_tags shown) = Inr body))"
proof -
  have run: "protected env (write_auth env) (index_handler env (metered_store st)) req w = (r, w')"
    using assms(1) by (auto simp: serve_external_protected dest: cors_Wrap_run)
  then show ?thesis
  proof (cases rule: protected_cases)
    case (served t)
    let ?req = "req\<lparr>Body := limit_body (Body req), TokenData := Some t\<rparr>"
    have tok: "getTokenData ?req = t" and ask: "asked ?req = asked req"
      by (simp_all add: getTokenData_def asked_def fun_eq_iff)
    show ?thesis
      using metered.PoliciesIndex_effect [OF assms(2) served(3) [unfolded index_handler_def], unfolded tok ask] served(1)
      by auto
  qed (use assms(2) in auto)
qed


theorem index_request_shows_witness:
  "\<exists>hs r w'. serve_external demo_env (metered_store demo_store) ''policies_index'' (demo_request [''Bearer t'']) demo_world =
     Some ((hs, r), w') \<and> world_ok w' \<and> world_policies w' = world_policies demo_world"
proof -
  obtain hs r w' where run: "serve_external demo_env (metered_store demo_store) ''policies_index''
      (demo_request [''Bearer t'']) demo_world = Some ((hs, r), w')"
    by (rule serve_external_some [of "''policies_index''"]) auto
  from index_request_shows [OF this] run show ?thesis by auto
qed

text \<open>\<open>AddOptionsRoutes\<close> keeps every route, and adds for each path exactly one route for the method
  \<^verbatim>\<open>OPTIONS\<close>; if the routes were distinct they stay so.\<close>

theorem AddOptionsRoutes_complete:
  "set (AddOptionsRoutes h rs) = set rs \<union> {\<lparr>route_Name = h, route_Method = ''OPTIONS'', route_Path = route_Path r\<rparr> | r. r \<in> set rs} \<and>
   (distinct rs \<longrightarrow> distinct (AddOptionsRoutes h rs)) \<and> take (length rs) (AddOptionsRoutes h rs) = rs"
proof -
  let ?f = "\<lambda>r acc. let o' = \<lparr>route_Name = h, route_Method = ''OPTIONS'', route_Path = route_Path r\<rparr> in
             if routeInRoutes o' acc then acc else acc @ [o']"
  have "set (fold ?f xs acc) = set acc \<union> {\<lparr>route_Name = h, route_Method = ''OPTIONS'', route_Path = route_Path r\<rparr> | r. r \<in> set xs}
      \<and> (distinct acc \<longrightarrow> distinct (fold ?f xs acc)) \<and> take (length acc) (fold ?f xs acc) = acc" for xs acc
  proof (induction xs arbitrary: acc)
    case (Cons r xs)
    let ?acc = "?f r acc"
    have "set ?acc = insert \<lparr>route_Name = h, route_Method = ''OPTIONS'', route_Path = route_Path r\<rparr> (set acc)"
      "distinct acc \<longrightarrow> distinct ?acc" "take (length acc) ?acc = acc" "length acc \<le> length ?acc"
      by (auto simp: Let_def routeInRoutes_def list_ex_iff)
    moreover have "take (length acc) (fold ?f xs ?acc) = take (length acc) (take (length ?acc) (fold ?f xs ?acc))"
      using calculation(4) by (simp add: min_def)
    ultimately show ?case using Cons.IH [of ?acc] by auto
  qed simp
  then show ?thesis unfolding AddOptionsRoutes_def by blast
qed

subsection \<open>Preflight requests\<close>

lemma match_literals: "match_tokens (map Lit p @ ts) s \<longleftrightarrow> (\<exists>s'. s = p @ s' \<and> match_tokens ts s')"
  by (induction p arbitrary: s) (auto split: list.splits)

lemma match_Word_end: "\<not> word_char c \<Longrightarrow> \<not> match_tokens (Word # ts) (c # s)"
  by simp

lemma match_Word:
  assumes "\<not> word_char c" "v \<noteq> []" "list_all word_char v"
  shows "match_tokens (Word # Lit c # ts) (v @ c # s) \<longleftrightarrow> match_tokens (Lit c # ts) (c # s)"
  using assms(2,3)
proof (induction v)
  case (Cons d v)
  show ?case
  proof (cases v)
    case Nil
    then show ?thesis using Cons assms(1) by simp
  next
    case (Cons e u)
    then have "e \<noteq> c" using Cons.prems assms(1) by auto
    then show ?thesis using Cons Cons.prems Cons.IH by simp
  qed
qed simp

lemma match_versioned:
  assumes "v \<noteq> []" "list_all word_char v"
  shows "match_tokens (map Lit ''/networking/'' @ Word # map Lit (CHR ''/'' # q)) (''/networking/'' @ v @ CHR ''/'' # s) \<longleftrightarrow> s = q"
proof -
  have nw: "\<not> word_char (CHR ''/'')" by code_simp
  have "match_tokens (map Lit q) s \<longleftrightarrow> s = q" using match_literals [of q "[]" s] by simp
  then show ?thesis unfolding match_literals using match_Word [OF nw assms, of "map Lit q" s] by simp
qed

lemma options_routes:
  "AddOptionsRoutes ''options'' externalRoutes = externalRoutes @
     map (\<lambda>p. \<lparr>route_Name = ''options'', route_Method = ''OPTIONS'', route_Path = p\<rparr>)
       [''/'', ''/networking'', ''/health'', ''/networking/:version/external/whoami'',
        ''/networking/:version/external/policies'', ''/networking/:version/external/policies/delete'',
        ''/networking/:version/external/policies/cleanup'', ''/networking/:version/external/tags'']"
  by code_simp

lemma versioned_tokens:
  "path_tokens ''/networking/:version/external/whoami'' = map Lit ''/networking/'' @ Word # map Lit (CHR ''/'' # ''external/whoami'')"
  "path_tokens ''/networking/:version/external/policies'' = map Lit ''/networking/'' @ Word # map Lit (CHR ''/'' # ''external/policies'')"
  "path_tokens ''/networking/:version/external/policies/delete'' = map Lit ''/networking/'' @ Word # map Lit (CHR ''/'' # ''external/policies/delete'')"
  "path_tokens ''/networking/:version/external/policies/cleanup'' = map Lit ''/networking/'' @ Word # map Lit (CHR ''/'' # ''external/policies/cleanup'')"
  "path_tokens ''/networking/:version/external/tags'' = map Lit ''/networking/'' @ Word # map Lit (CHR ''/'' # ''external/tags'')"
  "path_tokens ''/'' = map Lit ''/'' @ []" "path_tokens ''/networking'' = map Lit ''/networking'' @ []"
  "path_tokens ''/health'' = map Lit ''/health'' @ []"
  by code_simp+

lemma policy_methods:
  assumes "\<not> P ''/''" "\<not> P ''/networking''" "\<not> P ''/health''" "\<not> P ''/networking/:version/external/whoami''"
    "P ''/networking/:version/external/policies''" "\<not> P ''/networking/:version/external/policies/delete''"
    "\<not> P ''/networking/:version/external/policies/cleanup''" "\<not> P ''/networking/:version/external/tags''"
  shows "map route_Method (filter (\<lambda>r. P (route_Path r)) (AddOptionsRoutes ''options'' externalRoutes)) =
      [''POST'', ''GET'', ''OPTIONS'']"
  unfolding options_routes by (simp add: externalRoutes_def assms)

text \<open>A preflight request for a policy path is answered with the methods of all the routes of that
  path, whatever the version in it: a path parameter matches any non-empty word.\<close>

theorem preflight_methods:
  assumes "v \<noteq> ''''" "list_all word_char v" "Method req = ''OPTIONS''" "URLPath req = ''/networking/'' @ v @ ''/external/policies''"
  shows "map_of (cors_headers (AddOptionsRoutes ''options'' externalRoutes) domains req) ''Access-Control-Allow-Methods'' =
     Some ''POST,GET,OPTIONS''"
proof -
  let ?path = "''/networking/'' @ v @ CHR ''/'' # ''external/policies''"
  have m: "match_tokens (map Lit ''/networking/'' @ Word # map Lit (CHR ''/'' # q)) ?path \<longleftrightarrow> q = ''external/policies''" for q
    using match_versioned [OF assms(1,2), of q "''external/policies''"] by auto
  have lit: "\<not> match_tokens (map Lit ''/'' @ []) ?path" "\<not> match_tokens (map Lit ''/networking'' @ []) ?path"
      "\<not> match_tokens (map Lit ''/health'' @ []) ?path"
    unfolding match_literals by simp_all
  have "map route_Method (filter (\<lambda>r. matchRoute (route_Path r) ?path) (AddOptionsRoutes ''options'' externalRoutes)) =
      [''POST'', ''GET'', ''OPTIONS'']"
    by (rule policy_methods; unfold matchRoute_def versioned_tokens m) (rule lit | simp)+
  then show ?thesis using assms(3,4) by (simp add: cors_headers_def)
qed

theorem preflight_methods_witness:
  "map_of (cors_headers (AddOptionsRoutes ''options'' externalRoutes) [] ((demo_request [])\<lparr>Method := ''OPTIONS'',
     URLPath := ''/networking/v1/external/policies''\<rparr>)) ''Access-Control-Allow-Methods'' = Some ''POST,GET,OPTIONS''"
proof (rule preflight_methods [where v = "''v1''"])
  show "list_all word_char ''v1''" by code_simp
qed simp_all


end
