(* ===== verification/Policy_Client.thy ===== *)
theory Policy_Client
  imports Policy_API
begin

text \<open>
  \<^verbatim>\<open>lib/policy_client\<close> and \<^verbatim>\<open>lib/poller\<close>: the clients of the external and the internal policy API, the
  chunking of version-0 requests, and the polling loop. \<^verbatim>\<open>JsonClient.Do\<close> is a parameter, one function
  for every type of request and response; \<open>'w\<close> is the state behind it.
\<close>

subsection \<open>Chunker\<close>

definition DefaultMaxPolicies :: int where
  "DefaultMaxPolicies = 100"

definition getChunkSize :: "int \<Rightarrow> int" where
  "getChunkSize ChunkSize = (if ChunkSize \<le> 0 then DefaultMaxPolicies else ChunkSize)"

definition Chunk :: "int \<Rightarrow> 'a list \<Rightarrow> 'a list list" where
  "Chunk ChunkSize allPolicies = chunk_loop (nat (getChunkSize ChunkSize)) allPolicies 0"

lemma Chunk_concat: "concat (Chunk n ps) = ps"
  unfolding Chunk_def by (subst concat_chunk_loop) (auto simp: getChunkSize_def DefaultMaxPolicies_def)

lemma Chunk_sizes: "c \<in> set (Chunk n ps) \<Longrightarrow> c \<noteq> [] \<and> int (length c) \<le> getChunkSize n"
  using chunk_loop_sizes [of "nat (getChunkSize n)" c ps 0]
  by (auto simp: Chunk_def getChunkSize_def DefaultMaxPolicies_def split: if_splits)

subsection \<open>Clients\<close>

record 'w JsonClient =
  get_v1 :: "string \<Rightarrow> string \<Rightarrow> 'w \<Rightarrow> api_Policy list result \<times> 'w"
  get_v0 :: "string \<Rightarrow> string \<Rightarrow> 'w \<Rightarrow> v0_Policy list result \<times> 'w"
  post_v1 :: "string \<Rightarrow> api_Policy list \<Rightarrow> string \<Rightarrow> 'w \<Rightarrow> unit result \<times> 'w"
  post_v0 :: "string \<Rightarrow> v0_Policy list \<Rightarrow> string \<Rightarrow> 'w \<Rightarrow> unit result \<times> 'w"
  get_health :: "string \<Rightarrow> string \<Rightarrow> 'w \<Rightarrow> bool result \<times> 'w"

text \<open>\<^verbatim>\<open>http.StatusText\<close> is the parameter \<open>statusText\<close>.\<close>

record 'w ExternalClient =
  jsonClient :: "'w JsonClient"
  chunkSize :: int
  statusText :: "int \<Rightarrow> string"

definition NewExternal :: "'w JsonClient \<Rightarrow> (int \<Rightarrow> string) \<Rightarrow> 'w ExternalClient" where
  "NewExternal jc text = \<lparr>jsonClient = jc, chunkSize = DefaultMaxPolicies, statusText = text\<rparr>"

definition parseHttpError :: "(int \<Rightarrow> string) \<Rightarrow> go_error \<Rightarrow> go_error" where
  "parseHttpError text err = (case err of
       HttpResponseCodeError code msg \<Rightarrow> ErrText (itoa code @ '' '' @ text code @ '': '' @ msg)
     | e \<Rightarrow> e)"

definition with_http_error :: "'w ExternalClient \<Rightarrow> 'a result \<times> 'w \<Rightarrow> 'a result \<times> 'w" where
  "with_http_error c r = (case r of
     (Inl e, w) \<Rightarrow> (Inl (parseHttpError (statusText c) e), w) | (Inr x, w) \<Rightarrow> (Inr x, w))"

definition ext_GetPolicies :: "'w ExternalClient \<Rightarrow> string \<Rightarrow> 'w \<Rightarrow> api_Policy list result \<times> 'w" where
  "ext_GetPolicies c token w = with_http_error c (get_v1 (jsonClient c) ''/networking/v1/external/policies'' token w)"

definition ext_GetPoliciesByID :: "'w ExternalClient \<Rightarrow> string \<Rightarrow> string list \<Rightarrow> 'w \<Rightarrow> api_Policy list result \<times> 'w" where
  "ext_GetPoliciesByID c token ids w =
     (let route = ''/networking/v1/external/policies?id='' @ join_with '','' ids in
      with_http_error c (get_v1 (jsonClient c) route token w))"

definition GetPoliciesV0 :: "'w ExternalClient \<Rightarrow> string \<Rightarrow> 'w \<Rightarrow> v0_Policy list result \<times> 'w" where
  "GetPoliciesV0 c token w = with_http_error c (get_v0 (jsonClient c) ''/networking/v0/external/policies'' token w)"

definition GetPoliciesV0ByID :: "'w ExternalClient \<Rightarrow> string \<Rightarrow> string list \<Rightarrow> 'w \<Rightarrow> v0_Policy list result \<times> 'w" where
  "GetPoliciesV0ByID c token ids w =
     (let route = ''/networking/v0/external/policies?id='' @ join_with '','' ids in
      with_http_error c (get_v0 (jsonClient c) route token w))"

definition AddPolicies :: "'w ExternalClient \<Rightarrow> string \<Rightarrow> api_Policy list \<Rightarrow> 'w \<Rightarrow> unit result \<times> 'w" where
  "AddPolicies c token ps w = with_http_error c (post_v1 (jsonClient c) ''/networking/v1/external/policies'' ps token w)"

definition DeletePolicies :: "'w ExternalClient \<Rightarrow> string \<Rightarrow> api_Policy list \<Rightarrow> 'w \<Rightarrow> unit result \<times> 'w" where
  "DeletePolicies c token ps w =
     with_http_error c (post_v1 (jsonClient c) ''/networking/v1/external/policies/delete'' ps token w)"

text \<open>The loop over the chunks, which stops at the first error.\<close>

fun post_chunks :: "'w ExternalClient \<Rightarrow> string \<Rightarrow> string \<Rightarrow> v0_Policy list list \<Rightarrow> 'w \<Rightarrow> unit result \<times> 'w" where
  "post_chunks c route token [] w = (Inr (), w)"
| "post_chunks c route token (chunk # chunks) w =
     (case with_http_error c (post_v0 (jsonClient c) route chunk token w) of
        (Inl e, w) \<Rightarrow> (Inl e, w)
      | (Inr _, w) \<Rightarrow> post_chunks c route token chunks w)"

definition AddPoliciesV0 :: "'w ExternalClient \<Rightarrow> string \<Rightarrow> v0_Policy list \<Rightarrow> 'w \<Rightarrow> unit result \<times> 'w" where
  "AddPoliciesV0 c token ps = post_chunks c ''/networking/v0/external/policies'' token (Chunk (chunkSize c) ps)"

definition DeletePoliciesV0 :: "'w ExternalClient \<Rightarrow> string \<Rightarrow> v0_Policy list \<Rightarrow> 'w \<Rightarrow> unit result \<times> 'w" where
  "DeletePoliciesV0 c token ps = post_chunks c ''/networking/v0/external/policies/delete'' token (Chunk (chunkSize c) ps)"

definition int_GetPolicies :: "'w JsonClient \<Rightarrow> 'w \<Rightarrow> api_Policy list result \<times> 'w" where
  "int_GetPolicies jc w = get_v1 jc ''/networking/v1/internal/policies'' '''' w"

definition int_GetPoliciesByID :: "'w JsonClient \<Rightarrow> string list \<Rightarrow> 'w \<Rightarrow> api_Policy list result \<times> 'w" where
  "int_GetPoliciesByID jc ids w =
     (if length ids = 0 then (Inl (ErrText ''ids cannot be empty''), w)
      else get_v1 jc (''/networking/v1/internal/policies?id='' @ join_with '','' ids) '''' w)"

definition HealthCheck :: "'w JsonClient \<Rightarrow> 'w \<Rightarrow> bool result \<times> 'w" where
  "HealthCheck jc w = get_health jc ''/networking/v1/internal/healthcheck'' '''' w"

subsection \<open>Poller\<close>

text \<open>What the poller waits for: the interval elapsing, or a signal. The run ends at the first signal,
  with the errors it logged; without one it is still running.\<close>

datatype poll_event = Elapsed | Signalled

fun poller_Run :: "('w \<Rightarrow> unit result \<times> 'w) \<Rightarrow> poll_event list \<Rightarrow> 'w \<Rightarrow> (bool \<times> go_error list) \<times> 'w" where
  "poller_Run cycle [] w = ((False, []), w)"
| "poller_Run cycle (Signalled # es) w = ((True, []), w)"
| "poller_Run cycle (Elapsed # es) w = (case cycle w of
       (Inl e, w) \<Rightarrow> (case poller_Run cycle es w of ((ended, errs), w) \<Rightarrow> ((ended, e # errs), w))
     | (Inr _, w) \<Rightarrow> poller_Run cycle es w)"

subsection \<open>Batches\<close>

text \<open>A server that answers the requests it receives from a script and records them.\<close>

definition recording :: "'w JsonClient \<Rightarrow> ('w \<Rightarrow> (string \<times> v0_Policy list) list) \<Rightarrow> bool" where
  "recording jc sent \<longleftrightarrow> (\<forall>route ps token w. sent (snd (post_v0 jc route ps token w)) = sent w @ [(route, ps)])"

lemma post_chunks_sent:
  assumes "recording (jsonClient c) sent" "post_chunks c route token chunks w = (r, w')"
  shows "\<exists>k \<le> length chunks. sent w' = sent w @ map (Pair route) (take k chunks) \<and>
    (is_ok r \<longrightarrow> k = length chunks)"
  using assms(2)
proof (induction chunks arbitrary: w)
  case (Cons chunk chunks)
  obtain q w1 where q: "post_v0 (jsonClient c) route chunk token w = (q, w1)" by fastforce
  with assms(1) have sent: "sent w1 = sent w @ [(route, chunk)]" by (metis recording_def snd_conv)
  show ?case
  proof (cases q)
    case (Inl e)
    with Cons.prems q sent show ?thesis by (intro exI [of _ 1]) (auto simp: with_http_error_def)
  next
    case (Inr u)
    with Cons.prems q have "post_chunks c route token chunks w1 = (r, w')" by (simp add: with_http_error_def)
    from Cons.IH [OF this] obtain k where "k \<le> length chunks"
      "sent w' = sent w1 @ map (Pair route) (take k chunks)" "is_ok r \<longrightarrow> k = length chunks" by blast
    with sent show ?thesis by (intro exI [of _ "Suc k"]) simp
  qed
qed auto

text \<open>The version-0 client sends the policies it is given in batches of at most the chunk size (100
  when it is not positive), in order and none twice; a call that succeeds has sent all of them, and
  one that fails has sent a prefix of the batches, which stays sent.\<close>

theorem v0_batches:
  assumes "recording (jsonClient c) sent" "AddPoliciesV0 c token ps w = (r, w')"
  shows "\<exists>batches rest. sent w' = sent w @ map (Pair ''/networking/v0/external/policies'') batches \<and>
    concat (batches @ rest) = ps \<and> (is_ok r \<longrightarrow> concat batches = ps) \<and>
    (\<forall>b \<in> set batches. b \<noteq> [] \<and> int (length b) \<le> (if chunkSize c \<le> 0 then 100 else chunkSize c))"
proof -
  obtain k where k: "k \<le> length (Chunk (chunkSize c) ps)"
    "sent w' = sent w @ map (Pair ''/networking/v0/external/policies'') (take k (Chunk (chunkSize c) ps))"
    "is_ok r \<longrightarrow> k = length (Chunk (chunkSize c) ps)"
    using post_chunks_sent [OF assms(1) assms(2) [unfolded AddPoliciesV0_def]] by blast
  have "concat (take k (Chunk (chunkSize c) ps) @ drop k (Chunk (chunkSize c) ps)) = ps"
    by (simp only: append_take_drop_id Chunk_concat)
  moreover have "\<forall>b \<in> set (take k (Chunk (chunkSize c) ps)).
      b \<noteq> [] \<and> int (length b) \<le> (if chunkSize c \<le> 0 then 100 else chunkSize c)"
    using Chunk_sizes [of _ "chunkSize c" ps] by (auto simp: getChunkSize_def DefaultMaxPolicies_def dest!: in_set_takeD)
  ultimately show ?thesis using k Chunk_concat [of "chunkSize c" ps]
    by (intro exI [of _ "take k (Chunk (chunkSize c) ps)"] exI [of _ "drop k (Chunk (chunkSize c) ps)"]) auto
qed

text \<open>A server that records the batches and refuses the second one.\<close>

definition demo_JsonClient :: "(string \<times> v0_Policy list) list JsonClient" where
  "demo_JsonClient = \<lparr>get_v1 = (\<lambda>_ _ w. (Inr [], w)), get_v0 = (\<lambda>_ _ w. (Inr [], w)), post_v1 = (\<lambda>_ _ _ w. (Inr (), w)),
     post_v0 = (\<lambda>route ps token w. (if length w = 1 then Inl (HttpResponseCodeError 502 ''down'') else Inr (), w @ [(route, ps)])),
     get_health = (\<lambda>_ _ w. (Inr True, w))\<rparr>"

definition demo_external :: "(string \<times> v0_Policy list) list ExternalClient" where
  "demo_external = \<lparr>jsonClient = demo_JsonClient, chunkSize = 1, statusText = (\<lambda>_. ''Bad Gateway'')\<rparr>"

definition demo_v0 :: "string \<Rightarrow> v0_Policy" where
  "demo_v0 a = \<lparr>v0_Source = \<lparr>a_src_ID = a, a_src_Tag = ''''\<rparr>,
     v0_Destination = \<lparr>v0_dst_ID = ''b'', v0_dst_Tag = '''', v0_Protocol = ''tcp'', v0_Port = 80\<rparr>\<rparr>"

lemma demo_recording: "recording demo_JsonClient id"
  by (simp add: recording_def demo_JsonClient_def)

lemma demo_AddPoliciesV0:
  "AddPoliciesV0 demo_external ''t'' [demo_v0 ''a'', demo_v0 ''c'', demo_v0 ''d''] [] =
     (Inl (ErrText ''502 Bad Gateway: down''),
      [(''/networking/v0/external/policies'', [demo_v0 ''a'']), (''/networking/v0/external/policies'', [demo_v0 ''c''])])"
  by code_simp

theorem v0_batches_witness:
  "\<exists>batches rest. map (Pair ''/networking/v0/external/policies'') batches =
      [(''/networking/v0/external/policies'', [demo_v0 ''a'']), (''/networking/v0/external/policies'', [demo_v0 ''c''])] \<and>
    concat (batches @ rest) = [demo_v0 ''a'', demo_v0 ''c'', demo_v0 ''d'']"
  using v0_batches [of demo_external id, OF _ demo_AddPoliciesV0] demo_recording
  unfolding demo_external_def by force

end
