(* ===== verification/Server_Process.thy ===== *)
theory Server_Process
  imports Server_Props Policy_Client
begin

text \<open>
  The processes \<^verbatim>\<open>policy-server\<close> and \<^verbatim>\<open>policy-server-internal\<close>: their configuration (\<^verbatim>\<open>config\<close>), the connection
  pool (\<^verbatim>\<open>db\<close>), the TLS settings (\<^verbatim>\<open>lib/nonmutualtls\<close>), the start-up of \<^verbatim>\<open>main.go\<close>, and the process while it
  runs: requests, clean-ups and metrics, one after the other. The libraries for JSON, validation,
  certificates, databases and metrics are parameters.
\<close>

subsection \<open>Configuration\<close>

text \<open>\<open>'d\<close> is the configuration of the database, a type of \<^verbatim>\<open>cf-networking-helpers\<close>.\<close>

record 'd ps_Config =
  ListenHost :: string
  ListenPort :: int
  psc_LogPrefix :: string
  DebugServerHost :: string
  DebugServerPort :: int
  UAAClient :: string
  UAAClientSecret :: string
  UAACA :: string
  UAAURL :: string
  UAAPort :: int
  CCURL :: string
  psc_SkipSSLValidation :: bool
  Database :: 'd
  psc_TagLength :: int
  MetronAddress :: string
  LogLevel :: string
  CleanupInterval :: int
  CCAppRequestChunkSize :: int
  RequestTimeout :: int
  psc_MaxPolicies :: int
  psc_EnableSpaceDeveloperSelfService :: bool
  psc_AllowedCORSDomains :: "string list"
  MaxIdleConnections :: int
  MaxOpenConnections :: int

record 'd InternalConfig =
  i_LogPrefix :: string
  i_ListenHost :: string
  InternalListenPort :: int
  i_DebugServerHost :: string
  i_DebugServerPort :: int
  HealthCheckPort :: int
  CACertFile :: string
  ServerCertFile :: string
  ServerKeyFile :: string
  i_Database :: 'd
  i_TagLength :: int
  i_MetronAddress :: string
  i_LogLevel :: string
  i_RequestTimeout :: int
  i_MaxIdleConnections :: int
  i_MaxOpenConnections :: int

text \<open>Both constructors, for any type of configuration: a configuration that is not valid is returned
  beside the error.\<close>

definition read_config ::
  "(string \<Rightarrow> string result) \<Rightarrow> (string \<Rightarrow> 'c result) \<Rightarrow> ('c \<Rightarrow> unit result) \<Rightarrow> string \<Rightarrow> 'c option \<times> go_error option" where
  "read_config readFile unmarshal validate path = (case readFile path of
       Inl e \<Rightarrow> (None, Some (Errorf ''reading config: '' e))
     | Inr jsonBytes \<Rightarrow> (case unmarshal jsonBytes of
         Inl e \<Rightarrow> (None, Some (Errorf ''parsing config: '' e))
       | Inr cfg \<Rightarrow> (case validate cfg of
           Inl e \<Rightarrow> (Some cfg, Some (Errorf ''invalid config: '' e))
         | Inr _ \<Rightarrow> (Some cfg, None))))"

definition ps_config_New ::
  "(string \<Rightarrow> string result) \<Rightarrow> (string \<Rightarrow> 'd ps_Config result) \<Rightarrow> ('d ps_Config \<Rightarrow> unit result) \<Rightarrow> string \<Rightarrow>
   'd ps_Config option \<times> go_error option" where
  "ps_config_New = read_config"

definition NewInternal ::
  "(string \<Rightarrow> string result) \<Rightarrow> (string \<Rightarrow> 'd InternalConfig result) \<Rightarrow> ('d InternalConfig \<Rightarrow> unit result) \<Rightarrow> string \<Rightarrow>
   'd InternalConfig option \<times> go_error option" where
  "NewInternal = read_config"

subsection \<open>Logger, TLS and connection pool\<close>

datatype log_level = DEBUG | INFO | ERROR | FATAL

definition to_lower :: "string \<Rightarrow> string" where
  "to_lower s = map (\<lambda>c. if char_in_ranges [(CHR ''A'', CHR ''Z'')] c then char_of (of_char c + 32 :: nat) else c) s"

definition InitLoggerSink :: "string \<Rightarrow> log_level" where
  "InitLoggerSink level = (let l = to_lower level in
     if l = ''debug'' then DEBUG else if l = ''info'' then INFO
     else if l = ''error'' then ERROR else if l = ''fatal'' then FATAL else INFO)"

text \<open>The settings of \<^verbatim>\<open>crypto/tls\<close> that the code chooses; \<open>'k\<close> are key pairs and \<open>'p\<close> certificate pools.\<close>

record ('k, 'p) tls_Config =
  Certificates :: "'k list"
  MinVersionTLS12 :: bool
  PreferServerCipherSuites :: bool
  CipherSuites :: "string list"
  RootCAs :: "'p option"
  InsecureSkipVerify :: bool

definition zero_tls :: "('k, 'p) tls_Config" where
  "zero_tls = \<lparr>Certificates = [], MinVersionTLS12 = False, PreferServerCipherSuites = False, CipherSuites = [],
     RootCAs = None, InsecureSkipVerify = False\<rparr>"

definition NewServerTLSConfig :: "(string \<Rightarrow> string \<Rightarrow> 'k result) \<Rightarrow> string \<Rightarrow> string \<Rightarrow> ('k, 'p) tls_Config result" where
  "NewServerTLSConfig LoadX509KeyPair certFile keyFile = (case LoadX509KeyPair certFile keyFile of
       Inl e \<Rightarrow> Inl (Errorf ''unable to load cert or key: '' e)
     | Inr keyPair \<Rightarrow> Inr (zero_tls\<lparr>Certificates := [keyPair], MinVersionTLS12 := True, PreferServerCipherSuites := True,
         CipherSuites := [''TLS_ECDHE_RSA_WITH_AES_128_GCM_SHA256'']\<rparr>))"

definition newCACertPool :: "(string \<Rightarrow> string result) \<Rightarrow> (string \<Rightarrow> 'p option) \<Rightarrow> string \<Rightarrow> 'p result" where
  "newCACertPool readFile AppendCertsFromPEM caCertFile = (case readFile caCertFile of
       Inl e \<Rightarrow> Inl (Errorf ''failed read ca cert file: '' e)
     | Inr certBytes \<Rightarrow> (case AppendCertsFromPEM certBytes of
         None \<Rightarrow> Inl (ErrText ''Unable to load caCert'') | Some p \<Rightarrow> Inr p))"

definition NewClientTLSConfig ::
  "(string \<Rightarrow> string result) \<Rightarrow> (string \<Rightarrow> 'p option) \<Rightarrow> string \<Rightarrow> ('k, 'p) tls_Config result" where
  "NewClientTLSConfig readFile AppendCertsFromPEM caCertFile = (case newCACertPool readFile AppendCertsFromPEM caCertFile of
       Inl e \<Rightarrow> Inl e
     | Inr p \<Rightarrow> Inr (zero_tls\<lparr>MinVersionTLS12 := True, RootCAs := Some p\<rparr>))"

text \<open>The race between the connector, with its retries, and the timeout: what comes first. A fatal
  message ends the process.\<close>

datatype 'p race = Connected "'p result" | Expired

record 'p ConnWrapper =
  sqlxDB :: 'p
  max_open :: int
  max_idle :: int

definition NewConnectionPool :: "'p race \<Rightarrow> int \<Rightarrow> int \<Rightarrow> string \<Rightarrow> string \<Rightarrow> 'p ConnWrapper result" where
  "NewConnectionPool connect maxOpenConnections maxIdleConnections logPrefix jobPrefix = (case connect of
       Expired \<Rightarrow> Inl (ErrText (logPrefix @ ''.'' @ jobPrefix @ '': db connection timeout''))
     | Connected (Inl e) \<Rightarrow> Inl (Errorf (logPrefix @ ''.'' @ jobPrefix @ '': db connect: '') e)
     | Connected (Inr p) \<Rightarrow> Inr \<lparr>sqlxDB = p, max_open = maxOpenConnections, max_idle = maxIdleConnections\<rparr>)"

subsection \<open>Start-up of the external server\<close>

text \<open>
  What the process finds around it. \<open>psp_environment\<close> makes the clients and JSON functions of the
  handlers from the TLS settings, the URL, name and secret for the UAA and the URL of the Cloud
  Controller; the limits come from the configuration. Both connection pools lead to the one
  database, the state of the start-up; \<open>psp_migrate\<close> is the migrator on the first of them.
\<close>

record ('d, 'k, 'p) ps_platform =
  psp_ReadFile :: "string \<Rightarrow> string result"
  psp_unmarshal :: "string \<Rightarrow> 'd ps_Config result"
  psp_validate :: "'d ps_Config \<Rightarrow> unit result"
  psp_pem :: "string \<Rightarrow> 'p option"
  psp_connect :: "'d \<Rightarrow> nat \<Rightarrow> string race"
  psp_migrate :: "string \<Rightarrow> conn \<Rightarrow> int result \<times> conn"
  psp_environment :: "('k, 'p) tls_Config \<Rightarrow> string \<Rightarrow> string \<Rightarrow> string \<Rightarrow> string \<Rightarrow> environment"
  psp_dropsonde :: "string \<Rightarrow> string \<Rightarrow> unit result"
  psp_NewRouter :: "string list \<Rightarrow> route list \<Rightarrow> unit result"

definition jobPrefix :: string where
  "jobPrefix = ''policy-server''"

definition client_tls :: "('d, 'k, 'p) ps_platform \<Rightarrow> 'd ps_Config \<Rightarrow> ('k, 'p) tls_Config result" where
  "client_tls P conf =
     (if psc_SkipSSLValidation conf then Inr (zero_tls\<lparr>InsecureSkipVerify := psc_SkipSSLValidation conf\<rparr>)
      else NewClientTLSConfig (psp_ReadFile P) (psp_pem P) (UAACA conf))"

definition server_environment :: "('d, 'k, 'p) ps_platform \<Rightarrow> 'd ps_Config \<Rightarrow> ('k, 'p) tls_Config \<Rightarrow> environment" where
  "server_environment P conf tls =
     (psp_environment P tls (UAAURL conf @ '':'' @ itoa (UAAPort conf)) (UAAClient conf) (UAAClientSecret conf) (CCURL conf))
       \<lparr>MaxPolicies := psc_MaxPolicies conf, EnableSpaceDeveloperSelfService := psc_EnableSpaceDeveloperSelfService conf,
        AllowedCORSDomains := psc_AllowedCORSDomains conf\<rparr>"

text \<open>What \<^verbatim>\<open>InitServer\<close> serves: the address, once the router has accepted the routes.\<close>

definition InitServer :: "(string list \<Rightarrow> route list \<Rightarrow> unit result) \<Rightarrow> string \<Rightarrow> int \<Rightarrow> string list \<Rightarrow> route list \<Rightarrow> string result" where
  "InitServer newRouter host port handlers routes = (case newRouter handlers routes of
       Inl e \<Rightarrow> Inl (Errorf ''create-rata-router: '' e) | Inr _ \<Rightarrow> Inr (host @ '':'' @ itoa port))"

text \<open>The running server: handlers, store, address and the interval of the poller in seconds.\<close>

record ps_process =
  pr_env :: environment
  pr_store :: store
  pr_address :: string
  pr_poll_interval :: int
  pr_log_level :: log_level

definition start_store :: "('d, 'k, 'p) ps_platform \<Rightarrow> 'd ps_Config \<Rightarrow> string \<Rightarrow> conn \<Rightarrow> store result \<times> conn" where
  "start_store P conf logPrefix c =
     (case NewConnectionPool (psp_connect P (Database conf) 0) (MaxOpenConnections conf) (MaxIdleConnections conf) logPrefix jobPrefix of
        Inl e \<Rightarrow> (Inl e, c)
      | Inr migrationConnectionPool \<Rightarrow>
          (case NewConnectionPool (psp_connect P (Database conf) 1) (MaxOpenConnections conf) (MaxIdleConnections conf) logPrefix jobPrefix of
             Inl e \<Rightarrow> (Inl e, c)
           | Inr connectionPool \<Rightarrow> (case New (sqlxDB connectionPool) (psc_TagLength conf) (psp_migrate P) c of
               (Inl e, c) \<Rightarrow> (Inl (Errorf (logPrefix @ ''.'' @ jobPrefix @ '': failed to construct datastore: '') e), c)
             | (Inr s, c) \<Rightarrow> (Inr s, c))))"

definition policy_server_start :: "('d, 'k, 'p) ps_platform \<Rightarrow> string \<Rightarrow> conn \<Rightarrow> ps_process result \<times> conn" where
  "policy_server_start P configFilePath c =
     (case ps_config_New (psp_ReadFile P) (psp_unmarshal P) (psp_validate P) configFilePath of
        (_, Some e) \<Rightarrow> (Inl (Errorf (''cfnetworking.'' @ jobPrefix @ '': could not read config file: '') e), c)
      | (None, None) \<Rightarrow> (Inl (Panic ''nil pointer dereference''), c)
      | (Some conf, None) \<Rightarrow>
          (let logPrefix = (if psc_LogPrefix conf \<noteq> '''' then psc_LogPrefix conf else ''cfnetworking'') in
           case client_tls P conf of
             Inl e \<Rightarrow> (Inl (Errorf (logPrefix @ ''.'' @ jobPrefix @ '' error creating tls config: '') e), c)
           | Inr tls \<Rightarrow> (case start_store P conf logPrefix c of
               (Inl e, c) \<Rightarrow> (Inl e, c)
             | (Inr st, c) \<Rightarrow>
                 (let env = server_environment P conf tls; routes = AddOptionsRoutes ''options'' externalRoutes in
                  case psp_dropsonde P (MetronAddress conf) ''policy-server'' of
                    Inl e \<Rightarrow> (Inl (Errorf (logPrefix @ ''.'' @ jobPrefix @ '': initializing dropsonde: '') e), c)
                  | Inr _ \<Rightarrow>
                      (case InitServer (psp_NewRouter P) (ListenHost conf) (ListenPort conf)
                          (map fst (externalHandlers env (metered_store st))) routes of
                         Inl e \<Rightarrow> (Inl e, c)
                       | Inr addr \<Rightarrow> (Inr \<lparr>pr_env = env, pr_store = st, pr_address = addr,
                           pr_poll_interval = CleanupInterval conf, pr_log_level = InitLoggerSink (LogLevel conf)\<rparr>, c))))))"

subsection \<open>The running process\<close>

text \<open>The turns of the members of the process group: a request to a named route, the poller, and the
  metrics emitter.\<close>

datatype ps_event = Http string request | Poll | Emit

fun ps_turn :: "ps_process \<Rightarrow> ps_event \<Rightarrow> world \<Rightarrow> world" where
  "ps_turn p (Http name req) w = (case serve_external (pr_env p) (metered_store (pr_store p)) name req w of
       None \<Rightarrow> w | Some (_, w) \<Rightarrow> w)"
| "ps_turn p Poll w = snd (DeleteStalePoliciesWrapper (env_rng (pr_env p)) (uaa_GetToken (env_uaa (pr_env p)))
       (env_getLive (pr_env p)) 100 (metered_store (pr_store p)) w)"
| "ps_turn p Emit w = snd (TotalPoliciesSource (metered_store (pr_store p)) w)"

definition ps_run :: "ps_process \<Rightarrow> ps_event list \<Rightarrow> world \<Rightarrow> world" where
  "ps_run p es w = fold (ps_turn p) es w"

subsection \<open>Lemmas\<close>

context data_store
begin

lemma delete_stale_chunks_shrinks:
  assumes "valid s" "delete_stale_chunks getLive ds token ps chunks acc s = (r, s')"
  shows "valid s' \<and> stored s' \<subseteq> stored s"
  using assms
proof (induction chunks arbitrary: acc s)
  case (Cons chunk chunks)
  show ?case
  proof (cases "getLive token chunk")
    case (Inl e)
    with Cons.prems show ?thesis by simp
  next
    case (Inr ls)
    obtain r1 s1 where d: "ds_Delete ds (getStalePolicies ps (getStaleAppGUIDs ls chunk)) s = (r1, s1)" by fastforce
    with Inr Cons delete [OF Cons.prems(1) d] show ?thesis by (cases r1) (fastforce simp: Let_def)+
  qed
qed simp

lemma DeleteStalePolicies_shrinks:
  assumes "valid s" "DeleteStalePolicies rng getToken getLive sz ds s = (r, s')"
  shows "valid s' \<and> stored s' \<subseteq> stored s"
proof -
  obtain q s1 where q: "ds_All ds s = (q, s1)" by fastforce
  note a = all [OF assms(1) q]
  show ?thesis
  proof (cases "\<exists>ps token. q = Inr ps \<and> getToken = Inr token")
    case True
    then obtain ps token where *: "q = Inr ps" "getToken = Inr token" by blast
    have "delete_stale_chunks getLive ds token ps (cleaner_getChunks (policyAppGUIDs rng ps) sz) [] s1 = (r, s')"
      using assms(2) q * by (simp add: DeleteStalePolicies_def)
    with a show ?thesis using delete_stale_chunks_shrinks by metis
  next
    case False
    with a assms(2) q show ?thesis by (auto simp: DeleteStalePolicies_def split: sum.splits)
  qed
qed

lemma readers_keep:
  assumes "valid s"
  shows "Health ds req s = (r, s') \<Longrightarrow> valid s' \<and> stored s' = stored s"
    and "TagsIndex ds marshal req s = (r, s') \<Longrightarrow> valid s' \<and> stored s' = stored s"
    and "TotalPoliciesSource ds s = (m, s') \<Longrightarrow> valid s' \<and> stored s' = stored s"
  using check [OF assms] tags [OF assms] all [OF assms]
  by (auto simp: Health_def TagsIndex_def TotalPoliciesSource_def split: prod.splits sum.splits)

end

text \<open>The policies that a create request may add: those its body maps to, for an admitted user who passed
  the access guard.\<close>

definition may_add :: "environment \<Rightarrow> ps_event \<Rightarrow> policy_key set" where
  "may_add env ev = {k. \<exists>req t b ps. ev = Http ''create_policies'' req \<and> admitted (write_auth env) req = Some t \<and> Body req = Inr b \<and>
     m_AsStorePolicy (mapper_for env (VersionParam req)) b = Inr ps \<and>
     PolicyGuard_CheckAccess (env_rng env) (env_cc env) (env_uaa env) ps t = Inr True \<and> k \<in> key_of ` set ps}"

lemma limit_body_Inr: "limit_body b = Inr s \<Longrightarrow> b = Inr s"
  by (auto simp: limit_body_def split: sum.splits if_splits)

definition handler_names :: "string list" where
  "handler_names = [''options'', ''uptime'', ''health'', ''create_policies'', ''delete_policies'', ''policies_index'',
     ''cleanup'', ''tags_index'', ''whoami'']"

lemma serve_external_names: "serve_external env ds name req s = Some x \<Longrightarrow> name \<in> set handler_names"
  by (auto simp: serve_external_def externalHandlers_def handler_names_def split: option.splits if_splits)

lemma serve_external_open:
  "serve_external env ds ''options'' req s = Some (cors_Wrap (AddOptionsRoutes ''options'' externalRoutes)
     (AllowedCORSDomains env) (\<lambda>req s. (Empty, s)) req s)"
  "serve_external env ds ''uptime'' req s = Some (cors_Wrap (AddOptionsRoutes ''options'' externalRoutes)
     (AllowedCORSDomains env) (UptimeHandler (env_uptime env)) req s)"
  "serve_external env ds ''health'' req s = Some (cors_Wrap (AddOptionsRoutes ''options'' externalRoutes)
     (AllowedCORSDomains env) (Health ds) req s)"
  by (simp_all add: serve_external_def externalHandlers_def)

text \<open>A protected handler that keeps the store, or only removes from it, does so behind its guards.\<close>

lemma protected_shrinks:
  assumes "protected env a h req w = (r, w')" "world_ok w"
    and "\<And>m req r w'. h m req w = (r, w') \<Longrightarrow> world_ok w' \<and> world_policies w' \<subseteq> world_policies w"
  shows "world_ok w' \<and> world_policies w' \<subseteq> world_policies w"
  using assms(1) by (cases rule: protected_cases) (use assms(2,3) in auto)

lemma create_adds:
  assumes "protected env (write_auth env) (create_handler env (metered_store st)) req w = (r, w')" "world_ok w"
  shows "world_ok w' \<and> world_policies w' \<subseteq> world_policies w \<union> may_add env (Http ''create_policies'' req)"
  using assms(1)
proof (cases rule: protected_cases)
  case (served t)
  let ?req = "req\<lparr>Body := limit_body (Body req), TokenData := Some t\<rparr>"
  have tok: "getTokenData ?req = t" by (simp add: getTokenData_def)
  from metered.PoliciesCreate_effect [OF assms(2) served(3) [unfolded create_handler_def], unfolded tok] served(1)
  show ?thesis by (fastforce simp: may_add_def dest: limit_body_Inr split: if_splits)
qed (use assms(2) in auto)

lemma delete_shrinks:
  assumes "world_ok w" "delete_handler env (metered_store st) m req w = (r, w')"
  shows "world_ok w' \<and> world_policies w' \<subseteq> world_policies w"
  using metered.PoliciesDelete_effect [OF assms(1) assms(2) [unfolded delete_handler_def]]
  by (auto split: if_splits)

lemma index_shrinks:
  assumes "world_ok w" "index_handler env (metered_store st) m req w = (r, w')"
  shows "world_ok w' \<and> world_policies w' \<subseteq> world_policies w"
  using metered.PoliciesIndex_effect [OF assms(1) assms(2) [unfolded index_handler_def]] by auto

lemma cleanup_shrinks:
  assumes "world_ok w" "cleanup_handler env (metered_store st) req w = (r, w')"
  shows "world_ok w' \<and> world_policies w' \<subseteq> world_policies w"
  using assms metered.DeleteStalePolicies_shrinks [OF assms(1)]
  unfolding cleanup_handler_def PoliciesCleanup_def by (auto split: prod.splits sum.splits)

lemma serve_external_effect:
  assumes "serve_external env (metered_store st) name req w = Some ((hs, r), w')" "world_ok w"
  shows "world_ok w' \<and> world_policies w' \<subseteq> world_policies w \<union> may_add env (Http name req)"
proof -
  note run = assms(1)
  consider "name \<in> {''options'', ''uptime''}" | "name = ''health''" | "name = ''create_policies''" | "name = ''delete_policies''"
    | "name = ''policies_index''" | "name = ''cleanup''" | "name = ''tags_index''" | "name = ''whoami''"
    using serve_external_names [OF run] unfolding handler_names_def by fastforce
  then show ?thesis
  proof cases
    case 1
    with run assms(2) show ?thesis by (auto simp: serve_external_open cors_Wrap_def UptimeHandler_def)
  next
    case 2
    with run have "Health (metered_store st) req w = (r, w')" by (auto simp: serve_external_open dest: cors_Wrap_run)
    with metered.readers_keep(1) [OF assms(2)] show ?thesis by blast
  next
    case 3
    with run have "protected env (write_auth env) (create_handler env (metered_store st)) req w = (r, w')"
      by (auto simp: serve_external_protected dest: cors_Wrap_run)
    with create_adds [OF _ assms(2)] 3 show ?thesis by blast
  next
    case 4
    with run have "protected env (write_auth env) (delete_handler env (metered_store st)) req w = (r, w')"
      by (auto simp: serve_external_protected dest: cors_Wrap_run)
    then have "world_ok w' \<and> world_policies w' \<subseteq> world_policies w"
      by (rule protected_shrinks [OF _ assms(2)]) (rule delete_shrinks [OF assms(2)])
    then show ?thesis by blast
  next
    case 5
    with run have "protected env (write_auth env) (index_handler env (metered_store st)) req w = (r, w')"
      by (auto simp: serve_external_protected dest: cors_Wrap_run)
    then have "world_ok w' \<and> world_policies w' \<subseteq> world_policies w"
      by (rule protected_shrinks [OF _ assms(2)]) (rule index_shrinks [OF assms(2)])
    then show ?thesis by blast
  next
    case 6
    with run have "protected env (admin_auth env) (\<lambda>_. cleanup_handler env (metered_store st)) req w = (r, w')"
      by (auto simp: serve_external_protected dest: cors_Wrap_run)
    then have "world_ok w' \<and> world_policies w' \<subseteq> world_policies w"
      by (rule protected_shrinks [OF _ assms(2)]) (rule cleanup_shrinks [OF assms(2)])
    then show ?thesis by blast
  next
    case 7
    with run have *: "protected env (admin_auth env) (\<lambda>_. TagsIndex (metered_store st) (env_marshalTags env)) req w = (r, w')"
      by (auto simp: serve_external_protected dest: cors_Wrap_run)
    have "world_ok w' \<and> world_policies w' \<subseteq> world_policies w"
      by (rule protected_shrinks [OF * assms(2)]) (use metered.readers_keep(2) [OF assms(2)] in blast)
    then show ?thesis by blast
  next
    case 8
    with run have *: "protected env (admin_auth env) (\<lambda>_. WhoAmIHandler False (env_marshalWho env)) req w = (r, w')"
      by (auto simp: serve_external_protected dest: cors_Wrap_run)
    have "world_ok w' \<and> world_policies w' \<subseteq> world_policies w"
      by (rule protected_shrinks [OF * assms(2)]) (use assms(2) in \<open>auto simp: WhoAmIHandler_def split: sum.splits\<close>)
    then show ?thesis by blast
  qed
qed

lemma ps_turn_effect:
  assumes "world_ok w"
  shows "world_ok (ps_turn p ev w) \<and> world_policies (ps_turn p ev w) \<subseteq> world_policies w \<union> may_add (pr_env p) ev"
proof (cases ev)
  case (Http name req)
  show ?thesis
  proof (cases "serve_external (pr_env p) (metered_store (pr_store p)) name req w")
    case None
    with Http assms show ?thesis by simp
  next
    case (Some x)
    obtain hs r w' where "x = ((hs, r), w')" by (metis prod.exhaust)
    with Some Http serve_external_effect [OF _ assms] show ?thesis by simp
  qed
next
  case Poll
  obtain r w' where r: "DeleteStalePolicies (env_rng (pr_env p)) (uaa_GetToken (env_uaa (pr_env p))) (env_getLive (pr_env p)) 100
      (metered_store (pr_store p)) w = (r, w')" by fastforce
  have "ps_turn p Poll w = w'" by (simp add: DeleteStalePoliciesWrapper_def r split: sum.split)
  with Poll metered.DeleteStalePolicies_shrinks [OF assms r] show ?thesis by blast
next
  case Emit
  obtain m w' where "TotalPoliciesSource (metered_store (pr_store p)) w = (m, w')" by fastforce
  with Emit metered.readers_keep(3) [OF assms] show ?thesis by fastforce
qed

lemma ps_run_effect:
  "world_ok w \<Longrightarrow> world_ok (ps_run p es w) \<and>
    world_policies (ps_run p es w) \<subseteq> world_policies w \<union> (\<Union>ev \<in> set es. may_add (pr_env p) ev)"
proof (induction es arbitrary: w)
  case (Cons ev es)
  from ps_turn_effect [OF Cons.prems, of p ev] Cons.IH [of "ps_turn p ev w"] show ?case
    by (fastforce simp: ps_run_def)
qed (simp add: ps_run_def)

text \<open>The start-up succeeds only on a store that \<open>New\<close> has built.\<close>

lemma start_store_New:
  assumes "start_store P conf logPrefix c = (Inr st, c')"
  obtains d where "New d (psc_TagLength conf) (psp_migrate P) c = (Inr st, c')"
  using assms by (auto simp: start_store_def split: sum.splits prod.splits)

lemma policy_server_start_Inr:
  assumes "policy_server_start P path c = (Inr p, c')"
  obtains conf tls d where "psp_validate P conf = Inr ()"
    "New d (psc_TagLength conf) (psp_migrate P) c = (Inr (pr_store p), c')"
    "pr_env p = server_environment P conf tls" "pr_poll_interval p = CleanupInterval conf"
proof -
  obtain conf where conf: "ps_config_New (psp_ReadFile P) (psp_unmarshal P) (psp_validate P) path = (Some conf, None)"
    using assms by (auto simp: policy_server_start_def split: prod.splits option.splits)
  then have "psp_validate P conf = Inr ()"
    by (auto simp: ps_config_New_def read_config_def split: sum.splits)
  moreover obtain tls where tls: "client_tls P conf = Inr tls"
    using assms conf by (auto simp: policy_server_start_def Let_def split: sum.splits)
  obtain lp st c1 where st: "start_store P conf lp c = (Inr st, c1)" "pr_store p = st" "c1 = c'"
      "pr_env p = server_environment P conf tls" "pr_poll_interval p = CleanupInterval conf"
    using assms conf tls by (auto simp: policy_server_start_def Let_def split: sum.splits prod.splits)
  moreover from st(1) obtain d where "New d (psc_TagLength conf) (psp_migrate P) c = (Inr st, c1)" by (rule start_store_New)
  ultimately show thesis using that by blast
qed

lemma New_conn_ok:
  assumes "New d n mig c = (Inr s, c')" "mig d c = (Inr m, c1)" "conn_ok c1" "saved c1 = None"
  shows "conn_ok c' \<and> saved c' = None \<and> policy_set (tables c') = policy_set (tables c1) \<and> tagLength s = n \<and> 1 \<le> n \<and> n \<le> 3"
proof -
  have n: "1 \<le> n" "n \<le> 3" "tagLength s = n"
    using assms(1) by (auto simp: New_def MinTagLength_def MaxTagLength_def split: if_splits prod.splits sum.splits)
  then obtain q where "populateTables n c1 = (Inr q, c')"
    using assms(1,2) by (auto simp: New_def MinTagLength_def MaxTagLength_def split: prod.splits sum.splits)
  then show ?thesis
  proof (cases rule: populateTables_cases)
    case filled
    with assms(3,4) n show ?thesis by (auto dest: same_state_world)
  next
    case empty
    have G: "group_guid (tables c1) i = None" for i by (simp add: group_guid_def empty(3))
    then have "destinations (tables c1) = []" "policies (tables c1) = []"
      using assms(3) by (auto simp: conn_ok_def tables_ok_def dests_ok_def policies_ok_def ex_in_conv [symmetric] set_empty [symmetric] simp del: set_empty)
    with empty(4) have "tables c' = all_blank n" by (simp add: all_blank_def)
    moreover have "policy_set (tables c1) = {}" using \<open>policies (tables c1) = []\<close> by (simp add: policy_set_def map_filter_simps)
    ultimately show ?thesis
      using empty(2) assms(4) n all_blank_ok [of n] by (simp add: conn_ok_def tx_step_def all_blank_def del: upt_Suc)
  qed simp
qed

subsection \<open>Start-up of the internal server\<close>

record ('d, 'k, 'p) internal_platform =
  ip_ReadFile :: "string \<Rightarrow> string result"
  ip_unmarshal :: "string \<Rightarrow> 'd InternalConfig result"
  ip_validate :: "'d InternalConfig \<Rightarrow> unit result"
  ip_connect :: "'d \<Rightarrow> string race"
  ip_migrate :: "string \<Rightarrow> conn \<Rightarrow> int result \<times> conn"
  ip_dropsonde :: "string \<Rightarrow> string \<Rightarrow> unit result"
  ip_mutualtls :: "string \<Rightarrow> string \<Rightarrow> string \<Rightarrow> ('k, 'p) tls_Config result"
  ip_NewRouter :: "string list \<Rightarrow> route list \<Rightarrow> unit result"

definition internalRoutes :: "route list" where
  "internalRoutes = [\<lparr>route_Name = ''internal_policies'', route_Method = ''GET'', route_Path = ''/networking/:version/internal/policies''\<rparr>]"

definition healthRoutes :: "route list" where
  "healthRoutes = [\<lparr>route_Name = ''uptime'', route_Method = ''GET'', route_Path = ''/''\<rparr>,
     \<lparr>route_Name = ''health'', route_Method = ''GET'', route_Path = ''/health''\<rparr>]"

record internal_process =
  ip_store :: store
  ip_address :: string
  ip_health_address :: string
  ip_log_level :: log_level

definition internal_server_start :: "('d, 'k, 'p) internal_platform \<Rightarrow> string \<Rightarrow> conn \<Rightarrow> internal_process result \<times> conn" where
  "internal_server_start P configFilePath c =
     (let job = ''policy-server-internal'' in
      case NewInternal (ip_ReadFile P) (ip_unmarshal P) (ip_validate P) configFilePath of
        (_, Some e) \<Rightarrow> (Inl (Errorf (''cfnetworking.'' @ job @ '': could not read config file: '') e), c)
      | (None, None) \<Rightarrow> (Inl (Panic ''nil pointer dereference''), c)
      | (Some conf, None) \<Rightarrow>
          (let logPrefix = (if i_LogPrefix conf \<noteq> '''' then i_LogPrefix conf else ''cfnetworking'');
               fatal = (\<lambda>msg e. Errorf (logPrefix @ ''.'' @ job @ '': '' @ msg) e) in
           case NewConnectionPool (ip_connect P (i_Database conf)) (i_MaxOpenConnections conf) (i_MaxIdleConnections conf) logPrefix job of
             Inl e \<Rightarrow> (Inl e, c)
           | Inr connectionPool \<Rightarrow> (case New (sqlxDB connectionPool) (i_TagLength conf) (ip_migrate P) c of
               (Inl e, c) \<Rightarrow> (Inl (fatal ''failed to construct datastore: '' e), c)
             | (Inr st, c) \<Rightarrow> (case ip_dropsonde P (i_MetronAddress conf) job of
                 Inl e \<Rightarrow> (Inl (fatal ''initializing dropsonde: '' e), c)
               | Inr _ \<Rightarrow> (case ip_mutualtls P (ServerCertFile conf) (ServerKeyFile conf) (CACertFile conf) of
                   Inl e \<Rightarrow> (Inl (fatal ''mutual tls config: '' e), c)
                 | Inr tls \<Rightarrow> (case InitServer (ip_NewRouter P) (i_ListenHost conf) (InternalListenPort conf) [''internal_policies''] internalRoutes of
                     Inl e \<Rightarrow> (Inl e, c)
                   | Inr addr \<Rightarrow> (case InitServer (ip_NewRouter P) (i_ListenHost conf) (HealthCheckPort conf) [''uptime'', ''health''] healthRoutes of
                       Inl e \<Rightarrow> (Inl e, c)
                     | Inr health \<Rightarrow> (Inr \<lparr>ip_store = st, ip_address = addr, ip_health_address = health,
                         ip_log_level = InitLoggerSink (i_LogLevel conf)\<rparr>, c))))))))"

text \<open>The health check of the internal client asks for a path that the internal server does not route.\<close>

lemma health_check_not_routed: "\<not> list_ex (\<lambda>r. matchRoute (route_Path r) ''/networking/v1/internal/healthcheck'') internalRoutes"
  by code_simp

subsection \<open>From the start on\<close>

text \<open>The \<^verbatim>\<open>validate\<close> tags that bound numbers from below, as the validation library documents them.\<close>

definition enforces_minima :: "('d ps_Config \<Rightarrow> unit result) \<Rightarrow> bool" where
  "enforces_minima validate \<longleftrightarrow> (\<forall>conf. validate conf = Inr () \<longrightarrow>
     1 \<le> CleanupInterval conf \<and> 1 \<le> RequestTimeout conf \<and> 1 \<le> psc_MaxPolicies conf)"

text \<open>Migrations that succeed leave a well-formed database and the policies that were in it.\<close>

definition migrates :: "(string \<Rightarrow> conn \<Rightarrow> int result \<times> conn) \<Rightarrow> conn \<Rightarrow> bool" where
  "migrates mig c \<longleftrightarrow> (\<forall>d m c1. mig d c = (Inr m, c1) \<longrightarrow>
     conn_ok c1 \<and> saved c1 = None \<and> policy_set (tables c1) = policy_set (tables c))"

lemma started_world:
  assumes "policy_server_start P path c = (Inr p, c')" "migrates (psp_migrate P) c"
  shows "world_ok \<lparr>db = c', metrics = []\<rparr> \<and> world_policies \<lparr>db = c', metrics = []\<rparr> = policy_set (tables c) \<and>
    tagLength (pr_store p) \<in> {1..3}"
proof -
  obtain d n where start: "New d n (psp_migrate P) c = (Inr (pr_store p), c')"
    by (rule policy_server_start_Inr [OF assms(1)]) (rule that)
  obtain m c1 where mig: "psp_migrate P d c = (Inr m, c1)"
    using start by (auto simp: New_def split: if_splits prod.splits sum.splits)
  from assms(2) mig have c1: "conn_ok c1" "saved c1 = None" "policy_set (tables c1) = policy_set (tables c)"
    unfolding migrates_def by blast+
  from New_conn_ok [OF start mig c1(1,2)] c1(3) show ?thesis by (simp add: world_ok_def world_policies_def)
qed

text \<open>A policy server that has started never holds a policy without an origin: after any requests,
  clean-ups and metric reports, with any database faults, its tables are well-formed and each
  policy in them was there before the start or was asked for by a create request of a user who was
  admitted and passed the access guard. Its tags have one to three bytes, its quota is at least one
  and it cleans up at intervals of at least one second.\<close>

theorem policies_have_an_origin:
  assumes "policy_server_start P path c = (Inr p, c')" "migrates (psp_migrate P) c" "enforces_minima (psp_validate P)"
  shows "let w = ps_run p es \<lparr>db = c', metrics = []\<rparr> in
    world_ok w \<and> world_policies w \<subseteq> policy_set (tables c) \<union> (\<Union>ev \<in> set es. may_add (pr_env p) ev) \<and>
    tagLength (pr_store p) \<in> {1..3} \<and> 1 \<le> MaxPolicies (pr_env p) \<and> 1 \<le> pr_poll_interval p"
proof -
  obtain conf tls d where start: "psp_validate P conf = Inr ()"
    "New d (psc_TagLength conf) (psp_migrate P) c = (Inr (pr_store p), c')"
    "pr_env p = server_environment P conf tls" "pr_poll_interval p = CleanupInterval conf"
    by (rule policy_server_start_Inr [OF assms(1)])
  have "1 \<le> MaxPolicies (pr_env p) \<and> 1 \<le> pr_poll_interval p"
    using assms(3) start(1,3,4) by (auto simp: enforces_minima_def server_environment_def)
  with started_world [OF assms(1,2)] show ?thesis using ps_run_effect [of "\<lparr>db = c', metrics = []\<rparr>" p es] by (simp add: Let_def)
qed

definition demo_ps_Config :: "unit ps_Config" where
  "demo_ps_Config = \<lparr>ListenHost = ''0.0.0.0'', ListenPort = 4002, psc_LogPrefix = ''cfnetworking'', DebugServerHost = ''127.0.0.1'',
     DebugServerPort = 31821, UAAClient = ''network-policy'', UAAClientSecret = ''s'', UAACA = '''', UAAURL = ''https://uaa'', UAAPort = 8443,
     CCURL = ''https://cc'', psc_SkipSSLValidation = True, Database = (), psc_TagLength = 1, MetronAddress = ''127.0.0.1:3457'',
     LogLevel = ''info'', CleanupInterval = 60, CCAppRequestChunkSize = 0, RequestTimeout = 5, psc_MaxPolicies = 150,
     psc_EnableSpaceDeveloperSelfService = True, psc_AllowedCORSDomains = [], MaxIdleConnections = 10, MaxOpenConnections = 20\<rparr>"

definition demo_ps_platform :: "(unit, unit, unit) ps_platform" where
  "demo_ps_platform = \<lparr>psp_ReadFile = Inr, psp_unmarshal = (\<lambda>_. Inr demo_ps_Config),
     psp_validate = (\<lambda>conf. if 1 \<le> CleanupInterval conf \<and> 1 \<le> RequestTimeout conf \<and> 1 \<le> psc_MaxPolicies conf
        then Inr () else Inl (ErrText ''less than min'')),
     psp_pem = (\<lambda>_. None), psp_connect = (\<lambda>_ _. Connected (Inr ''mysql'')), psp_migrate = (\<lambda>_ c. (Inr 3, c)),
     psp_environment = (\<lambda>_ _ _ _ _. demo_env), psp_dropsonde = (\<lambda>_ _. Inr ()), psp_NewRouter = (\<lambda>_ _. Inr ())\<rparr>"

lemma demo_start: "\<exists>p c'. policy_server_start demo_ps_platform ''config.json'' empty_conn = (Inr p, c')"
  by (simp add: policy_server_start_def ps_config_New_def read_config_def client_tls_def start_store_def
      NewConnectionPool_def InitServer_def demo_ps_platform_def demo_ps_Config_def New_def MinTagLength_def MaxTagLength_def
      empty_conn_def populateTables_def query_row_def take_fault_def exec_def insert_null_groups_def)

lemma demo_migrates: "migrates (psp_migrate demo_ps_platform) empty_conn"
  by (simp add: migrates_def demo_ps_platform_def empty_conn_def conn_ok_def tables_ok_def groups_ok_def dests_ok_def policies_ok_def)

theorem policies_have_an_origin_witness:
  "\<exists>p c' w. policy_server_start demo_ps_platform ''config.json'' empty_conn = (Inr p, c') \<and>
     w = ps_run p [Http ''create_policies'' (demo_request [''Bearer t'']), Poll, Emit] \<lparr>db = c', metrics = []\<rparr> \<and>
     world_ok w \<and> world_policies w \<subseteq> may_add (pr_env p) (Http ''create_policies'' (demo_request [''Bearer t'']))"
proof -
  obtain p c' where start: "policy_server_start demo_ps_platform ''config.json'' empty_conn = (Inr p, c')"
    using demo_start by blast
  have minima: "enforces_minima (psp_validate demo_ps_platform)"
    by (simp add: enforces_minima_def demo_ps_platform_def)
  have "policy_set (tables empty_conn) = {}" by (simp add: empty_conn_def policy_set_def map_filter_simps)
  moreover have "may_add env Poll = {}" "may_add env Emit = {}" for env by (simp_all add: may_add_def)
  ultimately show ?thesis
    using start policies_have_an_origin [OF start demo_migrates minima, of "[Http ''create_policies'' (demo_request [''Bearer t'']), Poll, Emit]"]
    by (intro exI [of _ p] exI [of _ c'] exI) (auto simp: Let_def)
qed

end
