(* ===== verification/Concurrent_Requests.thy ===== *)
theory Concurrent_Requests
  imports Server_Process
begin

text \<open>
  Requests to the policy server that run at the same time. The HTTP server runs each request in a
  goroutine of its own, beside the poller of the cleaner and the metrics emitter of \<^verbatim>\<open>main.go\<close>. What they
  share is the store. A handler is written here as a program that stops at each of its calls of the
  store; run without interruption it is the handler of the theory \<^verbatim>\<open>Handlers\<close>. The goroutines interleave
  at those calls. One call of the store is one step: it is a single transaction or a single query,
  and the isolation of the database is what makes it so.
\<close>

subsection \<open>Programs that call the store\<close>

datatype 'a prog =
    Return 'a
  | CallAll "Policy list result \<Rightarrow> 'a prog"
  | CallCreate "Policy list" "unit result \<Rightarrow> 'a prog"
  | CallDelete "Policy list" "unit result \<Rightarrow> 'a prog"
  | CallTags "Tag list result \<Rightarrow> 'a prog"
  | CallByGuids "string list" "string list" bool "Policy list result \<Rightarrow> 'a prog"
  | CallCheckDatabase "unit result \<Rightarrow> 'a prog"

fun step_prog :: "'s dataStore \<Rightarrow> 'a prog \<Rightarrow> 's \<Rightarrow> 'a prog \<times> 's" where
  "step_prog ds (Return x) s = (Return x, s)"
| "step_prog ds (CallAll k) s = (case ds_All ds s of (r, s) \<Rightarrow> (k r, s))"
| "step_prog ds (CallCreate ps k) s = (case ds_Create ds ps s of (r, s) \<Rightarrow> (k r, s))"
| "step_prog ds (CallDelete ps k) s = (case ds_Delete ds ps s of (r, s) \<Rightarrow> (k r, s))"
| "step_prog ds (CallTags k) s = (case ds_Tags ds s of (r, s) \<Rightarrow> (k r, s))"
| "step_prog ds (CallByGuids srcs dsts both k) s = (case ds_ByGuids ds srcs dsts both s of (r, s) \<Rightarrow> (k r, s))"
| "step_prog ds (CallCheckDatabase k) s = (case ds_CheckDatabase ds s of (r, s) \<Rightarrow> (k r, s))"

fun returned :: "'a prog \<Rightarrow> bool" where
  "returned (Return x) = True"
| "returned q = False"

text \<open>A program that nothing interrupts.\<close>

primrec run_prog :: "'s dataStore \<Rightarrow> 'a prog \<Rightarrow> 's \<Rightarrow> 'a \<times> 's" where
  "run_prog ds (Return x) = (\<lambda>s. (x, s))"
| "run_prog ds (CallAll k) = (\<lambda>s. case ds_All ds s of (r, s) \<Rightarrow> run_prog ds (k r) s)"
| "run_prog ds (CallCreate ps k) = (\<lambda>s. case ds_Create ds ps s of (r, s) \<Rightarrow> run_prog ds (k r) s)"
| "run_prog ds (CallDelete ps k) = (\<lambda>s. case ds_Delete ds ps s of (r, s) \<Rightarrow> run_prog ds (k r) s)"
| "run_prog ds (CallTags k) = (\<lambda>s. case ds_Tags ds s of (r, s) \<Rightarrow> run_prog ds (k r) s)"
| "run_prog ds (CallByGuids srcs dsts both k) = (\<lambda>s. case ds_ByGuids ds srcs dsts both s of (r, s) \<Rightarrow> run_prog ds (k r) s)"
| "run_prog ds (CallCheckDatabase k) = (\<lambda>s. case ds_CheckDatabase ds s of (r, s) \<Rightarrow> run_prog ds (k r) s)"

lemma run_step: "run_prog ds q s = run_prog ds (fst (step_prog ds q s)) (snd (step_prog ds q s))"
  by (cases q) (simp_all split: prod.split)

lemma prog_step_induct:
  assumes "\<And>x s. P (Return x) s" "\<And>q s. P (fst (step_prog ds q s)) (snd (step_prog ds q s)) \<Longrightarrow> P q s"
  shows "P q s"
  by (induction q arbitrary: s) (auto intro: assms simp: split_beta)

subsection \<open>The handlers as programs\<close>

definition PoliciesCreate_prog :: "(go_error \<Rightarrow> string) \<Rightarrow> policyMapper \<Rightarrow> (Policy list \<Rightarrow> CheckTokenResponse \<Rightarrow> bool result) \<Rightarrow>
    range \<Rightarrow> int \<Rightarrow> request \<Rightarrow> reply prog" where
  "PoliciesCreate_prog errText mapper policyGuard rng maxPolicies req =
     (let tokenData = getTokenData req in
      case Body req of
        Inl e \<Rightarrow> Return (ErrorReply BadRequest (Some e) ''failed reading request body'')
      | Inr bodyBytes \<Rightarrow> (case m_AsStorePolicy mapper bodyBytes of
          Inl e \<Rightarrow> Return (ErrorReply BadRequest (Some e) (''mapper: '' @ errText e))
        | Inr ps \<Rightarrow> (case policyGuard ps tokenData of
            Inl e \<Rightarrow> Return (ErrorReply InternalServerError (Some e) ''check access failed'')
          | Inr authorized \<Rightarrow>
              if \<not> authorized
              then Return (ErrorReply Forbidden (Some (ErrText ''one or more applications cannot be found or accessed''))
                      ''one or more applications cannot be found or accessed'')
              else (let store_them = CallCreate ps (\<lambda>r. case r of
                            Inl e \<Rightarrow> Return (ErrorReply InternalServerError (Some e) ''database create failed'')
                          | Inr _ \<Rightarrow> Return (OK ''{}'')) in
                if isNetworkAdmin (Scope tokenData) then store_them
                else let appGuids = uniqueAppGUIDs rng ps in
                  CallByGuids appGuids [] False (\<lambda>r. case r of
                      Inl e \<Rightarrow> Return (ErrorReply InternalServerError (Some (Errorf ''getting policies: '' e)) ''check quota failed'')
                    | Inr sourcePolicies \<Rightarrow>
                        if \<not> within_quota maxPolicies (sourceCounts sourcePolicies appGuids) (sourceCounts ps appGuids) appGuids
                        then Return (ErrorReply Forbidden (Some (ErrText ''policy quota exceeded'')) ''policy quota exceeded'')
                        else store_them)))))"

definition PoliciesDelete_prog :: "(go_error \<Rightarrow> string) \<Rightarrow> policyMapper \<Rightarrow> (Policy list \<Rightarrow> CheckTokenResponse \<Rightarrow> bool result) \<Rightarrow>
    request \<Rightarrow> reply prog" where
  "PoliciesDelete_prog errText mapper policyGuard req =
     (let tokenData = getTokenData req in
      case Body req of
        Inl e \<Rightarrow> Return (ErrorReply BadRequest (Some e) ''invalid request body'')
      | Inr bodyBytes \<Rightarrow> (case m_AsStorePolicy mapper bodyBytes of
          Inl e \<Rightarrow> Return (ErrorReply BadRequest (Some e) (''mapper: '' @ errText e))
        | Inr ps \<Rightarrow> (case policyGuard ps tokenData of
            Inl e \<Rightarrow> Return (ErrorReply InternalServerError (Some e) ''check access failed'')
          | Inr authorized \<Rightarrow>
              if \<not> authorized
              then Return (ErrorReply Forbidden (Some (ErrText ''one or more applications cannot be found or accessed''))
                      ''one or more applications cannot be found or accessed'')
              else CallDelete ps (\<lambda>r. case r of
                  Inl e \<Rightarrow> Return (ErrorReply InternalServerError (Some e) ''database delete failed'')
                | Inr _ \<Rightarrow> Return (OK ''{}'')))))"

definition PoliciesIndex_prog :: "policyMapper \<Rightarrow> (Policy list \<Rightarrow> CheckTokenResponse \<Rightarrow> Policy list result) \<Rightarrow> request \<Rightarrow> reply prog" where
  "PoliciesIndex_prog mapper policyFilter req =
     (let userToken = getTokenData req;
          ids = parseIds (URLQuery req);
          sourceIDs = parseSourceIds (URLQuery req);
          destIDs = parseDestIds (URLQuery req);
          show_them = (\<lambda>r. case r of
              Inl e \<Rightarrow> Return (ErrorReply InternalServerError (Some e) ''database read failed'')
            | Inr storePolicies \<Rightarrow> (case policyFilter storePolicies userToken of
                Inl e \<Rightarrow> Return (ErrorReply InternalServerError (Some e) ''filter policies failed'')
              | Inr ps \<Rightarrow> (case m_AsBytes mapper (map clear_tags ps) of
                  Inl e \<Rightarrow> Return (ErrorReply InternalServerError (Some e) ''map policy as bytes failed'')
                | Inr bytes \<Rightarrow> Return (OK bytes)))) in
      if length ids > 0 then CallByGuids ids ids False show_them
      else if length sourceIDs > 0 \<and> length destIDs > 0 then CallByGuids sourceIDs destIDs True show_them
      else if length sourceIDs > 0 then CallByGuids sourceIDs [] False show_them
      else if length destIDs > 0 then CallByGuids [] destIDs False show_them
      else CallAll show_them)"

text \<open>The cleaner asks the Cloud Controller between its calls of the store; \<open>finish\<close> receives its result.\<close>

fun stale_chunks_prog :: "(string \<Rightarrow> string list \<Rightarrow> string list result) \<Rightarrow> (Policy list result \<Rightarrow> 'a prog) \<Rightarrow> string \<Rightarrow> Policy list \<Rightarrow>
    string list list \<Rightarrow> Policy list \<Rightarrow> 'a prog" where
  "stale_chunks_prog getLive finish token ps [] stalePolicies = finish (Inr stalePolicies)"
| "stale_chunks_prog getLive finish token ps (chunk # chunks) stalePolicies = (case getLive token chunk of
       Inl e \<Rightarrow> finish (Inl (Errorf ''get app guids from Cloud-Controller failed: '' e))
     | Inr liveAppGUIDs \<Rightarrow>
         (let toDelete = getStalePolicies ps (getStaleAppGUIDs liveAppGUIDs chunk) in
          CallDelete toDelete (\<lambda>r. case r of
            Inl e \<Rightarrow> finish (Inl (Errorf ''database write failed: '' e))
          | Inr _ \<Rightarrow> stale_chunks_prog getLive finish token ps chunks (stalePolicies @ toDelete))))"

definition DeleteStalePolicies_prog :: "range \<Rightarrow> string result \<Rightarrow> (string \<Rightarrow> string list \<Rightarrow> string list result) \<Rightarrow> int \<Rightarrow>
    (Policy list result \<Rightarrow> 'a prog) \<Rightarrow> 'a prog" where
  "DeleteStalePolicies_prog rng getToken getLive chunks_of finish = CallAll (\<lambda>r. case r of
       Inl e \<Rightarrow> finish (Inl (Errorf ''database read failed: '' e))
     | Inr ps \<Rightarrow> (case getToken of
         Inl e \<Rightarrow> finish (Inl (Errorf ''get UAA token failed: '' e))
       | Inr token \<Rightarrow>
           stale_chunks_prog getLive finish token ps (cleaner_getChunks (policyAppGUIDs rng ps) chunks_of) []))"

definition PoliciesCleanup_prog :: "environment \<Rightarrow> reply prog" where
  "PoliciesCleanup_prog env = DeleteStalePolicies_prog (env_rng env) (uaa_GetToken (env_uaa env)) (env_getLive env) 100
     (\<lambda>r. case r of
        Inl e \<Rightarrow> Return (ErrorReply InternalServerError (Some e) ''policies cleanup failed'')
      | Inr ps \<Rightarrow> (case m_AsBytes (env_mapper1 env) (map clear_tags ps) of
          Inl e \<Rightarrow> Return (ErrorReply InternalServerError (Some e) ''map policy as bytes failed'')
        | Inr bytes \<Rightarrow> Return (OK bytes)))"

definition TagsIndex_prog :: "(api_Tag list \<Rightarrow> string result) \<Rightarrow> reply prog" where
  "TagsIndex_prog marshal = CallTags (\<lambda>r. case r of
       Inl e \<Rightarrow> Return (ErrorReply InternalServerError (Some e) ''database read failed'')
     | Inr ts \<Rightarrow> (case marshal (MapStoreTags ts) of
         Inl e \<Rightarrow> Return (ErrorReply InternalServerError (Some e) ''database marshalling failed'')
       | Inr bytes \<Rightarrow> Return (OK bytes)))"

definition Health_prog :: "reply prog" where
  "Health_prog = CallCheckDatabase (\<lambda>r. case r of
       Inl e \<Rightarrow> Return (ErrorReply InternalServerError (Some e) ''check database failed'')
     | Inr _ \<Rightarrow> Return Empty)"

text \<open>
  The version check and the authentication come before any call of the store: they either answer or
  pass a mapper and a request on.
\<close>

definition protected_prog :: "environment \<Rightarrow> authenticator \<Rightarrow> (policyMapper \<Rightarrow> request \<Rightarrow> reply prog) \<Rightarrow> request \<Rightarrow> reply prog" where
  "protected_prog env a h req = (case protected env a (\<lambda>mapper req _. (Empty, Some (mapper, req))) req None of
       (_, Some (mapper, req)) \<Rightarrow> h mapper req | (r, None) \<Rightarrow> Return r)"

definition handler_prog :: "environment \<Rightarrow> string \<Rightarrow> (request \<Rightarrow> reply prog) option" where
  "handler_prog env name = map_of
     [(''options'', \<lambda>req. Return Empty),
      (''uptime'', \<lambda>req. Return (fst (UptimeHandler (env_uptime env) req ()))),
      (''health'', \<lambda>req. Health_prog),
      (''create_policies'', protected_prog env (write_auth env) (\<lambda>mapper. PoliciesCreate_prog (env_errText env) mapper
          (PolicyGuard_CheckAccess (env_rng env) (env_cc env) (env_uaa env)) (env_rng env) (MaxPolicies env))),
      (''delete_policies'', protected_prog env (write_auth env) (\<lambda>mapper. PoliciesDelete_prog (env_errText env) mapper
          (PolicyGuard_CheckAccess (env_rng env) (env_cc env) (env_uaa env)))),
      (''policies_index'', protected_prog env (write_auth env) (\<lambda>mapper. PoliciesIndex_prog mapper
          (FilterPolicies (env_rng env) (env_cc env) (env_uaa env) 100))),
      (''cleanup'', protected_prog env (admin_auth env) (\<lambda>_ req. PoliciesCleanup_prog env)),
      (''tags_index'', protected_prog env (admin_auth env) (\<lambda>_ req. TagsIndex_prog (env_marshalTags env))),
      (''whoami'', protected_prog env (admin_auth env) (\<lambda>_ req. Return (fst (WhoAmIHandler False (env_marshalWho env) req ()))))] name"

text \<open>What a goroutine leaves behind: the headers and reply of a request, the result of a clean-up, a metric.\<close>

datatype outcome =
    NoHandler
  | Replied "(string \<times> string) list" reply
  | Cleaned "unit result"
  | Counted "int \<times> go_error option"

fun event_prog :: "environment \<Rightarrow> ps_event \<Rightarrow> outcome prog" where
  "event_prog env (Http name req) = (case handler_prog env name of
       None \<Rightarrow> Return NoHandler
     | Some h \<Rightarrow> map_prog (Replied (cors_headers (AddOptionsRoutes ''options'' externalRoutes) (AllowedCORSDomains env) req)) (h req))"
| "event_prog env Poll = DeleteStalePolicies_prog (env_rng env) (uaa_GetToken (env_uaa env)) (env_getLive env) 100
     (\<lambda>r. Return (Cleaned (case r of Inl e \<Rightarrow> Inl e | Inr _ \<Rightarrow> Inr ())))"
| "event_prog env Emit = CallAll (\<lambda>r. Return (Counted (case r of Inl e \<Rightarrow> (0, Some e) | Inr ps \<Rightarrow> (int (length ps), None))))"

subsection \<open>Goroutines over one store\<close>

definition reply_of :: "outcome prog \<Rightarrow> reply option" where
  "reply_of q = (case q of Return (Replied hs r) \<Rightarrow> Some r | _ \<Rightarrow> None)"

record system =
  shared :: world
  goroutines :: "(ps_event \<times> outcome prog) list"

text \<open>A request, a tick of the poller or of the emitter starts a goroutine; a goroutine that has its turn
  makes its next call of the store.\<close>

datatype move = Arrive ps_event | Advance nat

fun sys_move :: "ps_process \<Rightarrow> move \<Rightarrow> system \<Rightarrow> system" where
  "sys_move p (Arrive ev) s = s\<lparr>goroutines := goroutines s @ [(ev, event_prog (pr_env p) ev)]\<rparr>"
| "sys_move p (Advance i) s = (if i < length (goroutines s)
     then case step_prog (metered_store (pr_store p)) (snd (goroutines s ! i)) (shared s) of
            (q, w) \<Rightarrow> s\<lparr>shared := w, goroutines := (goroutines s)[i := (fst (goroutines s ! i), q)]\<rparr>
     else s)"

definition sys_run :: "ps_process \<Rightarrow> move list \<Rightarrow> system \<Rightarrow> system" where
  "sys_run p ms s = fold (sys_move p) ms s"

definition sys_start :: "conn \<Rightarrow> system" where
  "sys_start c = \<lparr>shared = \<lparr>db = c, metrics = []\<rparr>, goroutines = []\<rparr>"

definition arrivals :: "move list \<Rightarrow> ps_event list" where
  "arrivals ms = concat (map (\<lambda>m. case m of Arrive ev \<Rightarrow> [ev] | Advance _ \<Rightarrow> []) ms)"

lemma arrivals_simps [simp]:
  "arrivals [] = []" "arrivals (Arrive ev # ms) = ev # arrivals ms" "arrivals (Advance i # ms) = arrivals ms"
  "arrivals (ms @ ms') = arrivals ms @ arrivals ms'"
  by (simp_all add: arrivals_def)

lemma sys_run_simps [simp]:
  "sys_run p [] s = s" "sys_run p (m # ms) s = sys_run p ms (sys_move p m s)" "sys_run p (ms @ ms') s = sys_run p ms' (sys_run p ms s)"
  by (simp_all add: sys_run_def)

subsection \<open>A program without interruption is its handler\<close>

lemma run_map_prog: "run_prog ds (map_prog f q) s = (case run_prog ds q s of (x, s) \<Rightarrow> (f x, s))"
  by (induction q arbitrary: s) (simp_all split: prod.split)

lemma run_PoliciesCreate:
  "run_prog ds (PoliciesCreate_prog errText mapper pg rng mx req) s =
     PoliciesCreate errText ds mapper pg (QuotaGuard_CheckAccess rng ds mx) req s"
  by (simp add: PoliciesCreate_prog_def PoliciesCreate_def QuotaGuard_CheckAccess_def Let_def split: sum.split prod.split)

lemma run_PoliciesDelete:
  "run_prog ds (PoliciesDelete_prog errText mapper pg req) s = PoliciesDelete errText ds mapper pg req s"
  by (simp add: PoliciesDelete_prog_def PoliciesDelete_def Let_def split: sum.split prod.split)

lemma run_PoliciesIndex: "run_prog ds (PoliciesIndex_prog mapper filt req) s = PoliciesIndex ds mapper filt req s"
  by (cases "parseIds (URLQuery req)"; cases "parseSourceIds (URLQuery req)"; cases "parseDestIds (URLQuery req)")
    (simp_all add: PoliciesIndex_prog_def PoliciesIndex_def Let_def split: sum.split prod.split)

lemma run_stale_chunks:
  "run_prog ds (stale_chunks_prog getLive fin token ps chunks acc) s =
     (case delete_stale_chunks getLive ds token ps chunks acc s of (r, s) \<Rightarrow> run_prog ds (fin r) s)"
  by (induction chunks arbitrary: acc s) (simp_all add: Let_def split: sum.split prod.split)

lemma run_DeleteStalePolicies:
  "run_prog ds (DeleteStalePolicies_prog rng getToken getLive n fin) s =
     (case DeleteStalePolicies rng getToken getLive n ds s of (r, s) \<Rightarrow> run_prog ds (fin r) s)"
  by (simp add: DeleteStalePolicies_prog_def DeleteStalePolicies_def run_stale_chunks split: sum.split prod.split)

lemma run_protected:
  assumes "\<And>m req. run_prog ds (h m req) s = h' m req s"
  shows "run_prog ds (protected_prog env a h req) s = protected env a h' req s"
  by (simp add: protected_prog_def protected_def versionWrap_def CheckVersion_def auth_Wrap_def Let_def assms
      split: option.split sum.split list.split)

lemmas run_handlers = run_PoliciesCreate run_PoliciesDelete run_PoliciesIndex run_DeleteStalePolicies

lemma run_handler_prog:
  "map_option (\<lambda>h. run_prog ds (h req) s) (handler_prog env name) = map_option (\<lambda>h. h req s) (map_of (externalHandlers env ds) name)"
proof -
  have clean: "run_prog ds (PoliciesCleanup_prog env) s = cleanup_handler env ds req' s" for req'
    by (simp add: PoliciesCleanup_prog_def cleanup_handler_def PoliciesCleanup_def run_handlers split: prod.split sum.split)
  have tags: "run_prog ds (TagsIndex_prog marshal) s = TagsIndex ds marshal req' s" for marshal req'
    by (simp add: TagsIndex_prog_def TagsIndex_def split: prod.split sum.split)
  have health: "run_prog ds Health_prog s = Health ds req s"
    by (simp add: Health_prog_def Health_def split: prod.split sum.split)
  have who: "run_prog ds (Return (fst (WhoAmIHandler b marshal req' ()))) s = WhoAmIHandler b marshal req' s" for b marshal req'
    by (simp add: WhoAmIHandler_def split: sum.split)
  have up: "(fst (UptimeHandler t req ()), s) = UptimeHandler t req s" for t
    by (simp add: UptimeHandler_def)
  have "run_prog ds (protected_prog env (write_auth env) (\<lambda>mapper. PoliciesCreate_prog (env_errText env) mapper
          (PolicyGuard_CheckAccess (env_rng env) (env_cc env) (env_uaa env)) (env_rng env) (MaxPolicies env)) req) s =
      protected env (write_auth env) (create_handler env ds) req s"
    by (rule run_protected) (simp add: run_handlers create_handler_def)
  moreover have "run_prog ds (protected_prog env (write_auth env) (\<lambda>mapper. PoliciesDelete_prog (env_errText env) mapper
          (PolicyGuard_CheckAccess (env_rng env) (env_cc env) (env_uaa env))) req) s =
      protected env (write_auth env) (delete_handler env ds) req s"
    by (rule run_protected) (simp add: run_handlers delete_handler_def)
  moreover have "run_prog ds (protected_prog env (write_auth env) (\<lambda>mapper. PoliciesIndex_prog mapper
          (FilterPolicies (env_rng env) (env_cc env) (env_uaa env) 100)) req) s =
      protected env (write_auth env) (index_handler env ds) req s"
    by (rule run_protected) (simp add: run_handlers index_handler_def)
  moreover have "run_prog ds (protected_prog env (admin_auth env) (\<lambda>_ req. PoliciesCleanup_prog env) req) s =
      protected env (admin_auth env) (\<lambda>_. cleanup_handler env ds) req s"
    by (rule run_protected) (rule clean)
  moreover have "run_prog ds (protected_prog env (admin_auth env) (\<lambda>_ req. TagsIndex_prog (env_marshalTags env)) req) s =
      protected env (admin_auth env) (\<lambda>_. TagsIndex ds (env_marshalTags env)) req s"
    by (rule run_protected) (rule tags)
  moreover have "run_prog ds (protected_prog env (admin_auth env) (\<lambda>_ req. Return (fst (WhoAmIHandler False (env_marshalWho env) req ()))) req) s =
      protected env (admin_auth env) (\<lambda>_. WhoAmIHandler False (env_marshalWho env)) req s"
    by (rule run_protected) (rule who)
  ultimately show ?thesis
    by (simp add: handler_prog_def externalHandlers_def health up protected_def authWrite_eq authAdmin_eq)
qed

text \<open>A request that is not interrupted is served as \<open>serve_external\<close> serves it.\<close>

lemma run_http:
  "run_prog ds (event_prog env (Http name req)) s = (case serve_external env ds name req s of
      None \<Rightarrow> (NoHandler, s) | Some ((hs, r), s) \<Rightarrow> (Replied hs r, s))"
proof (cases "handler_prog env name")
  case None
  with run_handler_prog [of ds req s env name] show ?thesis by (simp add: serve_external_def)
next
  case (Some h)
  with run_handler_prog [of ds req s env name] obtain h' where
    "map_of (externalHandlers env ds) name = Some h'" "run_prog ds (h req) s = h' req s"
    by (cases "map_of (externalHandlers env ds) name") simp_all
  with Some show ?thesis by (simp add: serve_external_def run_map_prog cors_Wrap_def split: prod.split)
qed

subsection \<open>What a program may write\<close>

primrec stays_within :: "policy_key set \<Rightarrow> policy_key set \<Rightarrow> 'a prog \<Rightarrow> bool" where
  "stays_within A R (Return x) \<longleftrightarrow> True"
| "stays_within A R (CallAll k) \<longleftrightarrow> (\<forall>r. stays_within A R (k r))"
| "stays_within A R (CallCreate ps k) \<longleftrightarrow> key_of ` set ps \<subseteq> A \<and> (\<forall>r. stays_within A R (k r))"
| "stays_within A R (CallDelete ps k) \<longleftrightarrow> key_of ` set ps \<subseteq> R \<and> (\<forall>r. stays_within A R (k r))"
| "stays_within A R (CallTags k) \<longleftrightarrow> (\<forall>r. stays_within A R (k r))"
| "stays_within A R (CallByGuids srcs dsts both k) \<longleftrightarrow> (\<forall>r. stays_within A R (k r))"
| "stays_within A R (CallCheckDatabase k) \<longleftrightarrow> (\<forall>r. stays_within A R (k r))"

lemma stays_within_map [simp]: "stays_within A R (map_prog f q) = stays_within A R q"
  by (induction q) auto

lemma stays_within_mono: "stays_within A R q \<Longrightarrow> A \<subseteq> A' \<Longrightarrow> R \<subseteq> R' \<Longrightarrow> stays_within A' R' q"
  by (induction q) auto

lemma stays_within_UNIV: "stays_within UNIV UNIV q"
  by (induction q) auto

text \<open>One step of a program changes the policies by what the program may write, and by nothing else.\<close>


context data_store
begin

lemma step_within:
  assumes "valid s" "stays_within A R q" "step_prog ds q s = (q', s')"
  shows "valid s' \<and> stays_within A R q' \<and> stored s' \<subseteq> stored s \<union> A \<and> stored s - R \<subseteq> stored s'"
proof (cases q)
  case (CallCreate ps k)
  with assms(2,3) create [OF assms(1)] show ?thesis by (fastforce split: prod.splits sum.splits)
next
  case (CallDelete ps k)
  with assms(2,3) delete [OF assms(1)] show ?thesis by (fastforce split: prod.splits sum.splits)
next
  case (CallAll k)
  with assms(2,3) all [OF assms(1)] show ?thesis by (fastforce split: prod.splits)
next
  case (CallByGuids srcs dsts both k)
  with assms(2,3) by_guids [OF assms(1)] show ?thesis by (fastforce split: prod.splits)
qed (use assms tags [OF assms(1)] check [OF assms(1)] in \<open>fastforce split: prod.splits\<close>)+

end

text \<open>What an event may remove: a delete request, the policies its body maps to, for an admitted user who
  passed the access guard; a clean-up, the policies of an application that the Cloud Controller did
  not list when it was asked for it.\<close>

definition reported_gone :: "environment \<Rightarrow> string \<Rightarrow> bool" where
  "reported_gone env app \<longleftrightarrow> (\<exists>token guids ls. uaa_GetToken (env_uaa env) = Inr token \<and> app \<in> set guids \<and>
     env_getLive env token guids = Inr ls \<and> app \<notin> set ls)"

definition may_remove :: "environment \<Rightarrow> ps_event \<Rightarrow> policy_key set" where
  "may_remove env ev = {k.
     (\<exists>req t b ps. ev = Http ''delete_policies'' req \<and> admitted (write_auth env) req = Some t \<and> Body req = Inr b \<and>
        m_AsStorePolicy (mapper_for env (VersionParam req)) b = Inr ps \<and>
        PolicyGuard_CheckAccess (env_rng env) (env_cc env) (env_uaa env) ps t = Inr True \<and> k \<in> key_of ` set ps) \<or>
     (ev = Poll \<or> (\<exists>req t. ev = Http ''cleanup'' req \<and> admitted (admin_auth env) req = Some t)) \<and>
        (reported_gone env (k_src k) \<or> reported_gone env (k_dst k))}"

lemma protected_prog_cases:
  obtains (refused) kind e msg where "protected_prog env a h req = Return (ErrorReply kind e msg)"
  | (served) t where "admitted a req = Some t"
      "protected_prog env a h req = h (mapper_for env (VersionParam req)) (req\<lparr>Body := limit_body (Body req), TokenData := Some t\<rparr>)"
proof -
  obtain r s where run: "protected env a (\<lambda>mapper req _. (Empty, Some (mapper, req))) req None = (r, s)" by fastforce
  then show thesis
    by (cases rule: protected_cases) (use that run in \<open>auto simp: protected_prog_def\<close>)
qed

lemma stale_chunks_within:
  assumes "uaa_GetToken (env_uaa env) = Inr token" "\<And>r. stays_within A R (fin r)"
    and "{k. reported_gone env (k_src k) \<or> reported_gone env (k_dst k)} \<subseteq> R"
  shows "stays_within A R (stale_chunks_prog (env_getLive env) fin token ps chunks acc)"
proof (induction chunks arbitrary: acc)
  case (Cons chunk chunks)
  have "key_of ` set (getStalePolicies ps (getStaleAppGUIDs ls chunk)) \<subseteq> R" if "env_getLive env token chunk = Inr ls" for ls
    using assms(1,3) that by (fastforce simp: getStalePolicies_def getStaleAppGUIDs_def key_of_def reported_gone_def)
  with Cons show ?case by (simp add: assms(2) Let_def split: sum.split)
qed (simp add: assms(2))

lemma cleaner_within:
  assumes "\<And>r. stays_within A R (fin r)" "{k. reported_gone env (k_src k) \<or> reported_gone env (k_dst k)} \<subseteq> R"
  shows "stays_within A R (DeleteStalePolicies_prog (env_rng env) (uaa_GetToken (env_uaa env)) (env_getLive env) n fin)"
  using stale_chunks_within [OF _ assms] assms(1) by (simp add: DeleteStalePolicies_prog_def split: sum.split)

lemma event_within: "stays_within (may_add env ev) (may_remove env ev) (event_prog env ev)"
proof (cases ev)
  case Poll
  then show ?thesis by (auto intro!: cleaner_within simp: may_remove_def)
next
  case Emit
  then show ?thesis by simp
next
  case (Http name req)
  have protect: "stays_within A R (protected_prog env a h req)"
    if "\<And>t. admitted a req = Some t \<Longrightarrow> stays_within A R (h (mapper_for env (VersionParam req)) (req\<lparr>Body := limit_body (Body req), TokenData := Some t\<rparr>))"
    for A R a h
    by (rule protected_prog_cases [of env a h req]) (use that in auto)
  have "stays_within (may_add env ev) (may_remove env ev) (h req)" if h: "handler_prog env name = Some h" for h
  proof -
    consider "h = (\<lambda>req. Return Empty)" | "h = (\<lambda>req. Return (fst (UptimeHandler (env_uptime env) req ())))" | "h = (\<lambda>req. Health_prog)"
      | "name = ''create_policies''" | "name = ''delete_policies''" | "name = ''policies_index''"
      | "name = ''cleanup''" | "name = ''tags_index''" | "name = ''whoami''"
      using h unfolding handler_prog_def by (auto split: if_splits)
    then show ?thesis
    proof cases
      case 4
      with h show ?thesis unfolding Http
        by (auto simp: handler_prog_def PoliciesCreate_prog_def Let_def may_add_def getTokenData_def
            intro!: protect dest!: limit_body_Inr split: sum.split)
    next
      case 5
      with h show ?thesis unfolding Http
        by (auto simp: handler_prog_def PoliciesDelete_prog_def Let_def may_remove_def getTokenData_def
            intro!: protect dest!: limit_body_Inr split: sum.split)
    next
      case 6
      with h show ?thesis
        by (auto simp: handler_prog_def PoliciesIndex_prog_def Let_def intro!: protect split: sum.split)
    next
      case 7
      with h show ?thesis unfolding Http
        by (auto simp: handler_prog_def PoliciesCleanup_prog_def may_remove_def intro!: protect cleaner_within split: sum.split)
    next
      case 8
      with h show ?thesis by (auto simp: handler_prog_def TagsIndex_prog_def intro!: protect split: sum.split)
    next
      case 9
      with h show ?thesis by (auto simp: handler_prog_def intro!: protect)
    qed (simp_all add: Health_prog_def split: sum.split)
  qed
  with Http show ?thesis by (simp split: option.split)
qed

subsection \<open>All goroutines together\<close>

text \<open>
  Reasoning about one goroutine at a time. \<open>asserts ev q w\<close> is what holds of a goroutine that serves \<open>ev\<close> and has
  \<open>q\<close> left to do while the shared state is \<open>w\<close>. It holds when an admissible event arrives, a step of the
  goroutine keeps it and changes the shared state by \<open>guar\<close> only, and no step that others may make
  destroys it. Then it holds of all goroutines under every interleaving.
\<close>

locale rely_guarantee =
  fixes p :: ps_process and asserts :: "ps_event \<Rightarrow> outcome prog \<Rightarrow> world \<Rightarrow> bool"
    and guar :: "world \<Rightarrow> world \<Rightarrow> bool" and admissible :: "ps_event \<Rightarrow> bool"
  assumes begins: "world_ok w \<Longrightarrow> admissible ev \<Longrightarrow> asserts ev (event_prog (pr_env p) ev) w"
    and steps: "world_ok w \<Longrightarrow> asserts ev q w \<Longrightarrow> step_prog (metered_store (pr_store p)) q w = (q', w') \<Longrightarrow>
      world_ok w' \<and> guar w w' \<and> asserts ev q' w'"
    and stable: "guar w w' \<Longrightarrow> asserts ev q w \<Longrightarrow> asserts ev q w'"
    and guar_refl: "guar w w"
    and guar_trans: "guar w w' \<Longrightarrow> guar w' w'' \<Longrightarrow> guar w w''"
begin

definition keeps :: "system \<Rightarrow> bool" where
  "keeps s \<longleftrightarrow> world_ok (shared s) \<and> (\<forall>(ev, q) \<in> set (goroutines s). asserts ev q (shared s))"

lemma keeps_start: "world_ok w \<Longrightarrow> keeps \<lparr>shared = w, goroutines = []\<rparr>"
  by (simp add: keeps_def)

lemma keeps_nth: "keeps s \<Longrightarrow> i < length (goroutines s) \<Longrightarrow> asserts (fst (goroutines s ! i)) (snd (goroutines s ! i)) (shared s)"
  using nth_mem [of i "goroutines s"] by (fastforce simp: keeps_def split: prod.splits)

lemma keeps_world: "keeps s \<Longrightarrow> world_ok (shared s)"
  by (simp add: keeps_def)

lemma move_keeps:
  assumes "keeps s" "list_all admissible (arrivals [m])"
  shows "keeps (sys_move p m s) \<and> guar (shared s) (shared (sys_move p m s))"
proof (cases m)
  case (Arrive ev)
  with assms begins show ?thesis by (auto simp: keeps_def guar_refl)
next
  case (Advance i)
  show ?thesis
  proof (cases "i < length (goroutines s)")
    case True
    obtain q w where step: "step_prog (metered_store (pr_store p)) (snd (goroutines s ! i)) (shared s) = (q, w)" by fastforce
    from steps [OF keeps_world [OF assms(1)] keeps_nth [OF assms(1) True] step]
    have one: "world_ok w" "guar (shared s) w" "asserts (fst (goroutines s ! i)) q w" by auto
    with assms(1) stable [OF one(2)] Advance True step show ?thesis
      by (auto simp: keeps_def dest!: set_update_subset_insert [THEN subsetD])
  qed (use Advance assms(1) guar_refl in auto)
qed

lemma run_keeps:
  "keeps s \<Longrightarrow> list_all admissible (arrivals ms) \<Longrightarrow> keeps (sys_run p ms s) \<and> guar (shared s) (shared (sys_run p ms s))"
proof (induction ms arbitrary: s)
  case (Cons m ms)
  have arr: "list_all admissible (arrivals [m])" "list_all admissible (arrivals ms)" using Cons.prems(2) by (cases m; simp)+
  from move_keeps [OF Cons.prems(1) arr(1)] Cons.IH [OF _ arr(2), of "sys_move p m s"] show ?case
    using guar_trans by auto
qed (simp add: guar_refl)

end

text \<open>Programs that add at most \<open>A\<close> and remove at most \<open>R\<close>.\<close>

definition writes_within :: "policy_key set \<Rightarrow> policy_key set \<Rightarrow> world \<Rightarrow> world \<Rightarrow> bool" where
  "writes_within A R w w' \<longleftrightarrow> world_policies w' \<subseteq> world_policies w \<union> A \<and> world_policies w - R \<subseteq> world_policies w'"

definition event_writes :: "environment \<Rightarrow> policy_key set \<Rightarrow> policy_key set \<Rightarrow> ps_event \<Rightarrow> bool" where
  "event_writes env A R ev \<longleftrightarrow> may_add env ev \<subseteq> A \<and> may_remove env ev \<subseteq> R"

lemma writes_within_refl: "writes_within A R w w"
  by (auto simp: writes_within_def)

lemma writes_within_trans: "writes_within A R w w' \<Longrightarrow> writes_within A R w' w'' \<Longrightarrow> writes_within A R w w''"
  by (auto simp: writes_within_def)

lemma event_writes_within: "event_writes env A R ev \<Longrightarrow> stays_within A R (event_prog env ev)"
  using stays_within_mono [OF event_within] by (auto simp: event_writes_def)

interpretation writing: rely_guarantee p "\<lambda>ev q w. stays_within A R q" "writes_within A R" "event_writes (pr_env p) A R" for p A R
proof
  fix w ev q q' w'
  assume "world_ok w" "stays_within A R q" "step_prog (metered_store (pr_store p)) q w = (q', w')"
  from metered.step_within [OF this] show "world_ok w' \<and> writes_within A R w w' \<and> stays_within A R q'"
    by (simp add: writes_within_def)
qed (auto simp: event_writes_within writes_within_refl intro: writes_within_trans)

subsection \<open>What an answer means\<close>

text \<open>A program that says OK only after it has created, or deleted, the policies \<open>K\<close>.\<close>

primrec acks_after :: "bool \<Rightarrow> policy_key set \<Rightarrow> outcome prog \<Rightarrow> bool" where
  "acks_after c K (Return x) \<longleftrightarrow> (\<forall>hs b. x \<noteq> Replied hs (OK b))"
| "acks_after c K (CallAll k) \<longleftrightarrow> (\<forall>r. acks_after c K (k r))"
| "acks_after c K (CallCreate ps k) \<longleftrightarrow> (\<forall>e. acks_after c K (k (Inl e))) \<and> (c \<and> K \<subseteq> key_of ` set ps \<or> acks_after c K (k (Inr ())))"
| "acks_after c K (CallDelete ps k) \<longleftrightarrow> (\<forall>e. acks_after c K (k (Inl e))) \<and> (\<not> c \<and> K \<subseteq> key_of ` set ps \<or> acks_after c K (k (Inr ())))"
| "acks_after c K (CallTags k) \<longleftrightarrow> (\<forall>r. acks_after c K (k r))"
| "acks_after c K (CallByGuids srcs dsts both k) \<longleftrightarrow> (\<forall>r. acks_after c K (k r))"
| "acks_after c K (CallCheckDatabase k) \<longleftrightarrow> (\<forall>r. acks_after c K (k r))"

text \<open>What remains true of \<open>K\<close> while the others add at most \<open>A\<close> and remove at most \<open>R\<close>.\<close>

definition done_with :: "bool \<Rightarrow> policy_key set \<Rightarrow> policy_key set \<Rightarrow> policy_key set \<Rightarrow> policy_key set \<Rightarrow> bool" where
  "done_with c K A R S = (if c then K - R \<subseteq> S else K \<inter> S \<subseteq> A)"

lemma done_with_step: "done_with c K A R S \<Longrightarrow> S' \<subseteq> S \<union> A \<Longrightarrow> S - R \<subseteq> S' \<Longrightarrow> done_with c K A R S'"
  by (auto simp: done_with_def split: if_splits)

context data_store
begin

lemma acks_step:
  assumes "valid s" "acks_after c K q" "step_prog ds q s = (q', s')"
  shows "acks_after c K q' \<or> done_with c K A R (stored s')"
proof (cases q)
  case (CallCreate ps k)
  with assms(3) obtain r where r: "ds_Create ds ps s = (r, s')" "q' = k r" by (auto split: prod.splits)
  with CallCreate assms(2) create [OF assms(1) r(1)] show ?thesis by (cases r) (auto simp: done_with_def)
next
  case (CallDelete ps k)
  with assms(3) obtain r where r: "ds_Delete ds ps s = (r, s')" "q' = k r" by (auto split: prod.splits)
  with CallDelete assms(2) delete [OF assms(1) r(1)] show ?thesis by (cases r) (auto simp: done_with_def)
qed (use assms in \<open>auto split: prod.splits\<close>)

end

definition body_policies :: "environment \<Rightarrow> request \<Rightarrow> policy_key set" where
  "body_policies env req = (case Body req of Inl _ \<Rightarrow> {}
     | Inr b \<Rightarrow> (case m_AsStorePolicy (mapper_for env (VersionParam req)) b of Inl _ \<Rightarrow> {} | Inr ps \<Rightarrow> key_of ` set ps))"

definition writer :: "bool \<Rightarrow> string" where
  "writer c = (if c then ''create_policies'' else ''delete_policies'')"

lemma event_acks: "acks_after c (body_policies env req) (event_prog env (Http (writer c) req))"
proof -
  let ?create = "\<lambda>mapper. PoliciesCreate_prog (env_errText env) mapper
          (PolicyGuard_CheckAccess (env_rng env) (env_cc env) (env_uaa env)) (env_rng env) (MaxPolicies env)"
  let ?delete = "\<lambda>mapper. PoliciesDelete_prog (env_errText env) mapper (PolicyGuard_CheckAccess (env_rng env) (env_cc env) (env_uaa env))"
  have "acks_after True (body_policies env req) (map_prog (Replied hs) (protected_prog env (write_auth env) ?create req))" for hs
    by (cases rule: protected_prog_cases [of env "write_auth env" ?create req])
      (auto simp: PoliciesCreate_prog_def body_policies_def Let_def dest!: limit_body_Inr split: sum.split)
  moreover have "acks_after False (body_policies env req) (map_prog (Replied hs) (protected_prog env (write_auth env) ?delete req))" for hs
    by (cases rule: protected_prog_cases [of env "write_auth env" ?delete req])
      (auto simp: PoliciesDelete_prog_def body_policies_def Let_def dest!: limit_body_Inr split: sum.split)
  ultimately show ?thesis by (cases c) (simp_all add: writer_def handler_prog_def)
qed

definition acks :: "environment \<Rightarrow> policy_key set \<Rightarrow> policy_key set \<Rightarrow> ps_event \<Rightarrow> outcome prog \<Rightarrow> world \<Rightarrow> bool" where
  "acks env A R ev q w \<longleftrightarrow> stays_within A R q \<and> (\<forall>c req. ev = Http (writer c) req \<longrightarrow>
     acks_after c (body_policies env req) q \<or> done_with c (body_policies env req) A R (world_policies w))"

lemma acks_stable: "writes_within A R w w' \<Longrightarrow> acks env A R ev q w \<Longrightarrow> acks env A R ev q w'"
  unfolding acks_def writes_within_def using done_with_step by blast

interpretation acking: rely_guarantee p "acks (pr_env p) A R" "writes_within A R" "event_writes (pr_env p) A R" for p A R
proof
  fix w ev assume "event_writes (pr_env p) A R ev"
  then show "acks (pr_env p) A R ev (event_prog (pr_env p) ev) w"
    using event_writes_within event_acks unfolding acks_def by blast
next
  fix w ev q q' w'
  assume ok: "world_ok w" and a: "acks (pr_env p) A R ev q w" and step: "step_prog (metered_store (pr_store p)) q w = (q', w')"
  have within: "stays_within A R q" using a by (simp add: acks_def)
  note w = metered.step_within [OF ok within step]
  have "acks (pr_env p) A R ev q' w'" unfolding acks_def
    using a w metered.acks_step [OF ok _ step, where A = A and R = R] done_with_step [of _ _ A R "world_policies w" "world_policies w'"]
    unfolding acks_def by blast
  with w show "world_ok w' \<and> writes_within A R w w' \<and> acks (pr_env p) A R ev q' w'" by (simp add: writes_within_def)
qed (auto simp: writes_within_refl intro: acks_stable writes_within_trans)

lemma answered_OK:
  assumes "world_ok w" "s = sys_run p ms \<lparr>shared = w, goroutines = []\<rparr>" "i < length (goroutines s)"
    and "fst (goroutines s ! i) = Http (writer c) req" "reply_of (snd (goroutines s ! i)) = Some (OK b)"
  shows "world_ok (shared s) \<and> done_with c (body_policies (pr_env p) req) (\<Union>ev \<in> set (arrivals ms). may_add (pr_env p) ev)
    (\<Union>ev \<in> set (arrivals ms). may_remove (pr_env p) ev) (world_policies (shared s))"
proof -
  let ?A = "\<Union>ev \<in> set (arrivals ms). may_add (pr_env p) ev" and ?R = "\<Union>ev \<in> set (arrivals ms). may_remove (pr_env p) ev"
  have "list_all (event_writes (pr_env p) ?A ?R) (arrivals ms)" by (auto simp: list_all_iff event_writes_def)
  then have "acking.keeps p ?A ?R s" unfolding assms(2)
    using acking.run_keeps [OF acking.keeps_start [OF assms(1)]] by blast
  from acking.keeps_nth [OF this assms(3)] acking.keeps_world [OF this]
  show ?thesis using assms(4,5) by (auto simp: acks_def reply_of_def split: prog.splits outcome.splits)
qed

subsection \<open>One request after the other\<close>

lemma ps_turn_run: "ps_turn p ev w = snd (run_prog (metered_store (pr_store p)) (event_prog (pr_env p) ev) w)"
proof (cases ev)
  case (Http name req)
  then show ?thesis by (simp only: run_http) (simp split: option.split prod.split)
next
  case Poll
  then show ?thesis by (simp add: run_handlers DeleteStalePoliciesWrapper_def split: prod.split sum.split)
next
  case Emit
  then show ?thesis by (simp add: TotalPoliciesSource_def split: prod.split sum.split)
qed

text \<open>The last goroutine, given all turns, comes to its end.\<close>

lemma advance_to_end:
  fixes gs :: "(ps_event \<times> outcome prog) list"
  assumes "run_prog (metered_store (pr_store p)) q w = (x, w')"
  obtains ms where "arrivals ms = []"
    "sys_run p ms \<lparr>shared = w, goroutines = gs @ [(ev, q)]\<rparr> = \<lparr>shared = w', goroutines = gs @ [(ev, Return x)]\<rparr>"
proof -
  have "\<exists>n. sys_run p (replicate n (Advance (length gs))) \<lparr>shared = w, goroutines = gs @ [(ev, q)]\<rparr> =
      \<lparr>shared = w', goroutines = gs @ [(ev, Return x)]\<rparr>"
    using assms
  proof (induction q w rule: prog_step_induct [of _ "metered_store (pr_store p)"])
    case (1 y w)
    then show ?case by (intro exI [of _ 0]) simp
  next
    case (2 q w)
    let ?step = "step_prog (metered_store (pr_store p)) q w"
    have "run_prog (metered_store (pr_store p)) (fst ?step) (snd ?step) = (x, w')"
      using 2(2) run_step [of "metered_store (pr_store p)" q w] by metis
    from 2(1) [OF this] obtain n where n: "sys_run p (replicate n (Advance (length gs))) \<lparr>shared = snd ?step, goroutines = gs @ [(ev, fst ?step)]\<rparr> =
        \<lparr>shared = w', goroutines = gs @ [(ev, Return x)]\<rparr>" by blast
    have "sys_move p (Advance (length gs)) \<lparr>shared = w, goroutines = gs @ [(ev, q)]\<rparr> =
        \<lparr>shared = snd ?step, goroutines = gs @ [(ev, fst ?step)]\<rparr>" by (simp split: prod.split)
    with n show ?case by (intro exI [of _ "Suc n"]) simp
  qed
  then obtain n where "sys_run p (replicate n (Advance (length gs))) \<lparr>shared = w, goroutines = gs @ [(ev, q)]\<rparr> =
      \<lparr>shared = w', goroutines = gs @ [(ev, Return x)]\<rparr>" by blast
  moreover have "arrivals (replicate n (Advance (length gs))) = []" by (induction n) simp_all
  ultimately show thesis using that by blast
qed

lemma serial_events:
  "\<exists>ms gs'. arrivals ms = es \<and> list_all (\<lambda>(ev, q). returned q) gs' \<and>
     sys_run p ms \<lparr>shared = w, goroutines = gs\<rparr> = \<lparr>shared = ps_run p es w, goroutines = gs @ gs'\<rparr>"
proof (induction es arbitrary: w gs)
  case Nil
  then show ?case by (intro exI [of _ "[]"]) (simp add: ps_run_def)
next
  case (Cons ev es)
  obtain x w' where run: "run_prog (metered_store (pr_store p)) (event_prog (pr_env p) ev) w = (x, w')" by fastforce
  obtain ms1 where one: "arrivals ms1 = []" "sys_run p ms1 \<lparr>shared = w, goroutines = gs @ [(ev, event_prog (pr_env p) ev)]\<rparr> =
      \<lparr>shared = w', goroutines = gs @ [(ev, Return x)]\<rparr>" by (rule advance_to_end [OF run])
  obtain ms2 gs' where rest: "arrivals ms2 = es" "list_all (\<lambda>(ev, q). returned q) gs'"
    "sys_run p ms2 \<lparr>shared = w', goroutines = gs @ [(ev, Return x)]\<rparr> =
      \<lparr>shared = ps_run p es w', goroutines = (gs @ [(ev, Return x)]) @ gs'\<rparr>"
    using Cons.IH [of w' "gs @ [(ev, Return x)]"] by blast
  have "ps_turn p ev w = w'" by (simp add: ps_turn_run run)
  then have "ps_run p (ev # es) w = ps_run p es w'" by (simp add: ps_run_def)
  with one rest show ?case
    by (intro exI [of _ "Arrive ev # ms1 @ ms2"] exI [of _ "(ev, Return x) # gs'"]) simp
qed

subsection \<open>The quota under concurrency\<close>

definition of_source :: "string \<Rightarrow> policy_key set \<Rightarrow> policy_key set" where
  "of_source g K = {k \<in> K. k_src k = g}"

text \<open>What a goroutine that has passed the quota check is about to add for an application.\<close>

fun pending :: "string \<Rightarrow> 'a prog \<Rightarrow> int" where
  "pending g (CallCreate ps k) = int (card (of_source g (key_of ` set ps)))"
| "pending g q = 0"

text \<open>The shapes of a goroutine that never adds more than the quota: it creates nothing, it is about to
  check, or it has checked.\<close>

definition quota_thread :: "range \<Rightarrow> int \<Rightarrow> string \<Rightarrow> 'a prog \<Rightarrow> bool" where
  "quota_thread rng mx g q \<longleftrightarrow> stays_within {} UNIV q \<or>
     (\<exists>ps k. q = CallCreate ps k \<and> pending g q \<le> mx \<and> (\<forall>r. stays_within {} UNIV (k r))) \<or>
     (\<exists>ps k. q = CallByGuids (uniqueAppGUIDs rng ps) [] False k \<and>
        (\<forall>r. stays_within {} UNIV (k r) \<or> (\<exists>cur k'. r = Inr cur \<and> k r = CallCreate ps k' \<and> (\<forall>r'. stays_within {} UNIV (k' r')) \<and>
           within_quota mx (sourceCounts cur (uniqueAppGUIDs rng ps)) (sourceCounts ps (uniqueAppGUIDs rng ps)) (uniqueAppGUIDs rng ps))))"

lemma pending_within: "stays_within {} R q \<Longrightarrow> pending g q = 0"
  by (cases q) (auto simp: of_source_def)

lemma pending_nonneg: "0 \<le> pending g q"
  by (cases q) simp_all

lemma pending_card: "int (card (of_source g (key_of ` set ps))) \<le> sourceCounts ps gs g"
proof -
  have "of_source g (key_of ` set ps) = key_of ` set (filter (\<lambda>p. src_ID (pol_Source p) = g) ps)"
    by (auto simp: of_source_def key_of_def)
  then show ?thesis by (simp add: sourceCounts_eq) (metis card_image_le card_length List.finite_set le_trans set_filter)
qed

context data_store
begin

lemma quota_passed:
  assumes "valid s" "ds_ByGuids ds (uniqueAppGUIDs rng ps) [] False s = (Inr cur, s')" "is_range rng" "0 \<le> mx"
    and quota: "within_quota mx (sourceCounts cur (uniqueAppGUIDs rng ps)) (sourceCounts ps (uniqueAppGUIDs rng ps)) (uniqueAppGUIDs rng ps)"
  shows "int (card (of_source g (key_of ` set ps))) \<le> mx \<and>
    (int (card (of_source g (stored s))) + int (card (of_source g (key_of ` set ps))) \<le> mx \<or> card (of_source g (key_of ` set ps)) = 0)"
proof (cases "g \<in> set (uniqueAppGUIDs rng ps)")
  case False
  then have "of_source g (key_of ` set ps) = {}"
    using set_uniqueAppGUIDs [OF assms(3), of ps] by (auto simp: of_source_def key_of_def guids_of_def)
  with assms(4) show ?thesis by simp
next
  case True
  let ?K = "guids_query (uniqueAppGUIDs rng ps) [] False (stored s)"
  have "represents ?K cur" using by_guids [OF assms(1,2)] by blast
  from represents_count [OF this, of g] have "int (card {k \<in> ?K. k_src k = g}) = sourceCounts cur gs g" for gs
    by (simp add: sourceCounts_eq)
  moreover have "{k \<in> ?K. k_src k = g} = of_source g (stored s)"
    using True by (auto simp: guids_query_def guids_select_def of_source_def)
  ultimately show ?thesis using quota True pending_card [of g ps] unfolding within_quota_iff
    by (smt (verit) of_nat_0_le_iff)
qed

end

text \<open>A goroutine between its quota check and its insertion.\<close>

fun creating :: "'a prog \<Rightarrow> bool" where
  "creating (CallCreate ps k) = True"
| "creating q = False"

lemma card_of_source_Un: "int (card (of_source g (A \<union> B))) \<le> int (card (of_source g A)) + int (card (of_source g B))"
proof -
  have "of_source g (A \<union> B) = of_source g A \<union> of_source g B" by (auto simp: of_source_def)
  then show ?thesis using card_Un_le [of "of_source g A" "of_source g B"] by simp
qed

lemma card_of_source_mono: "finite B \<Longrightarrow> A \<subseteq> B \<Longrightarrow> card (of_source g A) \<le> card (of_source g B)"
  by (rule card_mono) (auto simp: of_source_def)

context data_store
begin

text \<open>A step moves what is pending into the store, drops it, or is a check that has just passed.\<close>

lemma quota_step:
  assumes "valid s" "finite (stored s)" "quota_thread rng mx g q" "step_prog ds q s = (q', s')" "is_range rng" "0 \<le> mx"
  shows "quota_thread rng mx g q' \<and>
    (int (card (of_source g (stored s'))) + pending g q' \<le> int (card (of_source g (stored s))) + pending g q \<or>
     creating q' \<and> \<not> creating q \<and> int (card (of_source g (stored s'))) + pending g q' \<le> mx)"
  using assms(3) [unfolded quota_thread_def]
proof (elim disjE exE conjE)
  assume w: "stays_within {} UNIV q"
  from step_within [OF assms(1) w assms(4)] have "stays_within {} UNIV q'" "stored s' \<subseteq> stored s" by auto
  then show ?thesis using card_of_source_mono [OF assms(2)] pending_within [of _ q' g] pending_within [OF w, of g]
    by (auto simp: quota_thread_def)
next
  fix ps k assume q: "q = CallCreate ps k" and k: "\<forall>r. stays_within {} UNIV (k r)"
  obtain r where c: "ds_Create ds ps s = (r, s')" "q' = k r" using assms(4) q by (auto split: prod.splits)
  have "int (card (of_source g (stored s'))) \<le> int (card (of_source g (stored s))) + int (card (of_source g (key_of ` set ps)))"
    using create [OF assms(1) c(1)] card_of_source_Un by (cases r) auto
  then show ?thesis using q k c(2) pending_within [of UNIV q' g] by (auto simp: quota_thread_def)
next
  let ?gs = "\<lambda>ps. uniqueAppGUIDs rng ps"
  fix ps k assume q: "q = CallByGuids (?gs ps) [] False k"
    and k: "\<forall>r. stays_within {} UNIV (k r) \<or> (\<exists>cur k'. r = Inr cur \<and> k r = CallCreate ps k' \<and> (\<forall>r'. stays_within {} UNIV (k' r')) \<and>
           within_quota mx (sourceCounts cur (?gs ps)) (sourceCounts ps (?gs ps)) (?gs ps))"
  obtain r where b: "ds_ByGuids ds (?gs ps) [] False s = (r, s')" "q' = k r" using assms(4) q by (auto split: prod.splits)
  have same: "stored s' = stored s" using by_guids [OF assms(1) b(1)] by blast
  from k consider "stays_within {} UNIV (k r)" | cur k' where "r = Inr cur" "k r = CallCreate ps k'" "\<forall>r'. stays_within {} UNIV (k' r')"
    "within_quota mx (sourceCounts cur (?gs ps)) (sourceCounts ps (?gs ps)) (?gs ps)" by blast
  then show ?thesis
  proof cases
    case 1
    with b(2) same q pending_within [OF 1, of g] show ?thesis by (simp add: quota_thread_def)
  next
    case 2
    have "ds_ByGuids ds (?gs ps) [] False s = (Inr cur, s')" using b(1) 2(1) by simp
    from quota_passed [OF assms(1) this assms(5,6) 2(4), of g] 2(2,3) b(2) same q show ?thesis
      by (auto simp: quota_thread_def)
  qed
qed

end

definition no_admin :: "environment \<Rightarrow> ps_event \<Rightarrow> bool" where
  "no_admin env ev \<longleftrightarrow> (\<forall>req t. ev = Http ''create_policies'' req \<longrightarrow> admitted (write_auth env) req = Some t \<longrightarrow>
     ''network.admin'' \<notin> set (Scope t))"

lemma quota_thread_map: "quota_thread rng mx g q \<Longrightarrow> pending g q = 0 \<Longrightarrow> quota_thread rng mx g (map_prog f q) \<and> pending g (map_prog f q) = 0"
  unfolding quota_thread_def by (elim disjE exE conjE) (auto simp: pending_within, fastforce+)

lemma event_quota:
  assumes "no_admin env ev"
  shows "quota_thread (env_rng env) (MaxPolicies env) g (event_prog env ev) \<and> pending g (event_prog env ev) = 0"
proof (cases "\<exists>req. ev = Http ''create_policies'' req")
  case False
  then have "may_add env ev = {}" by (auto simp: may_add_def)
  with event_within [of env ev] have "stays_within {} UNIV (event_prog env ev)" by (auto intro: stays_within_mono)
  then show ?thesis by (simp add: quota_thread_def pending_within)
next
  case True
  then obtain req where ev: "ev = Http ''create_policies'' req" by blast
  let ?h = "\<lambda>mapper. PoliciesCreate_prog (env_errText env) mapper
          (PolicyGuard_CheckAccess (env_rng env) (env_cc env) (env_uaa env)) (env_rng env) (MaxPolicies env)"
  let ?q = "protected_prog env (write_auth env) ?h req"
  have "quota_thread (env_rng env) (MaxPolicies env) g ?q \<and> pending g ?q = 0"
  proof (cases rule: protected_prog_cases [of env "write_auth env" ?h req])
    case (served t)
    have "''network.admin'' \<notin> set (Scope t)" using assms ev served(1) by (simp add: no_admin_def)
    then show ?thesis unfolding served(2)
      by (simp add: PoliciesCreate_prog_def quota_thread_def getTokenData_def Let_def split: sum.split) blast
  qed (simp add: quota_thread_def)
  then have "quota_thread (env_rng env) (MaxPolicies env) g (map_prog f ?q) \<and> pending g (map_prog f ?q) = 0" for f :: "reply \<Rightarrow> outcome"
    by (intro quota_thread_map) simp_all
  then show ?thesis unfolding ev by (simp add: handler_prog_def)
qed

definition creators :: "system \<Rightarrow> nat" where
  "creators s = length (filter (\<lambda>(ev, q). creating q) (goroutines s))"

definition all_pending :: "string \<Rightarrow> (ps_event \<times> outcome prog) list \<Rightarrow> int" where
  "all_pending g gs = (\<Sum>(ev, q) \<leftarrow> gs. pending g q)"

definition quota_system :: "environment \<Rightarrow> string \<Rightarrow> nat \<Rightarrow> system \<Rightarrow> bool" where
  "quota_system env g n s \<longleftrightarrow> world_ok (shared s) \<and>
     (\<forall>(ev, q) \<in> set (goroutines s). quota_thread (env_rng env) (MaxPolicies env) g q) \<and>
     int (card (of_source g (world_policies (shared s)))) + all_pending g (goroutines s) \<le> int n * MaxPolicies env"

lemma finite_world_policies [simp]: "finite (world_policies w)"
  by (simp add: world_policies_def policy_set_def)

lemma pending_le: "quota_thread rng mx g q \<Longrightarrow> 0 \<le> mx \<Longrightarrow> pending g q \<le> (if creating q then mx else 0)"
  by (cases q) (auto simp: quota_thread_def of_source_def)

lemma all_pending_le:
  "\<forall>(ev, q) \<in> set gs. quota_thread rng mx g q \<Longrightarrow> 0 \<le> mx \<Longrightarrow> all_pending g gs \<le> int (length (filter (\<lambda>(ev, q). creating q) gs)) * mx"
proof (induction gs)
  case (Cons x gs)
  obtain ev q where x: "x = (ev, q)" by fastforce
  with Cons pending_le [of rng mx g q] show ?case by (auto simp: all_pending_def algebra_simps split: if_splits)
qed (simp add: all_pending_def)

lemma sys_move_quota:
  assumes "quota_system env g n s" "env = pr_env p" "is_range (env_rng env)" "0 \<le> MaxPolicies env"
    and "list_all (no_admin env) (arrivals [m])" "creators (sys_move p m s) \<le> n"
  shows "quota_system env g n (sys_move p m s)"
proof (cases m)
  case (Arrive ev)
  with assms(5) event_quota [of env ev g] assms(1,2) show ?thesis by (auto simp: quota_system_def all_pending_def)
next
  case (Advance i)
  show ?thesis
  proof (cases "i < length (goroutines s)")
    case True
    let ?mx = "MaxPolicies env" and ?pre = "take i (goroutines s)" and ?post = "drop (Suc i) (goroutines s)"
    let ?n = "\<lambda>w. int (card (of_source g (world_policies w)))"
    obtain ev q where iq: "goroutines s ! i = (ev, q)" by fastforce
    obtain q' w' where step: "step_prog (metered_store (pr_store p)) q (shared s) = (q', w')" by fastforce
    have gs: "goroutines s = ?pre @ (ev, q) # ?post" using id_take_nth_drop [OF True] iq by simp
    have mv: "sys_move p m s = s\<lparr>shared := w', goroutines := ?pre @ (ev, q') # ?post\<rparr>"
      using Advance True iq step upd_conv_take_nth_drop [OF True] by simp
    have th: "\<forall>(ev, q) \<in> set (goroutines s). quota_thread (env_rng env) ?mx g q" and ok: "world_ok (shared s)"
      using assms(1) by (auto simp: quota_system_def)
    have pre: "\<forall>(ev, q) \<in> set ?pre. quota_thread (env_rng env) ?mx g q" and post: "\<forall>(ev, q) \<in> set ?post. quota_thread (env_rng env) ?mx g q"
      and q: "quota_thread (env_rng env) ?mx g q"
      using th nth_mem [OF True] iq by (auto dest: in_set_takeD in_set_dropD)
    note st = metered.quota_step [OF ok finite_world_policies q step assms(3,4)]
    have ok': "world_ok w'"
      using metered.step_within [OF ok stays_within_UNIV step] by blast
    have old: "?n (shared s) + (all_pending g ?pre + pending g q + all_pending g ?post) \<le> int n * ?mx"
      using assms(1) unfolding quota_system_def by (subst (asm) gs) (simp add: all_pending_def)
    have "?n w' + (all_pending g ?pre + pending g q' + all_pending g ?post) \<le> int n * ?mx"
    proof (cases "?n w' + pending g q' \<le> ?n (shared s) + pending g q")
      case True
      with old show ?thesis by simp
    next
      case False
      with st have new: "creating q'" "?n w' + pending g q' \<le> ?mx" by auto
      let ?c = "\<lambda>gs. length (filter (\<lambda>(ev, q). creating q) gs)"
      have "int (?c ?pre) + int (?c ?post) + 1 \<le> int n"
        using assms(6) new(1) unfolding mv by (simp add: creators_def)
      then have "(int (?c ?pre) + int (?c ?post) + 1) * ?mx \<le> int n * ?mx" using assms(4) by (rule mult_right_mono)
      with all_pending_le [OF pre assms(4)] all_pending_le [OF post assms(4)] new(2) show ?thesis
        by (simp add: algebra_simps)
    qed
    with st pre post ok' show ?thesis unfolding mv by (auto simp: quota_system_def all_pending_def)
  qed (use Advance assms(1) in simp)
qed

primrec never_above :: "ps_process \<Rightarrow> nat \<Rightarrow> move list \<Rightarrow> system \<Rightarrow> bool" where
  "never_above p n [] s \<longleftrightarrow> creators s \<le> n"
| "never_above p n (m # ms) s \<longleftrightarrow> creators s \<le> n \<and> never_above p n ms (sys_move p m s)"

lemma never_above_first: "never_above p n ms s \<Longrightarrow> creators s \<le> n"
  by (cases ms) simp_all

lemma sys_run_quota:
  assumes "is_range (env_rng (pr_env p))" "0 \<le> MaxPolicies (pr_env p)"
  shows "quota_system (pr_env p) g n s \<Longrightarrow> list_all (no_admin (pr_env p)) (arrivals ms) \<Longrightarrow> never_above p n ms s \<Longrightarrow>
    quota_system (pr_env p) g n (sys_run p ms s)"
proof (induction ms arbitrary: s)
  case (Cons m ms)
  have arr: "list_all (no_admin (pr_env p)) (arrivals [m]) \<and> list_all (no_admin (pr_env p)) (arrivals ms)"
    using Cons.prems(2) by (cases m) simp_all
  have ms: "never_above p n ms (sys_move p m s)" using Cons.prems(3) by simp
  from never_above_first [OF ms] sys_move_quota [OF Cons.prems(1) refl assms(1,2)] arr
  have "quota_system (pr_env p) g n (sys_move p m s)" by blast
  with Cons.IH [OF this] arr ms show ?case by simp
qed simp

subsection \<open>Properties\<close>






text \<open>Two users of one application race, with a quota of one policy.\<close>

definition race_cc :: ccClient where
  "race_cc = demo_cc\<lparr>cc_GetSpace := \<lambda>_ g. Inr (Some \<lparr>space_Name = g, OrgGUID = ''o''\<rparr>), cc_GetUserSpace := \<lambda>_ _ sp. Inr (Some sp)\<rparr>"

definition race_env :: environment where
  "race_env = demo_env\<lparr>MaxPolicies := 1, env_cc := race_cc,
     env_mapper1 := demo_mapper\<lparr>m_AsStorePolicy := \<lambda>b. Inr [demo_policy ''a'' ''c'' (if b = ''81'' then 81 else 82)]\<rparr>\<rparr>"

definition race_process :: ps_process where
  "race_process = \<lparr>pr_env = race_env, pr_store = demo_store, pr_address = '''', pr_poll_interval = 60, pr_log_level = INFO\<rparr>"

definition race_request :: "string \<Rightarrow> ps_event" where
  "race_request port = Http ''create_policies'' ((demo_request [''Bearer t''])\<lparr>Body := Inr port\<rparr>)"

definition race_moves :: "move list" where
  "race_moves = [Arrive (race_request ''81''), Arrive (race_request ''82''), Advance 0, Advance 1, Advance 0, Advance 1]"

definition replies :: "system \<Rightarrow> reply list" where
  "replies s = concat (map (\<lambda>(ev, q). case q of Return (Replied hs r) \<Rightarrow> [r] | _ \<Rightarrow> []) (goroutines s))"

text \<open>What such a request does to the store. The bound on the size of bodies is compared here as a number,
  so that the rest can be evaluated.\<close>

definition race_prog :: "int \<Rightarrow> outcome prog" where
  "race_prog port = CallByGuids [''c'', ''a''] [] False (\<lambda>r. case r of
     Inl e \<Rightarrow> Return (Replied [] (ErrorReply InternalServerError (Some (Errorf ''getting policies: '' e)) ''check quota failed''))
   | Inr cur \<Rightarrow>
       if \<not> within_quota 1 (sourceCounts cur [''c'', ''a'']) (sourceCounts [demo_policy ''a'' ''c'' port] [''c'', ''a'']) [''c'', ''a'']
       then Return (Replied [] (ErrorReply Forbidden (Some (ErrText ''policy quota exceeded'')) ''policy quota exceeded''))
       else CallCreate [demo_policy ''a'' ''c'' port] (\<lambda>r. case r of
            Inl e \<Rightarrow> Return (Replied [] (ErrorReply InternalServerError (Some e) ''database create failed''))
          | Inr _ \<Rightarrow> Return (Replied [] (OK ''{}''))))"

lemma race_event:
  "event_prog (pr_env race_process) (race_request ''81'') = race_prog 81"
  "event_prog (pr_env race_process) (race_request ''82'') = race_prog 82"
  by (simp_all add: race_request_def race_process_def race_env_def handler_prog_def protected_prog_def protected_def versionWrap_def
      CheckVersion_def auth_Wrap_def demo_env_def demo_request_def demo_uaa_def write_auth_def PoliciesCreate_prog_def limit_body_def
      MAX_REQ_BODY_SIZE_def getTokenData_def PolicyGuard_CheckAccess_def race_cc_def demo_cc_def uniqueAppGUIDs_def cors_headers_def
      race_prog_def demo_policy_def fun_eq_iff Let_def split: sum.split)

definition race_begun :: system where
  "race_begun = \<lparr>shared = \<lparr>db = demo_conn, metrics = []\<rparr>, goroutines = [(race_request ''81'', race_prog 81), (race_request ''82'', race_prog 82)]\<rparr>"

lemma race_begins: "sys_move race_process (Arrive (race_request ''82'')) (sys_move race_process (Arrive (race_request ''81'')) (sys_start demo_conn)) = race_begun"
  by (simp add: race_event race_begun_def sys_start_def)




end
