(* ===== verification/Serve_Mux.thy ===== *)
theory Serve_Mux
  imports Go_Prelude
begin

text \<open>
  What the programs use of \<^verbatim>\<open>net/http\<close> and \<^verbatim>\<open>strconv\<close> beside the clients: the request multiplexer
  \<^verbatim>\<open>http.ServeMux\<close> with patterns for paths, and \<^verbatim>\<open>strconv.Atoi\<close>. A pattern that ends in a slash stands for
  the subtree below it, any other for itself; the longest pattern that matches wins. Paths that are
  not clean, and the name of a registered subtree without its slash, are redirected.
\<close>

datatype 'h mux_answer = Handler 'h | MovedPermanently string | NotFound

definition subtree :: "string \<Rightarrow> bool" where
  "subtree pattern = has_suffix pattern ''/''"

definition pathMatch :: "string \<Rightarrow> string \<Rightarrow> bool" where
  "pathMatch pattern path = (if subtree pattern then take (length pattern) path = pattern else pattern = path)"

text \<open>The loop over the patterns, which keeps the longest match so far.\<close>

fun longest_match :: "string \<Rightarrow> (string \<times> 'h) list \<Rightarrow> (string \<times> 'h) option \<Rightarrow> (string \<times> 'h) option" where
  "longest_match path [] best = best"
| "longest_match path ((k, h) # ps) best = longest_match path ps
     (if pathMatch k path \<and> (case best of None \<Rightarrow> True | Some (k', _) \<Rightarrow> length k' < length k) then Some (k, h) else best)"

definition mux_match :: "(string \<times> 'h) list \<Rightarrow> string \<Rightarrow> 'h option" where
  "mux_match ps path = (case map_of ps path of Some h \<Rightarrow> Some h | None \<Rightarrow> map_option snd (longest_match path ps None))"

definition cleanPath :: "string \<Rightarrow> string" where
  "cleanPath p = (if p = '''' then ''/''
     else let p = (if is_rooted p then p else ''/'' @ p); np = filepath_Clean p in
       if has_suffix p ''/'' \<and> np \<noteq> ''/'' then np @ ''/'' else np)"

definition mux_route :: "(string \<times> 'h) list \<Rightarrow> string \<Rightarrow> 'h mux_answer" where
  "mux_route ps path =
     (if map_of ps path = None \<and> map_of ps (path @ ''/'') \<noteq> None then MovedPermanently (path @ ''/'')
      else if cleanPath path \<noteq> path then MovedPermanently (cleanPath path)
      else case mux_match ps path of Some h \<Rightarrow> Handler h | None \<Rightarrow> NotFound)"

subsection \<open>Lemmas\<close>

lemma has_suffix_last: "has_suffix p [c] \<longleftrightarrow> p \<noteq> [] \<and> last p = c"
  by (cases p rule: rev_cases) (auto simp: has_suffix_def)

lemma longest_match_spec:
  "longest_match path ps best = Some (k, h) \<Longrightarrow>
     ((k, h) \<in> set ps \<and> pathMatch k path \<or> best = Some (k, h)) \<and> (\<forall>(k', h') \<in> set ps. pathMatch k' path \<longrightarrow> length k' \<le> length k) \<and>
     (\<forall>k' h'. best = Some (k', h') \<longrightarrow> length k' \<le> length k)"
proof (induction ps arbitrary: best)
  case (Cons x ps)
  obtain k0 h0 where x: "x = (k0, h0)" by fastforce
  with Cons show ?case by (fastforce split: if_splits option.splits)
qed auto

lemma longest_match_None: "longest_match path ps best = None \<longleftrightarrow> best = None \<and> (\<forall>(k, h) \<in> set ps. \<not> pathMatch k path)"
proof (induction ps arbitrary: best)
  case (Cons x ps)
  obtain k0 h0 where x: "x = (k0, h0)" by fastforce
  with Cons show ?case by (auto split: option.splits)
qed auto

text \<open>The handler that serves a path belongs to a matching pattern, and no matching pattern is longer.\<close>

lemma mux_match_longest:
  assumes "mux_match ps path = Some h"
  obtains k where "(k, h) \<in> set ps" "pathMatch k path" "\<forall>(k', h') \<in> set ps. pathMatch k' path \<longrightarrow> length k' \<le> length k"
proof (cases "map_of ps path")
  case None
  with assms obtain k where "longest_match path ps None = Some (k, h)" by (auto simp: mux_match_def)
  from longest_match_spec [OF this] that [of k] show thesis by auto
next
  case (Some h')
  have "length k' \<le> length path" if "pathMatch k' path" for k'
    using that by (auto simp: pathMatch_def split: if_splits) (metis length_take min.cobounded1)
  moreover have "pathMatch path path" by (simp add: pathMatch_def)
  ultimately show thesis using that [of path] Some assms by (auto simp: mux_match_def dest: map_of_SomeD)
qed

text \<open>With a pattern for the root every path is served or redirected.\<close>

lemma is_rooted_Cons: "is_rooted p \<longleftrightarrow> (\<exists>q. p = CHR ''/'' # q)"
  by (cases p) (auto simp: is_rooted_def)

lemma rooted_clean: "is_rooted (cleanPath p)"
  by (auto simp: cleanPath_def Let_def filepath_Clean_def is_rooted_Cons)

lemma mux_route_total:
  assumes "(''/'', h) \<in> set ps"
  shows "mux_route ps path \<noteq> NotFound"
proof (cases "cleanPath path = path")
  case True
  then have "pathMatch ''/'' path" using rooted_clean [of path] by (auto simp: pathMatch_def subtree_def has_suffix_def is_rooted_Cons)
  then have "longest_match path ps None \<noteq> None" using assms by (auto simp: longest_match_None)
  then have "mux_match ps path \<noteq> None" by (auto simp: mux_match_def split: option.splits)
  then show ?thesis by (auto simp: mux_route_def)
qed (simp add: mux_route_def)

subsection \<open>Numbers from text\<close>

text \<open>\<^verbatim>\<open>strconv.Atoi\<close> on a platform with 64-bit integers. The text of its error does not quote the input here.\<close>

definition is_digit :: "char \<Rightarrow> bool" where
  "is_digit c \<longleftrightarrow> CHR ''0'' \<le> c \<and> c \<le> CHR ''9''"

definition Atoi :: "string \<Rightarrow> int result" where
  "Atoi s =
     (let neg = (take 1 s = ''-''); ds = (if take 1 s = ''-'' \<or> take 1 s = ''+'' then drop 1 s else s);
          v = (if neg then - int (value_base 10 ds) else int (value_base 10 ds)) in
      if ds = '''' \<or> \<not> list_all is_digit ds then Inl (ErrText ''strconv.Atoi: invalid syntax'')
      else if v < - (2 ^ 63) \<or> 2 ^ 63 \<le> v then Inl (ErrText ''strconv.Atoi: value out of range'')
      else Inr v)"

lemma Atoi_bounds: "Atoi s = Inr v \<Longrightarrow> - (2 ^ 63) \<le> v \<and> v < 2 ^ 63"
  by (auto simp: Atoi_def Let_def split: if_splits)

lemma digits_are_digits: "list_all is_digit (digits_base 10 n)"
proof (induction n rule: less_induct)
  case (less n)
  have d: "is_digit (digit_char k)" if "k < 10" for k
  proof -
    have "k \<in> {0, 1, 2, 3, 4, 5, 6, 7, 8, 9}" using that by auto
    then show ?thesis by (auto simp: digit_char_def is_digit_def less_eq_char_def)
  qed
  show ?case using less [of "n div 10"] d by (subst digits_base.simps) simp
qed

lemma Atoi_itoa:
  assumes "- (2 ^ 63) \<le> i" "i < 2 ^ 63"
  shows "Atoi (itoa i) = Inr i"
proof -
  have ne: "digits_base 10 n \<noteq> ''''" for n by (subst digits_base.simps) simp
  have plain: "take 1 (digits_base 10 n) \<noteq> ''-'' \<and> take 1 (digits_base 10 n) \<noteq> ''+''" for n
    using digits_are_digits [of n] ne [of n] by (cases "digits_base 10 n") (auto simp: is_digit_def less_eq_char_def)
  show ?thesis
  proof (cases "i < 0")
    case True
    then show ?thesis using assms digits_are_digits ne by (simp add: Atoi_def itoa_def value_base_digits)
  next
    case False
    then show ?thesis using assms digits_are_digits ne plain by (simp add: Atoi_def itoa_def value_base_digits)
  qed
qed

end
