(* ===== verification/Go_Json.thy ===== *)
theory Go_Json
  imports Serve_Mux
begin

text \<open>
  \<^verbatim>\<open>encoding/json\<close> on bytes, as far as the payloads of the policy API use it: \<^verbatim>\<open>Marshal\<close> prints a value in
  compact form with the HTML characters escaped, \<^verbatim>\<open>Unmarshal\<close> first checks the syntax of the whole text
  and then stores the value. A number keeps its text, since its meaning depends on the type of the field
  that receives it. The main result is that parsing returns what was printed, for text that is valid
  UTF-8.
\<close>

subsection \<open>UTF-8\<close>

definition byte :: "char \<Rightarrow> nat" where
  "byte c = of_char c"

definition is_cont :: "char \<Rightarrow> bool" where
  "is_cont c \<longleftrightarrow> 128 \<le> byte c \<and> byte c \<le> 191"

definition between :: "nat \<Rightarrow> nat \<Rightarrow> char \<Rightarrow> bool" where
  "between lo hi c \<longleftrightarrow> lo \<le> byte c \<and> byte c \<le> hi"

text \<open>\<^verbatim>\<open>utf8.DecodeRune\<close>: the number of bytes of the rune in front, and nothing if the encoding is not valid.\<close>

definition rune_size :: "string \<Rightarrow> nat option" where
  "rune_size s = (case s of
       [] \<Rightarrow> None
     | c0 # s' \<Rightarrow>
         if byte c0 < 128 then Some 1
         else if between 194 223 c0
         then (case s' of c1 # _ \<Rightarrow> if is_cont c1 then Some 2 else None | _ \<Rightarrow> None)
         else if between 224 239 c0
         then (case s' of
                 c1 # c2 # _ \<Rightarrow>
                   if between (if byte c0 = 224 then 160 else 128) (if byte c0 = 237 then 159 else 191) c1 \<and> is_cont c2
                   then Some 3 else None
               | _ \<Rightarrow> None)
         else if between 240 244 c0
         then (case s' of
                 c1 # c2 # c3 # _ \<Rightarrow>
                   if between (if byte c0 = 240 then 144 else 128) (if byte c0 = 244 then 143 else 191) c1 \<and>
                      is_cont c2 \<and> is_cont c3
                   then Some 4 else None
               | _ \<Rightarrow> None)
         else None)"

lemma rune_size_cases:
  assumes "rune_size s = Some n"
  obtains "n = 1" "s \<noteq> []" "byte (hd s) < 128"
  | c0 s' where "s = c0 # s'" "\<not> byte c0 < 128" "1 < n" "n \<le> length s" "list_all is_cont (take (n - 1) s')"
    "\<And>t. rune_size (take n s @ t) = Some n"
proof (cases s)
  case (Cons c0 s')
  consider "byte c0 < 128" | "\<not> byte c0 < 128" by blast
  then show thesis
  proof cases
    case 1
    then show thesis using assms Cons that(1) by (simp add: rune_size_def)
  next
    case 2
    have bt: "is_cont c" if "between lo hi c" "128 \<le> lo" "hi \<le> 191" for lo hi c
      using that by (auto simp: between_def is_cont_def)
    consider (two) c1 r where "between 194 223 c0" "s' = c1 # r" "is_cont c1" "n = 2"
      | (three) c1 c2 r where "\<not> between 194 223 c0" "between 224 239 c0" "s' = c1 # c2 # r"
          "between (if byte c0 = 224 then 160 else 128) (if byte c0 = 237 then 159 else 191) c1" "is_cont c2" "n = 3"
      | (four) c1 c2 c3 r where "\<not> between 194 223 c0" "\<not> between 224 239 c0" "between 240 244 c0" "s' = c1 # c2 # c3 # r"
          "between (if byte c0 = 240 then 144 else 128) (if byte c0 = 244 then 143 else 191) c1" "is_cont c2" "is_cont c3" "n = 4"
      using assms 2 unfolding Cons rune_size_def list.case
      by (auto simp del: if_split split: if_split_asm list.splits)
    then have "1 < n \<and> n \<le> length s \<and> list_all is_cont (take (n - 1) s') \<and> (\<forall>t. rune_size (take n s @ t) = Some n)"
    proof cases
      case two
      then show ?thesis using 2 Cons by (simp add: rune_size_def)
    next
      case three
      then have "is_cont c1" using bt by (auto split: if_splits)
      with three show ?thesis using 2 Cons by (simp add: rune_size_def)
    next
      case four
      then have "is_cont c1" using bt by (auto split: if_splits)
      with four show ?thesis using 2 Cons by (simp add: rune_size_def)
    qed
    then show thesis using that(2) [OF Cons 2] by blast
  qed
qed (use assms in \<open>simp add: rune_size_def\<close>)

lemma rune_size_bounds: "rune_size s = Some n \<Longrightarrow> 0 < n \<and> n \<le> length s"
  by (erule rune_size_cases) (auto simp: Suc_le_eq)

lemma rune_size_prefix: "rune_size s = Some n \<Longrightarrow> rune_size (take n s @ t) = Some n"
  by (erule rune_size_cases) (auto simp: rune_size_def neq_Nil_conv)

function valid_utf8 :: "string \<Rightarrow> bool" where
  "valid_utf8 s = (s = [] \<or> (case rune_size s of None \<Rightarrow> False | Some n \<Rightarrow> valid_utf8 (drop n s)))"
  by pat_completeness auto
termination
  by (relation "measure length") (auto dest!: rune_size_bounds)

declare valid_utf8.simps [simp del]

text \<open>\<^verbatim>\<open>utf8.EncodeRune\<close>; what is not a rune is encoded as \<^verbatim>\<open>RuneError\<close>.\<close>

definition rune_error :: string where
  "rune_error = [CHR 0xEF, CHR 0xBF, CHR 0xBD]"

definition encode_rune :: "nat \<Rightarrow> string" where
  "encode_rune r =
     (if r < 128 then [char_of r]
      else if r < 2048 then [char_of (192 + r div 64), char_of (128 + r mod 64)]
      else if r > 1114111 \<or> 55296 \<le> r \<and> r < 57344 then rune_error
      else if r < 65536 then [char_of (224 + r div 4096), char_of (128 + r div 64 mod 64), char_of (128 + r mod 64)]
      else [char_of (240 + r div 262144), char_of (128 + r div 4096 mod 64), char_of (128 + r div 64 mod 64),
            char_of (128 + r mod 64)])"

subsection \<open>Strings\<close>

definition hex_low :: "nat \<Rightarrow> char" where
  "hex_low d = (if d < 10 then char_of (48 + d) else char_of (87 + d))"

definition hex_value :: "char \<Rightarrow> nat option" where
  "hex_value c =
     (if between 48 57 c then Some (byte c - 48)
      else if between 97 102 c then Some (byte c - 87)
      else if between 65 70 c then Some (byte c - 55)
      else None)"

definition html_safe :: "char \<Rightarrow> bool" where
  "html_safe c \<longleftrightarrow> 32 \<le> byte c \<and> byte c < 128 \<and> c \<notin> {CHR 0x22, CHR 0x26, CHR 0x3C, CHR 0x3E, CHR 0x5C}"

definition backslash :: char where
  "backslash = CHR 0x5C"

text \<open>\<^verbatim>\<open>encodeState.string\<close>: one ASCII character, and the text of a string without its quotes.\<close>

definition escape_ascii :: "char \<Rightarrow> string" where
  "escape_ascii c =
     (if html_safe c then [c]
      else if c = CHR 0x22 \<or> c = CHR 0x5C then [backslash, c]
      else if c = CHR 0x0A then [backslash, CHR ''n'']
      else if c = CHR 0x0D then [backslash, CHR ''r'']
      else if c = CHR 0x09 then [backslash, CHR ''t'']
      else [backslash, CHR ''u'', CHR ''0'', CHR ''0'', hex_low (byte c div 16), hex_low (byte c mod 16)])"

function string_text :: "string \<Rightarrow> string" where
  "string_text s = (case s of
       [] \<Rightarrow> []
     | c # s' \<Rightarrow>
         if byte c < 128 then escape_ascii c @ string_text s'
         else (case rune_size s of
             None \<Rightarrow> backslash # ''ufffd'' @ string_text s'
           | Some n \<Rightarrow>
               (if take n s = [CHR 0xE2, CHR 0x80, CHR 0xA8] then backslash # ''u2028''
                else if take n s = [CHR 0xE2, CHR 0x80, CHR 0xA9] then backslash # ''u2029''
                else take n s) @ string_text (drop n s)))"
  by pat_completeness auto
termination
  by (relation "measure length") (auto dest!: rune_size_bounds)

declare string_text.simps [simp del]

text \<open>\<^verbatim>\<open>getu4\<close> after the characters \<^verbatim>\<open>\u\<close>, and what the scanner asks of them.\<close>

definition get_u4 :: "string \<Rightarrow> nat option" where
  "get_u4 s = (case s of
       a # b # c # d # _ \<Rightarrow> (case (hex_value a, hex_value b, hex_value c, hex_value d) of
           (Some i, Some j, Some k, Some l) \<Rightarrow> Some (i * 4096 + j * 256 + k * 16 + l)
         | _ \<Rightarrow> None)
     | _ \<Rightarrow> None)"

definition is_surrogate :: "nat \<Rightarrow> bool" where
  "is_surrogate r \<longleftrightarrow> 55296 \<le> r \<and> r < 57344"

text \<open>The rune of an escape \<^verbatim>\<open>\uXXXX\<close> and how many further characters it takes: the second half of a
  surrogate pair is an escape of its own.\<close>

definition escaped_rune :: "nat \<Rightarrow> string \<Rightarrow> string \<times> nat" where
  "escaped_rune r s =
     (if \<not> is_surrogate r then (encode_rune r, 0)
      else if take 2 s = [backslash, CHR ''u'']
      then (case get_u4 (drop 2 s) of
          Some r2 \<Rightarrow> if r < 56320 \<and> 56320 \<le> r2 \<and> r2 < 57344
                    then (encode_rune ((r - 55296) * 1024 + (r2 - 56320) + 65536), 6) else (rune_error, 0)
        | None \<Rightarrow> (rune_error, 0))
      else (rune_error, 0))"

definition simple_escape :: "char \<Rightarrow> char option" where
  "simple_escape c = map_of [(CHR 0x22, CHR 0x22), (CHR 0x5C, CHR 0x5C), (CHR ''/'', CHR ''/''), (CHR ''b'', CHR 0x08),
     (CHR ''f'', CHR 0x0C), (CHR ''n'', CHR 0x0A), (CHR ''r'', CHR 0x0D), (CHR ''t'', CHR 0x09)] c"

text \<open>The rest of a string literal after its opening quote: its value and what follows the closing
  quote.\<close>

definition prepend :: "string \<Rightarrow> (string \<times> string) option \<Rightarrow> (string \<times> string) option" where
  "prepend p = map_option (map_prod (\<lambda>t. p @ t) id)"

function parse_string :: "string \<Rightarrow> (string \<times> string) option" where
  "parse_string s = (case s of
       [] \<Rightarrow> None
     | c # s' \<Rightarrow>
         if c = CHR 0x22 then Some ([], s')
         else if c = backslash
         then (case s' of
             [] \<Rightarrow> None
           | e # s'' \<Rightarrow>
               if e = CHR ''u''
               then (case get_u4 s'' of
                   None \<Rightarrow> None
                 | Some r \<Rightarrow> (case escaped_rune r (drop 4 s'') of
                     (t, k) \<Rightarrow> prepend t (parse_string (drop (4 + k) s''))))
               else (case simple_escape e of None \<Rightarrow> None | Some d \<Rightarrow> prepend [d] (parse_string s'')))
         else if byte c < 32 then None
         else (case rune_size s of
             None \<Rightarrow> prepend rune_error (parse_string s')
           | Some n \<Rightarrow> prepend (take n s) (parse_string (drop n s))))"
  by pat_completeness auto
termination
  by (relation "measure length") (auto dest!: rune_size_bounds)

declare parse_string.simps [simp del]

lemma string_text_ascii: "string_text [] = []" "byte c < 128 \<Longrightarrow> string_text (c # s) = escape_ascii c @ string_text s"
  by (subst string_text.simps, simp)+

lemma hex_value_low: "d < 16 \<Longrightarrow> hex_value (hex_low d) = Some d"
  by (auto simp: hex_value_def hex_low_def between_def byte_def)

lemma parse_escape_ascii:
  assumes "byte c < 128"
  shows "parse_string (escape_ascii c @ t) = prepend [c] (parse_string t)"
proof -
  consider "html_safe c" | "\<not> html_safe c" "c \<in> {CHR 0x22, CHR 0x5C, CHR 0x0A, CHR 0x0D, CHR 0x09}"
    | (code) "\<not> html_safe c" "c \<notin> {CHR 0x22, CHR 0x5C, CHR 0x0A, CHR 0x0D, CHR 0x09}" by blast
  then show ?thesis
  proof cases
    case 1
    then show ?thesis
      by (subst parse_string.simps) (auto simp: escape_ascii_def html_safe_def backslash_def rune_size_def)
  next
    case 2
    then show ?thesis
      by (subst parse_string.simps) (auto simp: escape_ascii_def html_safe_def backslash_def simple_escape_def byte_def)
  next
    case code
    let ?b = "byte c"
    have "hex_value (hex_low (?b div 16)) = Some (?b div 16)" "hex_value (hex_low (?b mod 16)) = Some (?b mod 16)"
      using assms by (auto intro: hex_value_low)
    moreover have "hex_value (CHR ''0'') = Some 0" by (simp add: hex_value_def between_def byte_def)
    ultimately have u4: "get_u4 (CHR ''0'' # CHR ''0'' # hex_low (?b div 16) # hex_low (?b mod 16) # t) = Some ?b"
      by (simp add: get_u4_def)
    have "escaped_rune ?b t = ([c], 0)" using assms
      by (simp add: escaped_rune_def is_surrogate_def encode_rune_def) (simp add: byte_def)
    then show ?thesis using code u4
      by (subst parse_string.simps) (simp add: escape_ascii_def backslash_def)
  qed
qed

lemma parse_line_separators:
  "parse_string (backslash # ''u2028'' @ t) = prepend [CHR 0xE2, CHR 0x80, CHR 0xA8] (parse_string t)"
  "parse_string (backslash # ''u2029'' @ t) = prepend [CHR 0xE2, CHR 0x80, CHR 0xA9] (parse_string t)"
proof -
  have r: "encode_rune 8232 = [CHR 0xE2, CHR 0x80, CHR 0xA8]" "encode_rune 8233 = [CHR 0xE2, CHR 0x80, CHR 0xA9]"
    by (simp_all add: encode_rune_def char_of_eq_iff)
  have u: "get_u4 (''2028'' @ t) = Some 8232" "get_u4 (''2029'' @ t) = Some 8233" for t
    by (simp_all add: get_u4_def hex_value_def between_def byte_def)
  have e: "escaped_rune 8232 t = ([CHR 0xE2, CHR 0x80, CHR 0xA8], 0)" "escaped_rune 8233 t = ([CHR 0xE2, CHR 0x80, CHR 0xA9], 0)" for t
    by (simp_all add: escaped_rune_def is_surrogate_def r)
  show "parse_string (backslash # ''u2028'' @ t) = prepend [CHR 0xE2, CHR 0x80, CHR 0xA8] (parse_string t)"
    "parse_string (backslash # ''u2029'' @ t) = prepend [CHR 0xE2, CHR 0x80, CHR 0xA9] (parse_string t)"
    using u [of t] e [of t] by (subst parse_string.simps, simp add: backslash_def)+
qed

lemma parse_string_text:
  "valid_utf8 s \<Longrightarrow> parse_string (string_text s @ CHR 0x22 # rest) = Some (s, rest)"
proof (induction s rule: valid_utf8.induct)
  case (1 s)
  show ?case
  proof (cases s)
    case Nil
    then show ?thesis by (simp add: string_text.simps parse_string.simps)
  next
    case (Cons c s')
    with "1.prems" obtain n where n: "rune_size s = Some n" and v: "valid_utf8 (drop n s)"
      by (subst (asm) valid_utf8.simps) (auto split: option.splits)
    have ih: "parse_string (string_text (drop n s) @ CHR 0x22 # rest) = Some (drop n s, rest)"
      by (rule "1.IH" [OF n v])
    from n show ?thesis
    proof (cases rule: rune_size_cases)
      case 1
      then show ?thesis using Cons ih
        by (subst string_text.simps) (simp add: parse_escape_ascii prepend_def)
    next
      case (2 c0 s0)
      have c: "\<not> byte c < 128" using 2 Cons by simp
      then have plain: "c \<noteq> CHR 0x22" "c \<noteq> backslash" "\<not> byte c < 32" by (auto simp: byte_def backslash_def)
      have copied: "parse_string (take n s @ t) = prepend (take n s) (parse_string t)" for t
      proof -
        obtain m where m: "n = Suc m" using 2(3) by (cases n) auto
        have "take n s @ t = c # take m s' @ t" using m Cons by simp
        moreover have "length (take m s') = m" using m 2(4) Cons by simp
        ultimately show ?thesis using 2(6) [of t] plain m by (subst parse_string.simps) simp
      qed
      have "parse_string (backslash # ''u2028'' @ t) = prepend [CHR 0xE2, CHR 0x80, CHR 0xA8] (parse_string t)"
        "parse_string (backslash # ''u2029'' @ t) = prepend [CHR 0xE2, CHR 0x80, CHR 0xA9] (parse_string t)" for t
        by (rule parse_line_separators)+
      with copied have "parse_string (string_text s @ t) = prepend (take n s) (parse_string (string_text (drop n s) @ t))" for t
        using Cons c n by (subst string_text.simps) simp
      then show ?thesis using ih by (simp add: prepend_def)
    qed
  qed
qed

subsection \<open>Values\<close>

datatype json =
    JNull
  | JBool bool
  | JNum string
  | JStr string
  | JArr "json list"
  | JObj "(string \<times> json) list"

definition quoted :: "string \<Rightarrow> string" where
  "quoted s = CHR 0x22 # string_text s @ [CHR 0x22]"

fun json_text :: "json \<Rightarrow> string" where
  "json_text JNull = ''null''"
| "json_text (JBool b) = (if b then ''true'' else ''false'')"
| "json_text (JNum t) = t"
| "json_text (JStr s) = quoted s"
| "json_text (JArr js) = ''['' @ join_with '','' (map json_text js) @ '']''"
| "json_text (JObj ms) = ''{'' @ join_with '','' (map (\<lambda>m. quoted (fst m) @ '':'' @ json_text (snd m)) ms) @ ''}''"

definition is_space :: "char \<Rightarrow> bool" where
  "is_space c \<longleftrightarrow> c \<in> {CHR 0x20, CHR 0x09, CHR 0x0D, CHR 0x0A}"

definition skip_ws :: "string \<Rightarrow> string" where
  "skip_ws s = dropWhile is_space s"

text \<open>Numbers as the scanner reads them: an optional sign, an integer without leading zeros, an optional
  fraction and an optional exponent.\<close>

definition digits_of :: "string \<Rightarrow> (string \<times> string) option" where
  "digits_of s = (if takeWhile is_digit s = [] then None else Some (takeWhile is_digit s, dropWhile is_digit s))"

definition scan_int :: "string \<Rightarrow> (string \<times> string) option" where
  "scan_int s = (case s of [] \<Rightarrow> None | c # r \<Rightarrow> if c = CHR ''0'' then Some ([c], r) else digits_of s)"

definition scan_frac :: "string \<Rightarrow> (string \<times> string) option" where
  "scan_frac s = (case s of
       c # r \<Rightarrow> if c = CHR ''.'' then map_option (map_prod (\<lambda>ds. c # ds) id) (digits_of r) else Some ([], s)
     | [] \<Rightarrow> Some ([], s))"

definition scan_exp :: "string \<Rightarrow> (string \<times> string) option" where
  "scan_exp s = (case s of
       c # r \<Rightarrow>
         if c = CHR ''e'' \<or> c = CHR ''E''
         then (case r of
             d # r' \<Rightarrow> if d = CHR ''+'' \<or> d = CHR ''-'' then map_option (map_prod (\<lambda>ds. c # d # ds) id) (digits_of r')
                       else map_option (map_prod (\<lambda>ds. c # ds) id) (digits_of r)
           | [] \<Rightarrow> None)
         else Some ([], s)
     | [] \<Rightarrow> Some ([], s))"

definition scan_unsigned :: "string \<Rightarrow> (string \<times> string) option" where
  "scan_unsigned s = (case scan_int s of None \<Rightarrow> None | Some (i, r) \<Rightarrow> (case scan_frac r of None \<Rightarrow> None | Some (f, r) \<Rightarrow>
     (case scan_exp r of None \<Rightarrow> None | Some (e, r) \<Rightarrow> Some (i @ f @ e, r))))"

definition scan_number :: "string \<Rightarrow> (string \<times> string) option" where
  "scan_number s = (case s of
       c # r \<Rightarrow> if c = CHR ''-'' then map_option (map_prod (\<lambda>t. c # t) id) (scan_unsigned r) else scan_unsigned s
     | [] \<Rightarrow> None)"

definition scan_word :: "string \<Rightarrow> json \<Rightarrow> string \<Rightarrow> (json \<times> string) option" where
  "scan_word w v s = (if take (length w) s = w then Some (v, drop (length w) s) else None)"

lemma skip_ws_length: "length (skip_ws s) \<le> length s"
  by (simp add: skip_ws_def length_dropWhile_le)

lemma skip_ws_Cons: "skip_ws s = c # r \<Longrightarrow> length r < length s"
  using skip_ws_length [of s] by simp

text \<open>The guards on lengths are always true, by the lemma \<open>parse_value_length\<close>; they let the functions be
  seen to end.\<close>

function (sequential) parse_value :: "string \<Rightarrow> (json \<times> string) option"
  and parse_elems :: "json list \<Rightarrow> string \<Rightarrow> (json \<times> string) option"
  and parse_members :: "(string \<times> json) list \<Rightarrow> string \<Rightarrow> (json \<times> string) option" where
  "parse_value s = (case skip_ws s of
       [] \<Rightarrow> None
     | c # r \<Rightarrow>
         if c = CHR 0x22 then map_option (map_prod JStr id) (parse_string r)
         else if c = CHR ''['' then if take 1 (skip_ws r) = '']'' then Some (JArr [], drop 1 (skip_ws r)) else parse_elems [] r
         else if c = CHR ''{'' then if take 1 (skip_ws r) = ''}'' then Some (JObj [], drop 1 (skip_ws r)) else parse_members [] r
         else if c = CHR ''n'' then scan_word ''null'' JNull (c # r)
         else if c = CHR ''t'' then scan_word ''true'' (JBool True) (c # r)
         else if c = CHR ''f'' then scan_word ''false'' (JBool False) (c # r)
         else map_option (map_prod JNum id) (scan_number (c # r)))"
| "parse_elems acc s = (case parse_value s of
       None \<Rightarrow> None
     | Some (v, r) \<Rightarrow>
         if length r < length s
         then (case skip_ws r of
             [] \<Rightarrow> None
           | c # r' \<Rightarrow>
               if c = CHR '','' then parse_elems (acc @ [v]) r'
               else if c = CHR '']'' then Some (JArr (acc @ [v]), r') else None)
         else None)"
| "parse_members acc s = (if take 1 (skip_ws s) = [CHR 0x22] then
     (case parse_string (drop 1 (skip_ws s)) of
        None \<Rightarrow> None
      | Some (k, r1) \<Rightarrow>
          if take 1 (skip_ws r1) = '':'' \<and> length (drop 1 (skip_ws r1)) < length s
          then (case parse_value (drop 1 (skip_ws r1)) of
              None \<Rightarrow> None
            | Some (v, r) \<Rightarrow>
                if length r < length s
                then (case skip_ws r of
                    [] \<Rightarrow> None
                  | c # r' \<Rightarrow>
                      if c = CHR '','' then parse_members (acc @ [(k, v)]) r'
                      else if c = CHR ''}'' then Some (JObj (acc @ [(k, v)]), r') else None)
                else None)
          else None)
     else None)"
  by pat_completeness auto

termination
  by (relation "measure (\<lambda>x. case x of Inl s \<Rightarrow> 2 * length s
      | Inr (Inl (acc, s)) \<Rightarrow> 2 * length s + 1 | Inr (Inr (acc, s)) \<Rightarrow> 2 * length s + 1)")
    (auto dest!: skip_ws_Cons)

declare parse_value.simps [simp del] parse_elems.simps [simp del] parse_members.simps [simp del]

text \<open>\<^verbatim>\<open>Unmarshal\<close> accepts one value and white space around it.\<close>

definition parse_json :: "string \<Rightarrow> json option" where
  "parse_json s = (case parse_value s of None \<Rightarrow> None | Some (v, r) \<Rightarrow> if skip_ws r = [] then Some v else None)"

lemma parse_string_length: "parse_string s = Some (t, r) \<Longrightarrow> length r < length s"
proof (induction s arbitrary: t r rule: parse_string.induct)
  case (1 s)
  show ?case
  proof (cases s)
    case Nil
    then show ?thesis using "1.prems" by (simp add: parse_string.simps)
  next
    case (Cons c s')
    note run = "1.prems" [unfolded parse_string.simps [of s], unfolded Cons list.case, folded Cons]
    consider (quote) "c = CHR 0x22" | (escape) "c = backslash" "c \<noteq> CHR 0x22"
      | (ctrl) "c \<noteq> backslash" "c \<noteq> CHR 0x22" "byte c < 32" | (rune) "c \<noteq> backslash" "c \<noteq> CHR 0x22" "\<not> byte c < 32" by blast
    then show ?thesis
    proof cases
      case rune
      show ?thesis
      proof (cases "rune_size s")
        case None
        then show ?thesis using run rune "1.IH"(3) [OF Cons] Cons by (auto simp: prepend_def less_SucI)
      next
        case (Some n)
        then show ?thesis using run rune "1.IH"(4) [OF Cons _ _ _ Some] rune_size_bounds [OF Some]
          by (fastforce simp: prepend_def)
      qed
    next
      case escape
      show ?thesis
      proof (cases s')
        case (Cons e s'')
        show ?thesis
        proof (cases "e = CHR ''u''")
          case True
          then obtain q u k where q: "get_u4 s'' = Some q" and u: "escaped_rune q (drop 4 s'') = (u, k)"
            using run escape Cons by (auto split: option.splits prod.splits)
          then show ?thesis using run escape Cons True "1.IH"(1) [OF \<open>s = c # s'\<close> _ _ Cons True q u [symmetric]] \<open>s = c # s'\<close>
            by (fastforce simp: prepend_def)
        next
          case False
          then obtain d where "simple_escape e = Some d" using run escape Cons by (auto split: option.splits)
          then show ?thesis using run escape Cons False "1.IH"(2) [OF \<open>s = c # s'\<close> _ _ Cons False] \<open>s = c # s'\<close>
            by (fastforce simp: prepend_def)
        qed
      qed (use run escape in auto)
    qed (use run Cons in auto)
  qed
qed

lemma digits_of_length: "digits_of s = Some (t, r) \<Longrightarrow> length r < length s"
  by (cases s) (auto simp: digits_of_def less_Suc_eq_le length_dropWhile_le split: if_splits)

lemma scan_number_length: "scan_number s = Some (t, r) \<Longrightarrow> length r < length s"
proof -
  have int: "length r < length s" if "scan_int s = Some (t, r)" for s t r
    using that by (auto simp: scan_int_def split: list.splits if_splits dest!: digits_of_length)
  have frac: "length r \<le> length s" if "scan_frac s = Some (t, r)" for s t r
    using that by (auto simp: scan_frac_def less_imp_le le_SucI split: list.splits if_splits dest!: digits_of_length)
  have exp: "length r \<le> length s" if "scan_exp s = Some (t, r)" for s t r
    using that by (auto simp: scan_exp_def split: list.splits if_splits dest!: digits_of_length)
  have un: "length r < length s" if "scan_unsigned s = Some (t, r)" for s t r
    using that by (auto simp: scan_unsigned_def split: option.splits prod.splits dest!: int frac exp)
  assume "scan_number s = Some (t, r)"
  then show ?thesis by (auto simp: scan_number_def split: list.splits if_splits dest!: un)
qed

lemma parse_length:
  "parse_value s = Some (v, r) \<Longrightarrow> length r < length s"
  "parse_elems acc s = Some (v, r) \<Longrightarrow> length r < length s"
  "parse_members mems s = Some (v, r) \<Longrightarrow> length r < length s"
proof (induction s and acc s and mems s arbitrary: v r and v r and v r rule: parse_value_parse_elems_parse_members.induct)
  case (1 s)
  from "1.prems" obtain c r0 where sk: "skip_ws s = c # r0" by (subst (asm) parse_value.simps) (auto split: list.splits)
  note run = "1.prems" [unfolded parse_value.simps [of s] sk list.case] and lt = skip_ws_Cons [OF sk]
  consider "c = CHR 0x22" | "c = CHR ''[''" | "c = CHR ''{''" | "c = CHR ''n''" | "c = CHR ''t''" | "c = CHR ''f''"
    | (num) "c \<notin> {CHR 0x22, CHR ''['', CHR ''{'', CHR ''n'', CHR ''t'', CHR ''f''}" by blast
  then show ?case
  proof cases
    case 1
    then show ?thesis using run lt by (auto dest!: parse_string_length)
  next
    case 2
    then show ?thesis using run lt "1.IH"(1) [OF sk] skip_ws_length [of r0] by (auto split: if_splits)
  next
    case 3
    then show ?thesis using run lt "1.IH"(2) [OF sk] skip_ws_length [of r0] by (auto split: if_splits)
  next
    case num
    then show ?thesis using run lt by (auto dest!: scan_number_length)
  qed (use run lt in \<open>auto simp: scan_word_def split: if_splits\<close>)
next
  case (2 acc s)
  obtain u r1 c r2 where u: "parse_value s = Some (u, r1)" and lt: "length r1 < length s" and sk: "skip_ws r1 = c # r2"
    using "2.prems" by (subst (asm) parse_elems.simps) (auto split: option.splits list.splits if_splits)
  from "2.prems" have "c = CHR '','' \<and> parse_elems (acc @ [u]) r2 = Some (v, r) \<or> r = r2"
    by (subst (asm) parse_elems.simps) (auto simp: u lt sk split: if_splits)
  then show ?case using "2.IH"(2) [OF u refl lt sk] skip_ws_Cons [OF sk] lt by fastforce
next
  case (3 acc s)
  obtain k r0 u r1 c r2 where k: "take 1 (skip_ws s) = [CHR 0x22]" "parse_string (drop 1 (skip_ws s)) = Some (k, r0)"
      "take 1 (skip_ws r0) = '':'' \<and> length (drop 1 (skip_ws r0)) < length s"
    and u: "parse_value (drop 1 (skip_ws r0)) = Some (u, r1)" and lt: "length r1 < length s" and sk: "skip_ws r1 = c # r2"
    using "3.prems" by (subst (asm) parse_members.simps) (auto split: option.splits list.splits if_splits)
  from "3.prems" have "c = CHR '','' \<and> parse_members (acc @ [(k, u)]) r2 = Some (v, r) \<or> r = r2"
    unfolding parse_members.simps [of acc s] by (simp only: u lt sk k option.case prod.case list.case) (auto split: if_splits)
  then show ?case using "3.IH"(2) [OF k(1,2) refl k(3) u refl lt sk] skip_ws_Cons [OF sk] lt by fastforce
qed

lemmas parse_value_length = parse_length(1)

subsection \<open>The round trip\<close>

text \<open>Values whose text is read back: the strings are valid UTF-8 and the numbers are integers.\<close>

fun json_ok :: "json \<Rightarrow> bool" where
  "json_ok JNull = True"
| "json_ok (JBool b) = True"
| "json_ok (JNum t) = (\<exists>i. t = itoa i)"
| "json_ok (JStr s) = valid_utf8 s"
| "json_ok (JArr js) = list_all json_ok js"
| "json_ok (JObj ms) = list_all (\<lambda>m. valid_utf8 (fst m) \<and> json_ok (snd m)) ms"

text \<open>What may follow a value.\<close>

definition ends_value :: "string \<Rightarrow> bool" where
  "ends_value s \<longleftrightarrow> (case s of [] \<Rightarrow> True | c # _ \<Rightarrow> c \<in> {CHR '','', CHR '']'', CHR ''}''} \<or> is_space c)"

lemma ends_value_simps [simp]: "ends_value []" "ends_value (CHR '','' # s)" "ends_value (CHR '']'' # s)" "ends_value (CHR ''}'' # s)"
  by (simp_all add: ends_value_def)

lemma skip_ws_simps [simp]: "\<not> is_space c \<Longrightarrow> skip_ws (c # s) = c # s" "skip_ws [] = []"
  by (simp_all add: skip_ws_def)

lemma structural_not_space [simp]: "\<not> is_space (CHR '','')" "\<not> is_space (CHR '']'')" "\<not> is_space (CHR ''}'')" "\<not> is_space (CHR '':'')"
  "\<not> is_space (CHR 0x22)" "\<not> is_space (CHR ''['')" "\<not> is_space (CHR ''{'')" "\<not> is_space (CHR ''n'')"
  "\<not> is_space (CHR ''t'')" "\<not> is_space (CHR ''f'')" "\<not> is_space (CHR ''-'')"
  by (simp_all add: is_space_def)

lemma digit_char_facts: "is_digit c \<Longrightarrow> \<not> is_space c \<and> c \<notin> {CHR 0x22, CHR ''['', CHR ''{'', CHR ''n'', CHR ''t'', CHR ''f'', CHR ''-'', CHR '']''}"
  by (auto simp: is_digit_def is_space_def less_eq_char_def)

lemma scan_digits:
  assumes "ds \<noteq> []" "list_all is_digit ds" "ends_value s" "hd ds = CHR ''0'' \<Longrightarrow> ds = ''0''"
  shows "scan_unsigned (ds @ s) = Some (ds, s)"
proof -
  have nd: "\<not> is_digit (hd s) \<and> hd s \<notin> {CHR ''.'', CHR ''e'', CHR ''E''}" if "s \<noteq> []"
    using assms(3) that by (auto simp: ends_value_def is_digit_def is_space_def less_eq_char_def split: list.splits)
  have "takeWhile is_digit (ds @ s) = ds" "dropWhile is_digit (ds @ s) = s"
    using assms(2) nd by (cases s; simp add: list_all_iff takeWhile_append dropWhile_append3)+
  then have "digits_of (ds @ s) = Some (ds, s)" using assms(1) by (simp add: digits_of_def)
  then have "scan_int (ds @ s) = Some (ds, s)" using assms(1,4) by (cases ds) (auto simp: scan_int_def)
  moreover have "scan_frac s = Some ([], s)" "scan_exp s = Some ([], s)"
    using nd by (auto simp: scan_frac_def scan_exp_def split: list.splits)
  ultimately show ?thesis by (simp add: scan_unsigned_def)
qed

lemma digits_base_leading: "hd (digits_base 10 n) = CHR ''0'' \<Longrightarrow> digits_base 10 n = ''0''"
proof (induction n rule: less_induct)
  case (less n)
  have z: "digit_char k = CHR ''0'' \<Longrightarrow> k < 10 \<Longrightarrow> k = 0" for k
    using char_digit_digit_char [of k] by (simp add: char_digit_def)
  have ne: "digits_base 10 m \<noteq> []" for m by (subst digits_base.simps) simp
  show ?case
  proof (cases "n < 10")
    case True
    then show ?thesis using less.prems z by (simp add: digits_base.simps [of 10 n]) 
  next
    case False
    then have "hd (digits_base 10 (n div 10)) = CHR ''0''" using less.prems ne by (simp add: digits_base.simps [of 10 n])
    then have "digits_base 10 (n div 10) = ''0''" using less.IH [of "n div 10"] False by simp
    then have "n div 10 = 0" using value_base_digits [of 10 "n div 10"] by (simp add: value_base_def char_digit_def)
    with False show ?thesis by simp
  qed
qed

lemma scan_itoa: "ends_value s \<Longrightarrow> scan_number (itoa i @ s) = Some (itoa i, s)"
proof -
  assume e: "ends_value s"
  have ne: "digits_base 10 n \<noteq> []" for n by (subst digits_base.simps) simp
  have un: "scan_unsigned (digits_base 10 n @ s) = Some (digits_base 10 n, s)" for n
    using scan_digits [OF ne digits_are_digits e digits_base_leading] .
  have sign: "hd (digits_base 10 n) \<noteq> CHR ''-''" for n
    using digits_are_digits [of n] ne [of n] digit_char_facts by (cases "digits_base 10 n") auto
  have "scan_number (digits_base 10 n @ s) = Some (digits_base 10 n, s)" for n
    using un [of n] ne [of n] sign [of n] by (cases "digits_base 10 n") (simp_all add: scan_number_def)
  then show ?thesis using un by (simp add: itoa_def scan_number_def)
qed

lemma itoa_Cons:
  obtains c t where "itoa i = c # t" "is_digit c \<or> c = CHR ''-''"
proof -
  have "digits_base 10 n \<noteq> []" for n by (subst digits_base.simps) simp
  then have "itoa i \<noteq> []" "is_digit (hd (itoa i)) \<or> hd (itoa i) = CHR ''-''"
    using digits_are_digits [of "nat i"] by (auto simp: itoa_def list_all_iff)
  then show thesis using that by (metis list.exhaust_sel)
qed

lemma json_text_start:
  assumes "json_ok j"
  obtains c t where "json_text j = c # t" "\<not> is_space c" "c \<noteq> CHR '']''"
proof (cases j)
  case (JNum t)
  then obtain i where "t = itoa i" using assms by auto
  moreover obtain c u where "itoa i = c # u" "is_digit c \<or> c = CHR ''-''" by (rule itoa_Cons)
  ultimately show thesis using that [of c u] JNum digit_char_facts [of c] by auto
next
  case (JBool b)
  then show thesis using that by (cases b) simp_all
qed (auto simp: quoted_def intro: that)

lemma parse_elems_text:
  assumes "js \<noteq> []" "\<forall>j \<in> set js. json_ok j \<and> (\<forall>s. ends_value s \<longrightarrow> parse_value (json_text j @ s) = Some (j, s))"
  shows "parse_elems acc (join_with '','' (map json_text js) @ CHR '']'' # s) = Some (JArr (acc @ js), s)"
  using assms
proof (induction js arbitrary: acc)
  case (Cons j js)
  have "json_ok j" using Cons.prems by simp
  then obtain c t where start: "json_text j = c # t" by (rule json_text_start)
  show ?case
  proof (cases "js = []")
    case True
    then show ?thesis using Cons.prems(2) start by (subst parse_elems.simps) simp
  next
    case False
    then have "parse_elems (acc @ [j]) (join_with '','' (map json_text js) @ CHR '']'' # s) = Some (JArr (acc @ j # js), s)"
      using Cons.IH [of "acc @ [j]"] Cons.prems(2) by simp
    then show ?thesis using False Cons.prems(2) start by (subst parse_elems.simps) (simp add: join_with_Cons)
  qed
qed simp

lemma parse_members_text:
  assumes "ms \<noteq> []" "\<forall>m \<in> set ms. valid_utf8 (fst m) \<and> json_ok (snd m) \<and>
    (\<forall>s. ends_value s \<longrightarrow> parse_value (json_text (snd m) @ s) = Some (snd m, s))"
  shows "parse_members acc (join_with '','' (map (\<lambda>m. quoted (fst m) @ '':'' @ json_text (snd m)) ms) @ CHR ''}'' # s) =
    Some (JObj (acc @ ms), s)"
  using assms
proof (induction ms arbitrary: acc)
  case (Cons m ms)
  obtain k v where m: "m = (k, v)" by fastforce
  have key: "parse_string (string_text k @ CHR 0x22 # r) = Some (k, r)" for r
    using Cons.prems(2) m parse_string_text by simp
  have val: "parse_value (json_text v @ s) = Some (v, s)" if "ends_value s" for s
    using Cons.prems(2) m that by simp
  show ?case
  proof (cases "ms = []")
    case True
    then show ?thesis using m key val by (subst parse_members.simps) (simp add: quoted_def)
  next
    case False
    then have "parse_members (acc @ [m]) (join_with '','' (map (\<lambda>m. quoted (fst m) @ '':'' @ json_text (snd m)) ms) @ CHR ''}'' # s) =
        Some (JObj (acc @ m # ms), s)"
      using Cons.IH [of "acc @ [m]"] Cons.prems(2) by simp
    then show ?thesis using False m key val by (subst parse_members.simps) (simp add: join_with_Cons quoted_def)
  qed
qed simp

lemma parse_json_text:
  "json_ok j \<Longrightarrow> ends_value s \<Longrightarrow> parse_value (json_text j @ s) = Some (j, s)"
proof (induction j arbitrary: s)
  case (JNum t)
  then obtain i where t: "t = itoa i" by auto
  obtain c u where c: "itoa i = c # u" "is_digit c \<or> c = CHR ''-''" by (rule itoa_Cons)
  then have "\<not> is_space c" "c \<notin> {CHR 0x22, CHR ''['', CHR ''{'', CHR ''n'', CHR ''t'', CHR ''f''}"
    using digit_char_facts [of c] by auto
  then show ?case using scan_itoa [OF JNum.prems(2), of i] c t by (subst parse_value.simps) simp
next
  case (JStr str)
  then show ?case using parse_string_text [of str s] by (subst parse_value.simps) (simp add: quoted_def)
next
  case (JArr js)
  show ?case
  proof (cases "js = []")
    case True
    then show ?thesis by (subst parse_value.simps) simp
  next
    case False
    let ?t = "join_with '','' (map json_text js) @ CHR '']'' # s"
    have all: "\<forall>j \<in> set js. json_ok j \<and> (\<forall>s. ends_value s \<longrightarrow> parse_value (json_text j @ s) = Some (j, s))"
      using JArr by (auto simp: list_all_iff)
    from False obtain j js' where js: "js = j # js'" by (cases js) auto
    with all have "json_ok j" by simp
    then obtain c t where "json_text j = c # t" "\<not> is_space c" "c \<noteq> CHR '']''" by (rule json_text_start)
    then have "\<exists>r. ?t = c # r \<and> \<not> is_space c \<and> c \<noteq> CHR '']''" using js by (cases js') simp_all
    then have "take 1 (skip_ws ?t) \<noteq> '']''" by fastforce
    then show ?thesis using parse_elems_text [OF False all, of "[]" s] by (subst parse_value.simps) simp
  qed
next
  case (JObj ms)
  show ?case
  proof (cases "ms = []")
    case True
    then show ?thesis by (subst parse_value.simps) simp
  next
    case False
    let ?t = "join_with '','' (map (\<lambda>m. quoted (fst m) @ '':'' @ json_text (snd m)) ms) @ CHR ''}'' # s"
    have all: "\<forall>m \<in> set ms. valid_utf8 (fst m) \<and> json_ok (snd m) \<and>
        (\<forall>s. ends_value s \<longrightarrow> parse_value (json_text (snd m) @ s) = Some (snd m, s))"
      using JObj by (fastforce simp: list_all_iff)
    from False obtain m ms' where "ms = m # ms'" by (cases ms) auto
    then have "take 1 (skip_ws ?t) \<noteq> ''}''" by (cases ms') (simp_all add: quoted_def)
    then show ?thesis using parse_members_text [OF False all, of "[]" s] by (subst parse_value.simps) simp
  qed
qed (subst parse_value.simps, simp add: scan_word_def)+

theorem json_roundtrip: "json_ok j \<Longrightarrow> parse_json (json_text j) = Some j"
  using parse_json_text [of j "[]"] by (simp add: parse_json_def)

end
