(* ===== verification/Policy_Json.thy ===== *)
theory Policy_Json
  imports Policy_API Go_Json
begin

text \<open>
  The payloads of the policy API as JSON text: the struct tags of \<^verbatim>\<open>policy-server/api/api.go\<close>,
  \<^verbatim>\<open>api_v0/api.go\<close> and \<^verbatim>\<open>api_v0_internal/api.go\<close> read by \<^verbatim>\<open>encoding/json\<close>. \<^verbatim>\<open>Unmarshal\<close> stores into a value that
  may hold something already: \<^verbatim>\<open>null\<close> leaves it as it is, unknown keys are skipped, a key given twice is
  stored twice, and field names are matched without regard to case. A value of the wrong type makes
  \<^verbatim>\<open>Unmarshal\<close> fail in the end. The mappers of \<open>Policy_API\<close> take \<^verbatim>\<open>Marshal\<close> and \<^verbatim>\<open>Unmarshal\<close> as arguments; here they
  are instantiated.
\<close>

subsection \<open>Decoding\<close>

type_synonym 'a decoder = "json \<Rightarrow> 'a \<Rightarrow> 'a option"

definition dec_string :: "string decoder" where
  "dec_string j old = (case j of JNull \<Rightarrow> Some old | JStr s \<Rightarrow> Some s | _ \<Rightarrow> None)"

definition dec_int :: "int decoder" where
  "dec_int j old = (case j of JNull \<Rightarrow> Some old
     | JNum t \<Rightarrow> (case Atoi t of Inl _ \<Rightarrow> None | Inr i \<Rightarrow> Some i) | _ \<Rightarrow> None)"

text \<open>\<^verbatim>\<open>equalFold\<close>: beside the other case, a key may spell \<^verbatim>\<open>k\<close> as the Kelvin sign and \<^verbatim>\<open>s\<close> as the long s.\<close>

definition lower_char :: "char \<Rightarrow> char" where
  "lower_char c = (if between 65 90 c then char_of (byte c + 32) else c)"

fun fold_key :: "string \<Rightarrow> string" where
  "fold_key (a # b # c # s) =
     (if [a, b, c] = [CHR 0xE2, CHR 0x84, CHR 0xAA] then CHR ''k'' # fold_key s
      else if [a, b] = [CHR 0xC5, CHR 0xBF] then CHR ''s'' # fold_key (c # s)
      else lower_char a # fold_key (b # c # s))"
| "fold_key [a, b] = (if [a, b] = [CHR 0xC5, CHR 0xBF] then ''s'' else [lower_char a, lower_char b])"
| "fold_key [a] = [lower_char a]"
| "fold_key [] = []"

fun dec_members :: "(string \<Rightarrow> json \<Rightarrow> 'a \<Rightarrow> 'a option) \<Rightarrow> (string \<times> json) list \<Rightarrow> 'a \<Rightarrow> 'a option" where
  "dec_members field [] x = Some x"
| "dec_members field ((k, j) # ms) x = (case field (fold_key k) j x of None \<Rightarrow> None | Some x \<Rightarrow> dec_members field ms x)"

definition dec_struct :: "(string \<Rightarrow> json \<Rightarrow> 'a \<Rightarrow> 'a option) \<Rightarrow> 'a decoder" where
  "dec_struct field j x = (case j of JNull \<Rightarrow> Some x | JObj ms \<Rightarrow> dec_members field ms x | _ \<Rightarrow> None)"

text \<open>A slice is stored element by element into the array behind it, and an element that was there before
  is not reset. The second component holds what the array has after the end of the slice.\<close>

fun dec_elems :: "'a decoder \<Rightarrow> 'a \<Rightarrow> json list \<Rightarrow> 'a list \<Rightarrow> 'a list option" where
  "dec_elems d zero [] old = Some []"
| "dec_elems d zero (j # js) old = (case d j (case old of [] \<Rightarrow> zero | x # _ \<Rightarrow> x) of
       None \<Rightarrow> None
     | Some y \<Rightarrow> map_option (\<lambda>ys. y # ys) (dec_elems d zero js (drop 1 old)))"

definition dec_slice :: "'a decoder \<Rightarrow> 'a \<Rightarrow> ('a list \<times> 'a list) decoder" where
  "dec_slice d zero j x = (case j of
       JNull \<Rightarrow> Some ([], [])
     | JArr [] \<Rightarrow> Some ([], [])
     | JArr js \<Rightarrow> map_option (\<lambda>ys. (ys, drop (length ys) (fst x @ snd x))) (dec_elems d zero js (fst x @ snd x))
     | _ \<Rightarrow> None)"

subsection \<open>Version 1\<close>

definition dec_Source :: "api_Source decoder" where
  "dec_Source = dec_struct (\<lambda>k j x.
     if k = ''id'' then map_option (\<lambda>v. x\<lparr>a_src_ID := v\<rparr>) (dec_string j (a_src_ID x))
     else if k = ''tag'' then map_option (\<lambda>v. x\<lparr>a_src_Tag := v\<rparr>) (dec_string j (a_src_Tag x))
     else Some x)"

definition dec_Ports :: "api_Ports decoder" where
  "dec_Ports = dec_struct (\<lambda>k j x.
     if k = ''start'' then map_option (\<lambda>v. x\<lparr>a_Start := v\<rparr>) (dec_int j (a_Start x))
     else if k = ''end'' then map_option (\<lambda>v. x\<lparr>a_End := v\<rparr>) (dec_int j (a_End x))
     else Some x)"

definition dec_Destination :: "api_Destination decoder" where
  "dec_Destination = dec_struct (\<lambda>k j x.
     if k = ''id'' then map_option (\<lambda>v. x\<lparr>a_dst_ID := v\<rparr>) (dec_string j (a_dst_ID x))
     else if k = ''tag'' then map_option (\<lambda>v. x\<lparr>a_dst_Tag := v\<rparr>) (dec_string j (a_dst_Tag x))
     else if k = ''protocol'' then map_option (\<lambda>v. x\<lparr>a_Protocol := v\<rparr>) (dec_string j (a_Protocol x))
     else if k = ''ports'' then map_option (\<lambda>v. x\<lparr>a_Ports := v\<rparr>) (dec_Ports j (a_Ports x))
     else Some x)"

definition dec_Policy :: "api_Policy decoder" where
  "dec_Policy = dec_struct (\<lambda>k j x.
     if k = ''source'' then map_option (\<lambda>v. x\<lparr>a_Source := v\<rparr>) (dec_Source j (a_Source x))
     else if k = ''destination'' then map_option (\<lambda>v. x\<lparr>a_Destination := v\<rparr>) (dec_Destination j (a_Destination x))
     else Some x)"

definition zero_Policy :: api_Policy where
  "zero_Policy = \<lparr>a_Source = \<lparr>a_src_ID = '''', a_src_Tag = ''''\<rparr>,
     a_Destination = \<lparr>a_dst_ID = '''', a_dst_Tag = '''', a_Protocol = '''', a_Ports = \<lparr>a_Start = 0, a_End = 0\<rparr>\<rparr>\<rparr>"

text \<open>The payload while it is stored: the number, the slice and the array behind it. The clients declare the
  field \<^verbatim>\<open>policies\<close> only.\<close>

definition dec_Policies :: "(int \<times> api_Policy list \<times> api_Policy list) decoder" where
  "dec_Policies = dec_struct (\<lambda>k j x.
     if k = ''total_policies'' then map_option (\<lambda>v. (v, snd x)) (dec_int j (fst x))
     else if k = ''policies'' then map_option (\<lambda>v. (fst x, v)) (dec_slice dec_Policy zero_Policy j (snd x))
     else Some x)"

definition dec_policies_field :: "(api_Policy list \<times> api_Policy list) decoder" where
  "dec_policies_field = dec_struct (\<lambda>k j x. if k = ''policies'' then dec_slice dec_Policy zero_Policy j x else Some x)"

definition Unmarshal_Policies :: "string \<Rightarrow> api_Policies result" where
  "Unmarshal_Policies bytes = (case parse_json bytes of
       None \<Rightarrow> Inl (JsonError ''syntax error'')
     | Some j \<Rightarrow> (case dec_Policies j (0, [], []) of
         None \<Rightarrow> Inl (JsonError ''cannot unmarshal'')
       | Some (n, ps, _) \<Rightarrow> Inr \<lparr>TotalPolicies = n, Policies = ps\<rparr>))"

definition client_Unmarshal :: "string \<Rightarrow> api_Policy list result" where
  "client_Unmarshal bytes = (case parse_json bytes of
       None \<Rightarrow> Inl (JsonError ''syntax error'')
     | Some j \<Rightarrow> (case dec_policies_field j ([], []) of
         None \<Rightarrow> Inl (JsonError ''cannot unmarshal'') | Some (ps, _) \<Rightarrow> Inr ps))"

definition tag_member :: "string \<Rightarrow> (string \<times> json) list" where
  "tag_member t = (if t = '''' then [] else [(''tag'', JStr t)])"

definition json_Source :: "api_Source \<Rightarrow> json" where
  "json_Source s = JObj ((''id'', JStr (a_src_ID s)) # tag_member (a_src_Tag s))"

definition json_Ports :: "api_Ports \<Rightarrow> json" where
  "json_Ports p = JObj [(''start'', JNum (itoa (a_Start p))), (''end'', JNum (itoa (a_End p)))]"

definition json_Destination :: "api_Destination \<Rightarrow> json" where
  "json_Destination d = JObj ((''id'', JStr (a_dst_ID d)) # tag_member (a_dst_Tag d) @
     [(''protocol'', JStr (a_Protocol d)), (''ports'', json_Ports (a_Ports d))])"

definition json_Policy :: "api_Policy \<Rightarrow> json" where
  "json_Policy p = JObj [(''source'', json_Source (a_Source p)), (''destination'', json_Destination (a_Destination p))]"

definition Marshal_Policies :: "api_Policies \<Rightarrow> string result" where
  "Marshal_Policies P = Inr (json_text (JObj
     [(''total_policies'', JNum (itoa (TotalPolicies P))), (''policies'', JArr (map json_Policy (Policies P)))]))"

definition client_Marshal :: "api_Policy list \<Rightarrow> string" where
  "client_Marshal ps = json_text (JObj [(''policies'', JArr (map json_Policy ps))])"

subsection \<open>Version 0\<close>

definition dec_v0_Destination :: "v0_Destination decoder" where
  "dec_v0_Destination = dec_struct (\<lambda>k j x.
     if k = ''id'' then map_option (\<lambda>v. x\<lparr>v0_dst_ID := v\<rparr>) (dec_string j (v0_dst_ID x))
     else if k = ''tag'' then map_option (\<lambda>v. x\<lparr>v0_dst_Tag := v\<rparr>) (dec_string j (v0_dst_Tag x))
     else if k = ''protocol'' then map_option (\<lambda>v. x\<lparr>v0_Protocol := v\<rparr>) (dec_string j (v0_Protocol x))
     else if k = ''port'' then map_option (\<lambda>v. x\<lparr>v0_Port := v\<rparr>) (dec_int j (v0_Port x))
     else Some x)"

definition dec_v0_Policy :: "v0_Policy decoder" where
  "dec_v0_Policy = dec_struct (\<lambda>k j x.
     if k = ''source'' then map_option (\<lambda>v. x\<lparr>v0_Source := v\<rparr>) (dec_Source j (v0_Source x))
     else if k = ''destination'' then map_option (\<lambda>v. x\<lparr>v0_Destination := v\<rparr>) (dec_v0_Destination j (v0_Destination x))
     else Some x)"

definition zero_v0_Policy :: v0_Policy where
  "zero_v0_Policy = \<lparr>v0_Source = \<lparr>a_src_ID = '''', a_src_Tag = ''''\<rparr>,
     v0_Destination = \<lparr>v0_dst_ID = '''', v0_dst_Tag = '''', v0_Protocol = '''', v0_Port = 0\<rparr>\<rparr>"

definition dec_v0_Policies :: "(int \<times> v0_Policy list \<times> v0_Policy list) decoder" where
  "dec_v0_Policies = dec_struct (\<lambda>k j x.
     if k = ''total_policies'' then map_option (\<lambda>v. (v, snd x)) (dec_int j (fst x))
     else if k = ''policies'' then map_option (\<lambda>v. (fst x, v)) (dec_slice dec_v0_Policy zero_v0_Policy j (snd x))
     else Some x)"

definition Unmarshal_v0_Policies :: "string \<Rightarrow> v0_Policies result" where
  "Unmarshal_v0_Policies bytes = (case parse_json bytes of
       None \<Rightarrow> Inl (JsonError ''syntax error'')
     | Some j \<Rightarrow> (case dec_v0_Policies j (0, [], []) of
         None \<Rightarrow> Inl (JsonError ''cannot unmarshal'')
       | Some (n, ps, _) \<Rightarrow> Inr \<lparr>v0_TotalPolicies = n, v0_Policies = ps\<rparr>))"

definition json_v0_Destination :: "v0_Destination \<Rightarrow> json" where
  "json_v0_Destination d = JObj ((''id'', JStr (v0_dst_ID d)) # tag_member (v0_dst_Tag d) @
     [(''protocol'', JStr (v0_Protocol d)), (''port'', JNum (itoa (v0_Port d)))])"

definition json_v0_Policy :: "v0_Policy \<Rightarrow> json" where
  "json_v0_Policy p = JObj [(''source'', json_Source (v0_Source p)), (''destination'', json_v0_Destination (v0_Destination p))]"

definition Marshal_v0_Policies :: "v0_Policies \<Rightarrow> string result" where
  "Marshal_v0_Policies P = Inr (json_text (JObj
     [(''total_policies'', JNum (itoa (v0_TotalPolicies P))), (''policies'', JArr (map json_v0_Policy (v0_Policies P)))]))"

definition client_Marshal_v0 :: "v0_Policy list \<Rightarrow> string" where
  "client_Marshal_v0 ps = json_text (JObj [(''policies'', JArr (map json_v0_Policy ps))])"

subsection \<open>The internal API, version 0\<close>

definition json_internal_Destination :: "internal_Destination \<Rightarrow> json" where
  "json_internal_Destination d = JObj ((''id'', JStr (i_dst_ID d)) # tag_member (i_dst_Tag d) @
     [(''protocol'', JStr (i_Protocol d)), (''port'', JNum (itoa (i_Port d))), (''ports'', json_Ports (i_Ports d))])"

definition json_internal_Policy :: "internal_Policy \<Rightarrow> json" where
  "json_internal_Policy p = JObj [(''source'', json_Source (i_Source p)), (''destination'', json_internal_Destination (i_Destination p))]"

definition Marshal_internal_Policies :: "internal_Policies \<Rightarrow> string result" where
  "Marshal_internal_Policies P = Inr (json_text (JObj
     [(''total_policies'', JNum (itoa (i_TotalPolicies P))), (''policies'', JArr (map json_internal_Policy (i_Policies P)))]))"

subsection \<open>What is sent arrives\<close>

text \<open>Policies that survive the wire: their text is valid UTF-8 and their ports are 64-bit integers.\<close>

definition int64 :: "int \<Rightarrow> bool" where
  "int64 i \<longleftrightarrow> - (2 ^ 63) \<le> i \<and> i < 2 ^ 63"

definition wire_ok :: "api_Policy \<Rightarrow> bool" where
  "wire_ok p \<longleftrightarrow> valid_utf8 (a_src_ID (a_Source p)) \<and> valid_utf8 (a_src_Tag (a_Source p)) \<and>
     valid_utf8 (a_dst_ID (a_Destination p)) \<and> valid_utf8 (a_dst_Tag (a_Destination p)) \<and>
     valid_utf8 (a_Protocol (a_Destination p)) \<and>
     int64 (a_Start (a_Ports (a_Destination p))) \<and> int64 (a_End (a_Ports (a_Destination p)))"

lemma fold_key_fields [simp]:
  "fold_key ''id'' = ''id''" "fold_key ''tag'' = ''tag''" "fold_key ''protocol'' = ''protocol''" "fold_key ''ports'' = ''ports''"
  "fold_key ''start'' = ''start''" "fold_key ''end'' = ''end''" "fold_key ''source'' = ''source''"
  "fold_key ''destination'' = ''destination''" "fold_key ''policies'' = ''policies''" "fold_key ''total_policies'' = ''total_policies''"
  "fold_key ''port'' = ''port''"
  by (simp_all add: lower_char_def between_def byte_def)

declare fold_key.simps [simp del]

lemma ascii_utf8: "list_all (\<lambda>c. byte c < 128) s \<Longrightarrow> valid_utf8 s"
  by (induction s) (subst valid_utf8.simps, simp add: rune_size_def)+

lemma valid_utf8_fields [simp]:
  "valid_utf8 ''id''" "valid_utf8 ''tag''" "valid_utf8 ''protocol''" "valid_utf8 ''ports''" "valid_utf8 ''start''" "valid_utf8 ''end''"
  "valid_utf8 ''source''" "valid_utf8 ''destination''" "valid_utf8 ''policies''" "valid_utf8 ''total_policies''" "valid_utf8 ''''"
  "valid_utf8 ''port''"
  by (intro ascii_utf8; simp add: byte_def)+

lemmas json_record_defs = json_Policy_def json_Source_def json_Destination_def json_Ports_def tag_member_def

lemma json_ok_Policy: "wire_ok p \<Longrightarrow> json_ok (json_Policy p)"
  by (auto simp: json_record_defs wire_ok_def)

lemma dec_int_itoa [simp]: "int64 i \<Longrightarrow> dec_int (JNum (itoa i)) x = Some i"
  using Atoi_itoa [of i] by (simp add: int64_def dec_int_def)

lemma dec_Policy_json:
  assumes "wire_ok p"
  shows "dec_Policy (json_Policy p) zero_Policy = Some p"
proof -
  have s: "dec_Source (json_Source s) \<lparr>a_src_ID = '''', a_src_Tag = ''''\<rparr> = Some s" for s
    by (simp add: dec_Source_def json_Source_def tag_member_def dec_struct_def dec_string_def)
  have p: "dec_Ports (json_Ports q) \<lparr>a_Start = 0, a_End = 0\<rparr> = Some q" if "int64 (a_Start q)" "int64 (a_End q)" for q
    using that by (simp add: dec_Ports_def json_Ports_def dec_struct_def)
  have d: "dec_Destination (json_Destination d)
      \<lparr>a_dst_ID = '''', a_dst_Tag = '''', a_Protocol = '''', a_Ports = \<lparr>a_Start = 0, a_End = 0\<rparr>\<rparr> = Some d"
    if "int64 (a_Start (a_Ports d))" "int64 (a_End (a_Ports d))" for d
    using p [OF that] by (simp add: dec_Destination_def json_Destination_def tag_member_def dec_struct_def dec_string_def)
  show ?thesis using assms s [of "a_Source p"] d [of "a_Destination p"]
    by (simp add: dec_Policy_def json_Policy_def dec_struct_def zero_Policy_def wire_ok_def)
qed

lemma dec_slice_map:
  assumes "\<And>p. p \<in> set ps \<Longrightarrow> d (f p) zero = Some p"
  shows "dec_slice d zero (JArr (map f ps)) ([], []) = Some (ps, [])"
proof -
  have "dec_elems d zero (map f ps) [] = Some ps" using assms by (induction ps) simp_all
  then show ?thesis by (cases ps) (simp_all add: dec_slice_def)
qed

lemma dec_slice_json:
  "list_all wire_ok ps \<Longrightarrow> dec_slice dec_Policy zero_Policy (JArr (map json_Policy ps)) ([], []) = Some (ps, [])"
  by (rule dec_slice_map) (simp add: list_all_iff dec_Policy_json)

theorem wire_roundtrip:
  assumes "list_all wire_ok (Policies P)" "int64 (TotalPolicies P)"
  obtains b where "Marshal_Policies P = Inr b" "Unmarshal_Policies b = Inr P" "client_Unmarshal b = Inr (Policies P)"
proof -
  let ?j = "JObj [(''total_policies'', JNum (itoa (TotalPolicies P))), (''policies'', JArr (map json_Policy (Policies P)))]"
  have "json_ok ?j" using assms by (auto simp: list_all_iff json_ok_Policy)
  then have "parse_json (json_text ?j) = Some ?j" by (rule json_roundtrip)
  moreover have "dec_Policies ?j (0, [], []) = Some (TotalPolicies P, Policies P, [])"
    "dec_policies_field ?j ([], []) = Some (Policies P, [])"
    using assms dec_slice_json by (simp_all add: dec_Policies_def dec_policies_field_def dec_struct_def)
  ultimately show thesis
    using that [of "json_text ?j"] by (simp add: Marshal_Policies_def Unmarshal_Policies_def client_Unmarshal_def)
qed

text \<open>A client does not read the number, so it may be any.\<close>

lemma listing_arrives:
  assumes "list_all wire_ok (Policies P)"
  obtains b where "Marshal_Policies P = Inr b" "client_Unmarshal b = Inr (Policies P)"
proof -
  let ?j = "JObj [(''total_policies'', JNum (itoa (TotalPolicies P))), (''policies'', JArr (map json_Policy (Policies P)))]"
  have "json_ok ?j" using assms by (auto simp: list_all_iff json_ok_Policy)
  then have "parse_json (json_text ?j) = Some ?j" by (rule json_roundtrip)
  moreover have "dec_policies_field ?j ([], []) = Some (Policies P, [])"
    using assms dec_slice_json by (simp add: dec_policies_field_def dec_struct_def)
  ultimately show thesis using that [of "json_text ?j"] by (simp add: Marshal_Policies_def client_Unmarshal_def)
qed

lemma request_roundtrip:
  assumes "list_all wire_ok ps"
  shows "Unmarshal_Policies (client_Marshal ps) = Inr \<lparr>TotalPolicies = 0, Policies = ps\<rparr>"
proof -
  let ?j = "JObj [(''policies'', JArr (map json_Policy ps))]"
  have "json_ok ?j" using assms by (auto simp: list_all_iff json_ok_Policy)
  then have "parse_json (json_text ?j) = Some ?j" by (rule json_roundtrip)
  moreover have "dec_Policies ?j (0, [], []) = Some (0, ps, [])"
    using assms dec_slice_json by (simp add: dec_Policies_def dec_struct_def)
  ultimately show ?thesis by (simp add: client_Marshal_def Unmarshal_Policies_def)
qed

text \<open>The same for version 0.\<close>

definition v0_wire_ok :: "v0_Policy \<Rightarrow> bool" where
  "v0_wire_ok p \<longleftrightarrow> valid_utf8 (a_src_ID (v0_Source p)) \<and> valid_utf8 (a_src_Tag (v0_Source p)) \<and>
     valid_utf8 (v0_dst_ID (v0_Destination p)) \<and> valid_utf8 (v0_dst_Tag (v0_Destination p)) \<and>
     valid_utf8 (v0_Protocol (v0_Destination p)) \<and> int64 (v0_Port (v0_Destination p))"

lemma dec_v0_Policy_json:
  assumes "v0_wire_ok p"
  shows "dec_v0_Policy (json_v0_Policy p) zero_v0_Policy = Some p"
proof -
  have s: "dec_Source (json_Source s) \<lparr>a_src_ID = '''', a_src_Tag = ''''\<rparr> = Some s" for s
    by (simp add: dec_Source_def json_Source_def tag_member_def dec_struct_def dec_string_def)
  have d: "dec_v0_Destination (json_v0_Destination d) \<lparr>v0_dst_ID = '''', v0_dst_Tag = '''', v0_Protocol = '''', v0_Port = 0\<rparr> = Some d"
    if "int64 (v0_Port d)" for d
    using that by (simp add: dec_v0_Destination_def json_v0_Destination_def tag_member_def dec_struct_def dec_string_def)
  show ?thesis using assms s [of "v0_Source p"] d [of "v0_Destination p"]
    by (simp add: dec_v0_Policy_def json_v0_Policy_def dec_struct_def zero_v0_Policy_def v0_wire_ok_def)
qed

lemma v0_request_roundtrip:
  assumes "list_all v0_wire_ok ps"
  shows "Unmarshal_v0_Policies (client_Marshal_v0 ps) = Inr \<lparr>v0_TotalPolicies = 0, v0_Policies = ps\<rparr>"
proof -
  let ?j = "JObj [(''policies'', JArr (map json_v0_Policy ps))]"
  have "json_ok (json_v0_Policy p)" if "v0_wire_ok p" for p
    using that by (auto simp: json_v0_Policy_def json_v0_Destination_def json_Source_def tag_member_def v0_wire_ok_def)
  then have "json_ok ?j" using assms by (auto simp: list_all_iff)
  then have "parse_json (json_text ?j) = Some ?j" by (rule json_roundtrip)
  moreover have "dec_slice dec_v0_Policy zero_v0_Policy (JArr (map json_v0_Policy ps)) ([], []) = Some (ps, [])"
    by (rule dec_slice_map) (use assms in \<open>simp add: list_all_iff dec_v0_Policy_json\<close>)
  then have "dec_v0_Policies ?j (0, [], []) = Some (0, ps, [])"
    by (simp add: dec_v0_Policies_def dec_struct_def)
  ultimately show ?thesis by (simp add: client_Marshal_v0_def Unmarshal_v0_Policies_def)
qed


text \<open>An id with an accent, a quote and a character that HTML reserves.\<close>

definition odd_policy :: api_Policy where
  "odd_policy = \<lparr>a_Source = \<lparr>a_src_ID = [CHR 0xC3, CHR 0xA9, CHR 0x22, CHR 0x3C], a_src_Tag = ''''\<rparr>,
     a_Destination = \<lparr>a_dst_ID = ''b'', a_dst_Tag = '''', a_Protocol = ''tcp'', a_Ports = \<lparr>a_Start = 1, a_End = 2\<rparr>\<rparr>\<rparr>"


end
