(* ===== verification/Policy_Pipeline.thy ===== *)
theory Policy_Pipeline
  imports Server_Process Policy_Client Policy_Json
begin

text \<open>
  From a user's change of a policy to the cell that enforces it: the client of the external API, the
  external server, the database, the internal server, the client of the internal API. Requests and
  answers are bytes: URLs as \<^verbatim>\<open>net/url\<close> reads them and JSON as \<^verbatim>\<open>encoding/json\<close> writes and reads it.
  Two libraries outside the repository lie in between and are arguments: the router \<^verbatim>\<open>rata\<close>, and
  \<^verbatim>\<open>json_client\<close>, of which \<open>sound_channel\<close> and \<open>reliable_channel\<close> say what its documentation promises.
\<close>

subsection \<open>URLs\<close>

text \<open>\<^verbatim>\<open>url.QueryUnescape\<close> and \<^verbatim>\<open>url.ParseQuery\<close>: a piece that cannot be unescaped is left out.\<close>

fun query_unescape :: "string \<Rightarrow> string option" where
  "query_unescape [] = Some []"
| "query_unescape (c # s) =
     (if c = CHR ''%''
      then (case s of
          a # b # s' \<Rightarrow> (case (hex_value a, hex_value b) of
              (Some i, Some j) \<Rightarrow> map_option (\<lambda>t. char_of (16 * i + j) # t) (query_unescape s') | _ \<Rightarrow> None)
        | _ \<Rightarrow> None)
      else if c = CHR ''+'' then map_option (\<lambda>t. CHR '' '' # t) (query_unescape s)
      else map_option (\<lambda>t. c # t) (query_unescape s))"

fun split_by :: "(char \<Rightarrow> bool) \<Rightarrow> string \<Rightarrow> string list" where
  "split_by P [] = [[]]"
| "split_by P (c # s) = (if P c then [] # split_by P s
     else case split_by P s of [] \<Rightarrow> [[c]] | w # ws \<Rightarrow> (c # w) # ws)"

definition cut_at :: "char \<Rightarrow> string \<Rightarrow> string \<times> string" where
  "cut_at d s = (takeWhile (\<lambda>c. c \<noteq> d) s, drop 1 (dropWhile (\<lambda>c. c \<noteq> d) s))"

definition parse_pair :: "string \<Rightarrow> url_form \<Rightarrow> url_form" where
  "parse_pair piece f = (if piece = '''' then f else
     (case cut_at (CHR ''='') piece of (k, v) \<Rightarrow>
        (case (query_unescape k, query_unescape v) of (Some k, Some v) \<Rightarrow> values_add k v f | _ \<Rightarrow> f)))"

definition ParseQuery :: "string \<Rightarrow> url_form" where
  "ParseQuery q = fold parse_pair (split_by (\<lambda>c. c \<in> {CHR ''&'', CHR '';''}) q) []"

text \<open>The path and the query of a URL without its base; the paths of the clients have nothing to unescape.\<close>

definition cut_url :: "string \<Rightarrow> string \<times> string" where
  "cut_url url = cut_at (CHR ''?'') (fst (cut_at (CHR ''#'') url))"

subsection \<open>The two servers\<close>

text \<open>A router answers with the name of the handler and the parameter \<^verbatim>\<open>:version\<close>, or with a status of its own.\<close>

type_synonym router = "route list \<Rightarrow> string \<Rightarrow> string \<Rightarrow> int + (string \<times> string)"
type_synonym 'w server = "string \<Rightarrow> string \<Rightarrow> string list \<Rightarrow> string \<Rightarrow> 'w \<Rightarrow> reply \<times> 'w"

definition http_server :: "router \<Rightarrow> route list \<Rightarrow> (string \<Rightarrow> request \<Rightarrow> 'w \<Rightarrow> (reply \<times> 'w) option) \<Rightarrow> 'w server" where
  "http_server rt routes handle meth url auth body w = (case cut_url url of (path, query) \<Rightarrow>
     (case rt routes meth path of
        Inl code \<Rightarrow> (WriteHeader code, w)
      | Inr (name, version) \<Rightarrow>
          (case handle name \<lparr>Method = meth, URLPath = path, Authorization = auth, Origin = [], URLQuery = ParseQuery query,
                  Body = Inr body, VersionParam = version, TokenData = None\<rparr> w of
             None \<Rightarrow> (Crash ''no handler'', w) | Some x \<Rightarrow> x)))"

definition mapper_v1 :: policyMapper where
  "mapper_v1 = \<lparr>m_AsStorePolicy = AsStorePolicy Unmarshal_Policies, m_AsBytes = AsBytes Marshal_Policies\<rparr>"

definition mapper_v0 :: policyMapper where
  "mapper_v0 = \<lparr>m_AsStorePolicy = v0_AsStorePolicy Unmarshal_v0_Policies, m_AsBytes = v0_AsBytes Marshal_v0_Policies\<rparr>"

definition mapper_v0_internal :: policyMapper where
  "mapper_v0_internal = \<lparr>m_AsStorePolicy = internal_AsStorePolicy, m_AsBytes = internal_AsBytes Marshal_internal_Policies\<rparr>"

definition external_api :: "router \<Rightarrow> environment \<Rightarrow> store \<Rightarrow> world server" where
  "external_api rt env st = http_server rt (AddOptionsRoutes ''options'' externalRoutes)
     (\<lambda>name req w. map_option (\<lambda>((hs, r), w'). (r, w')) (serve_external env (metered_store st) name req w))"

definition internal_api :: "router \<Rightarrow> store \<Rightarrow> policyMapper \<Rightarrow> world server" where
  "internal_api rt st mapperV0 = http_server rt internalRoutes
     (\<lambda>name req w. map_option (\<lambda>h. h req w) (map_of (internalHandlers (metered_store st) mapper_v1 mapperV0) name))"

text \<open>What the paths of the clients are routed to.\<close>

definition routes_clients :: "router \<Rightarrow> bool" where
  "routes_clients rt \<longleftrightarrow>
     rt internalRoutes ''GET'' ''/networking/v1/internal/policies'' = Inr (''internal_policies'', ''v1'') \<and>
     (let ext = AddOptionsRoutes ''options'' externalRoutes in
      rt ext ''POST'' ''/networking/v1/external/policies'' = Inr (''create_policies'', ''v1'') \<and>
      rt ext ''POST'' ''/networking/v0/external/policies'' = Inr (''create_policies'', ''v0'') \<and>
      rt ext ''POST'' ''/networking/v1/external/policies/delete'' = Inr (''delete_policies'', ''v1''))"

subsection \<open>The library of the clients\<close>

text \<open>
  \<^verbatim>\<open>Do\<close> sends the request with the token in the header \<^verbatim>\<open>Authorization\<close>, fails for a status above 299 and
  unmarshals the body into the response if one is expected. A call that succeeds has had its request
  served. A call that fails may have had it served or not.
\<close>

definition success :: "reply \<Rightarrow> bool" where
  "success r \<longleftrightarrow> (case r of OK _ \<Rightarrow> True | Empty \<Rightarrow> True | WriteHeader code \<Rightarrow> code \<le> 299 | _ \<Rightarrow> False)"

definition reply_body :: "reply \<Rightarrow> string" where
  "reply_body r = (case r of OK b \<Rightarrow> b | _ \<Rightarrow> '''')"

definition auth_header :: "string \<Rightarrow> string list" where
  "auth_header token = (if token = '''' then [] else [token])"

definition sound_channel :: "'w JsonClient \<Rightarrow> 'w server \<Rightarrow> bool" where
  "sound_channel jc server \<longleftrightarrow>
     (\<forall>route token w ps w'. get_v1 jc route token w = (Inr ps, w') \<longrightarrow>
        (\<exists>r. server ''GET'' route (auth_header token) '''' w = (r, w') \<and> success r \<and>
           client_Unmarshal (reply_body r) = Inr ps)) \<and>
     (\<forall>route ps token w u w'. post_v1 jc route ps token w = (Inr u, w') \<longrightarrow>
        (\<exists>r. server ''POST'' route (auth_header token) (client_Marshal ps) w = (r, w') \<and> success r))"

definition reliable_channel :: "'w JsonClient \<Rightarrow> 'w server \<Rightarrow> bool" where
  "reliable_channel jc server \<longleftrightarrow> sound_channel jc server \<and>
     (\<forall>route token w b ps w'. server ''GET'' route (auth_header token) '''' w = (OK b, w') \<and> client_Unmarshal b = Inr ps \<longrightarrow>
        get_v1 jc route token w = (Inr ps, w')) \<and>
     (\<forall>route ps token w b w'. server ''POST'' route (auth_header token) (client_Marshal ps) w = (OK b, w') \<longrightarrow>
        post_v1 jc route ps token w = (Inr (), w'))"

text \<open>The calls of version 0, a failed one included.\<close>

definition sound_v0_channel :: "'w JsonClient \<Rightarrow> 'w server \<Rightarrow> bool" where
  "sound_v0_channel jc server \<longleftrightarrow> (\<forall>route ps token w res w'. post_v0 jc route ps token w = (res, w') \<longrightarrow>
     (let served = server ''POST'' route (auth_header token) (client_Marshal_v0 ps) w in
      if is_ok res then snd served = w' \<and> success (fst served) else w' = w \<or> snd served = w'))"

subsection \<open>Queries of the clients\<close>

definition plain_id :: "string \<Rightarrow> bool" where
  "plain_id g \<longleftrightarrow> list_all unreserved g"

lemma unreserved_not: "unreserved c \<Longrightarrow> c \<notin> {CHR ''%'', CHR ''+'', CHR ''&'', CHR '';'', CHR ''='', CHR ''?'', CHR ''#'', CHR '',''}"
  by (auto simp: unreserved_def alphanumeric_def char_in_ranges_def less_eq_char_def)

definition query_char :: "char \<Rightarrow> bool" where
  "query_char c \<longleftrightarrow> unreserved c \<or> c = CHR '',''"

lemma query_char_not: "query_char c \<Longrightarrow> c \<notin> {CHR ''%'', CHR ''+'', CHR ''&'', CHR '';'', CHR ''='', CHR ''?'', CHR ''#''}"
  using unreserved_not [of c] by (auto simp: query_char_def)

lemma join_query_chars: "list_all plain_id ids \<Longrightarrow> list_all query_char (join_with '','' ids)"
  by (induction "'',''" ids rule: join_with.induct) (auto simp: plain_id_def query_char_def list_all_iff)

lemma query_unescape_plain: "list_all query_char q \<Longrightarrow> query_unescape q = Some q"
proof (induction q)
  case (Cons c q)
  then show ?case using query_char_not [of c] by simp
qed simp

lemma split_by_none: "list_all (\<lambda>c. \<not> P c) s \<Longrightarrow> split_by P s = [s]"
  by (induction s) auto

lemma cut_at_none: "d \<notin> set s \<Longrightarrow> cut_at d s = (s, [])"
  by (induction s) (auto simp: cut_at_def)

lemma cut_at_first: "d \<notin> set s \<Longrightarrow> cut_at d (s @ d # t) = (s, t)"
  by (induction s) (auto simp: cut_at_def)

lemma ParseQuery_id:
  assumes "list_all query_char q"
  shows "ParseQuery (''id='' @ q) = [(''id'', [q])]"
proof -
  have q: "c \<notin> {CHR ''%'', CHR ''+'', CHR ''&'', CHR '';'', CHR ''='', CHR ''?'', CHR ''#''}" if "c \<in> set q" for c
    using assms that query_char_not by (auto simp: list_all_iff)
  have "split_by (\<lambda>c. c \<in> {CHR ''&'', CHR '';''}) (''id='' @ q) = [''id='' @ q]"
    by (rule split_by_none) (use q in \<open>auto simp: list_all_iff\<close>)
  moreover have "cut_at (CHR ''='') (''id'' @ CHR ''='' # q) = (''id'', q)" by (rule cut_at_first) simp
  moreover have "query_unescape ''id'' = Some ''id''" by simp
  ultimately show ?thesis using query_unescape_plain [OF assms] by (simp add: ParseQuery_def parse_pair_def)
qed

lemma cut_url_query:
  assumes "list_all query_char q" "CHR ''?'' \<notin> set path" "CHR ''#'' \<notin> set path"
  shows "cut_url (path @ ''?id='' @ q) = (path, ''id='' @ q)"
proof -
  have q: "CHR ''#'' \<notin> set q" using assms query_char_not by (auto simp: list_all_iff)
  have "cut_at (CHR ''#'') (path @ ''?id='' @ q) = (path @ ''?id='' @ q, [])"
    by (rule cut_at_none) (use assms(3) q in auto)
  moreover have "cut_at (CHR ''?'') (path @ CHR ''?'' # ''id='' @ q) = (path, ''id='' @ q)" by (rule cut_at_first) (rule assms(2))
  ultimately show ?thesis by (simp add: cut_url_def)
qed

lemma cut_url_plain: "CHR ''?'' \<notin> set path \<Longrightarrow> CHR ''#'' \<notin> set path \<Longrightarrow> cut_url path = (path, '''')"
  by (simp add: cut_url_def cut_at_none)

lemma ParseQuery_empty: "ParseQuery '''' = []"
  by (simp add: ParseQuery_def parse_pair_def)

text \<open>The clients put the ids into the URL as they are: an id that needs escaping arrives as another one.\<close>

lemma ids_not_escaped:
  "parseIds (ParseQuery (snd (cut_url (''/networking/v1/internal/policies?id='' @ join_with '','' [''a+b''])))) = [''a b'']"
  by code_simp

subsection \<open>What a cell is told\<close>

text \<open>The policy of a key, and a policy without its tags.\<close>

definition api_of_key :: "policy_key \<Rightarrow> api_Policy" where
  "api_of_key k = \<lparr>a_Source = \<lparr>a_src_ID = k_src k, a_src_Tag = ''''\<rparr>,
     a_Destination = \<lparr>a_dst_ID = k_dst k, a_dst_Tag = '''', a_Protocol = k_protocol k,
       a_Ports = \<lparr>a_Start = k_start k, a_End = k_end k\<rparr>\<rparr>\<rparr>"

definition untag :: "api_Policy \<Rightarrow> api_Policy" where
  "untag p = p\<lparr>a_Source := (a_Source p)\<lparr>a_src_Tag := ''''\<rparr>, a_Destination := (a_Destination p)\<lparr>a_dst_Tag := ''''\<rparr>\<rparr>"

definition endpoints :: "api_Policy list \<Rightarrow> (string \<times> string) set" where
  "endpoints ps = (\<Union>p \<in> set ps. {(a_src_ID (a_Source p), a_src_Tag (a_Source p)),
     (a_dst_ID (a_Destination p), a_dst_Tag (a_Destination p))})"

definition key_wire :: "policy_key \<Rightarrow> bool" where
  "key_wire k \<longleftrightarrow> wire_ok (api_of_key k)"

lemma untag_mapStorePolicy: "untag (mapStorePolicy p) = api_of_key (key_of p)"
  by (simp add: untag_def mapStorePolicy_def api_of_key_def key_of_def)

lemma format_hex_ascii: "list_all (\<lambda>c. byte c < 128) (format_hex w n)"
proof -
  have d: "byte (digit_char k) < 128" if "k < 16" for k using that by (simp add: byte_def digit_char_def)
  have "list_all (\<lambda>c. byte c < 128) (digits_base 16 m)" for m
  proof (induction m rule: less_induct)
    case (less m)
    show ?case using less [of "m div 16"] d by (subst digits_base.simps) simp
  qed
  moreover have "byte (CHR ''0'') < 128" "byte (CHR ''-'') < 128" by (simp_all add: byte_def)
  ultimately show ?thesis by (auto simp: format_hex_def pad_zero_def list_all_iff)
qed

lemma tag_ascii: "valid_utf8 (tagIntToString s i)"
  unfolding tagIntToString_def by (rule ascii_utf8 [OF format_hex_ascii])

lemma format_hex_injective: "format_hex w m = format_hex w n \<Longrightarrow> m = n"
proof -
  assume eq: "format_hex w m = format_hex w n"
  have dig: "digits_base 16 k \<noteq> [] \<and> CHR ''-'' \<notin> set (digits_base 16 k)" for k
  proof (induction k rule: less_induct)
    case (less k)
    have nd: "digit_char j \<noteq> CHR ''-''" if "j < 16" for j
      using that char_digit_digit_char [of j] by (auto simp: digit_char_def char_of_eq_iff take_bit_eq_mod)
    show ?case using less [of "k div 16"] nd [of k] nd [of "k mod 16"] by (subst (1 2) digits_base.simps) auto
  qed
  then have pad: "CHR ''-'' \<notin> set (pad_zero w (digits_base 16 k))" for w k by (simp add: pad_zero_def)
  have val: "value_base 16 (pad_zero w (digits_base 16 k)) = k" for w k by (simp add: value_base_digits)
  have sign: "(CHR ''-'' \<in> set (format_hex w k)) = (k < 0)" for k using pad by (simp add: format_hex_def)
  show "m = n"
  proof (cases "m < 0")
    case True
    with eq sign have "n < 0" by metis
    with True eq have "pad_zero (w - 1) (digits_base 16 (nat (- m))) = pad_zero (w - 1) (digits_base 16 (nat (- n)))"
      by (simp add: format_hex_def)
    then have "nat (- m) = nat (- n)" using val by metis
    with True \<open>n < 0\<close> show ?thesis by simp
  next
    case False
    with eq sign have "\<not> n < 0" by metis
    with False eq have "pad_zero w (digits_base 16 (nat m)) = pad_zero w (digits_base 16 (nat n))" by (simp add: format_hex_def)
    then have "nat m = nat n" using val by metis
    with False \<open>\<not> n < 0\<close> show ?thesis by simp
  qed
qed

lemma has_tag_unique:
  assumes "groups_ok (groups t)" "has_tag s t x a" "has_tag s t y b"
  shows "a = b \<longleftrightarrow> x = y"
proof -
  from assms(2,3) obtain i j where ij: "group_guid t i = Some x" "a = tagIntToString s i" "group_guid t j = Some y" "b = tagIntToString s j"
    by (auto simp: has_tag_def)
  then have "a = b \<longleftrightarrow> i = j" unfolding tagIntToString_def using format_hex_injective by blast
  also have "\<dots> \<longleftrightarrow> x = y" using ij group_guid_inj [OF assms(1)] by auto
  finally show ?thesis .
qed

text \<open>A listing of the policies \<open>K\<close>: each of them once, and tags that tell applications apart.\<close>

definition faithful_listing :: "policy_key set \<Rightarrow> api_Policy list \<Rightarrow> bool" where
  "faithful_listing K ps \<longleftrightarrow> set (map untag ps) = api_of_key ` K \<and> length ps = card K \<and>
     (\<forall>e \<in> endpoints ps. \<forall>e' \<in> endpoints ps. snd e = snd e' \<longleftrightarrow> fst e = fst e')"

lemma listed_faithful:
  assumes "groups_ok (groups t)" "lists_keys s t K ps"
  shows "faithful_listing K (map mapStorePolicy ps)"
proof -
  have "set (map untag (map mapStorePolicy ps)) = api_of_key ` K"
    using assms(2) by (auto simp: lists_keys_def untag_mapStorePolicy image_iff)
  moreover have "length ps = card K" using assms(2) distinct_card [of "map key_of ps"] by (simp add: lists_keys_def)
  moreover have "has_tag s t (fst e) (snd e)" if "e \<in> endpoints (map mapStorePolicy ps)" for e
    using that assms(2) by (auto simp: endpoints_def mapStorePolicy_def lists_keys_def list_all_iff well_tagged_def)
  then have "snd e = snd e' \<longleftrightarrow> fst e = fst e'"
    if "e \<in> endpoints (map mapStorePolicy ps)" "e' \<in> endpoints (map mapStorePolicy ps)" for e e'
    using that has_tag_unique [OF assms(1)] by blast
  ultimately show ?thesis by (simp add: faithful_listing_def)
qed

lemma listed_wire_ok:
  assumes "lists_keys s t K ps" "\<forall>k \<in> K. key_wire k"
  shows "list_all wire_ok (map mapStorePolicy ps)"
proof -
  have "wire_ok (mapStorePolicy p)" if "p \<in> set ps" for p
  proof -
    have "key_wire (key_of p)" "well_tagged s t p" using that assms by (auto simp: lists_keys_def list_all_iff)
    then show ?thesis using tag_ascii
      by (auto simp: key_wire_def wire_ok_def api_of_key_def key_of_def mapStorePolicy_def well_tagged_def has_tag_def)
  qed
  then show ?thesis by (simp add: list_all_iff)
qed

lemma AsBytes_arrives:
  assumes "list_all wire_ok (map mapStorePolicy ps)" 
  obtains b where "AsBytes Marshal_Policies ps = Inr b" "client_Unmarshal b = Inr (map mapStorePolicy ps)"
  by (rule listing_arrives [of "\<lparr>TotalPolicies = int (length (map mapStorePolicy ps)), Policies = map mapStorePolicy ps\<rparr>"])
    (use assms that in \<open>auto simp: AsBytes_def Let_def\<close>)

definition listed_keys :: "string list \<Rightarrow> policy_key set \<Rightarrow> policy_key set" where
  "listed_keys ids K = (if ids = [] then K else {k \<in> K. k_src k \<in> set ids \<or> k_dst k \<in> set ids})"

lemma internal_index_effect:
  assumes "PoliciesIndexInternal (metered_store st) mapper req w = (r, w')" "world_ok w"
  shows "world_ok w' \<and> world_policies w' = world_policies w \<and>
    (\<forall>b. r = OK b \<longrightarrow> (\<exists>ps. lists_keys st (tables (db w)) (listed_keys (parseIds (URLQuery req)) (world_policies w)) ps \<and>
       m_AsBytes mapper ps = Inr b)) \<and> (success r \<longrightarrow> reply_ok r)"
proof -
  let ?ids = "parseIds (URLQuery req)"
  obtain q w1 where q: "(if length ?ids = 0 then ds_All (metered_store st) w
      else ds_ByGuids (metered_store st) ?ids ?ids False w) = (q, w1)" by fastforce
  have rd: "world_ok w1 \<and> world_policies w1 = world_policies w \<and>
      (\<forall>ps. q = Inr ps \<longrightarrow> lists_keys st (tables (db w)) (listed_keys ?ids (world_policies w)) ps)"
  proof (cases "?ids = []")
    case True
    have m: "metered ''StoreAll'' (Policy_Store.All st) w = (q, w1)" using q True by (simp add: metered_store_simps)
    from metered_read [OF m assms(2)] All_conn
    have "world_ok w1 \<and> world_policies w1 = world_policies w \<and> Policy_Store.All st (db w) = (q, db w1)" by blast
    then show ?thesis using All_Inr [of "db w" st _ "db w1"] assms(2) True
      by (auto simp: listed_keys_def world_ok_def world_policies_def)
  next
    case False
    have m: "metered ''StoreByGuids'' (ByGuids st ?ids ?ids False) w = (q, w1)" using q False by (simp add: metered_store_simps)
    from metered_read [OF m assms(2)] ByGuids_conn
    have "world_ok w1 \<and> world_policies w1 = world_policies w \<and> ByGuids st ?ids ?ids False (db w) = (q, db w1)" by blast
    then show ?thesis using ByGuids_Inr [of "db w" st ?ids ?ids False _ "db w1"] assms(2) False
      by (auto simp: listed_keys_def world_ok_def world_policies_def guids_select_def)
  qed
  show ?thesis using assms(1) rd q unfolding PoliciesIndexInternal_def Let_def
    by (auto simp: success_def split: sum.splits)
qed

lemma internal_api_request:
  assumes "routes_clients rt" "cut_url url = (''/networking/v1/internal/policies'', query)"
  shows "\<exists>req. URLQuery req = ParseQuery query \<and>
    internal_api rt st m0 ''GET'' url auth body w = PoliciesIndexInternal (metered_store st) mapper_v1 req w"
  using assms
  by (intro exI [of _ "\<lparr>Method = ''GET'', URLPath = ''/networking/v1/internal/policies'', Authorization = auth, Origin = [],
      URLQuery = ParseQuery query, Body = Inr body, VersionParam = ''v1'', TokenData = None\<rparr>"])
    (simp add: internal_api_def http_server_def routes_clients_def internalHandlers_def versionWrap_cases)

lemma listing_reply:
  assumes "routes_clients rt" "world_ok w" "\<forall>k \<in> world_policies w. key_wire k"
    and "cut_url url = (''/networking/v1/internal/policies'', query)" "parseIds (ParseQuery query) = ids"
    and "internal_api rt st m0 ''GET'' url auth body w = (r, w')" "success r" "client_Unmarshal (reply_body r) = Inr ps"
  shows "faithful_listing (listed_keys ids (world_policies w)) ps \<and> world_ok w' \<and> world_policies w' = world_policies w"
proof -
  obtain req where req: "URLQuery req = ParseQuery query"
    "PoliciesIndexInternal (metered_store st) mapper_v1 req w = (r, w')"
    using internal_api_request [OF assms(1,4)] assms(6) by metis
  let ?K = "listed_keys ids (world_policies w)"
  from internal_index_effect [OF req(2) assms(2)] req(1) assms(5,7) obtain b qs
    where eff: "world_ok w'" "world_policies w' = world_policies w" and qs: "lists_keys st (tables (db w)) ?K qs"
      "m_AsBytes mapper_v1 qs = Inr b" and r: "r = OK b" by (auto simp: reply_ok_def)
  have "list_all wire_ok (map mapStorePolicy qs)"
    by (rule listed_wire_ok [OF qs(1)]) (use assms(3) in \<open>auto simp: listed_keys_def split: if_splits\<close>)
  then obtain b' where "AsBytes Marshal_Policies qs = Inr b'" "client_Unmarshal b' = Inr (map mapStorePolicy qs)"
    by (rule AsBytes_arrives)
  with qs(2) r assms(8) have "ps = map mapStorePolicy qs" by (simp add: mapper_v1_def reply_body_def)
  moreover have "groups_ok (groups (tables (db w)))" using assms(2) by (simp add: world_ok_def conn_ok_def tables_ok_def)
  ultimately show ?thesis using eff listed_faithful [OF _ qs(1)] by simp
qed

lemma parseIds_join:
  assumes "ids \<noteq> []" "list_all plain_id ids"
  shows "parseIds (ParseQuery (''id='' @ join_with '','' ids)) = ids"
proof -
  have "\<forall>g \<in> set ids. CHR '','' \<notin> set g" using assms(2) unreserved_not by (fastforce simp: plain_id_def list_all_iff)
  then have "split_on (CHR '','') (join_with '','' ids) = ids" using split_join [OF assms(1)] by blast
  then show ?thesis using ParseQuery_id [OF join_query_chars [OF assms(2)]] by (simp add: parseIds_def parse_list_def)
qed

text \<open>C10. A cell that asks for the policies of some applications is told exactly the stored policies that have
  one of them as source or destination, each once, with tags that are equal exactly for equal
  applications; asking changes no policy.\<close>

theorem cells_see_policies:
  assumes "routes_clients rt" "sound_channel jc (internal_api rt st m0)"
    and "world_ok w" "\<forall>k \<in> world_policies w. key_wire k" "list_all plain_id ids"
    and "int_GetPoliciesByID jc ids w = (Inr ps, w')"
  shows "faithful_listing {k \<in> world_policies w. k_src k \<in> set ids \<or> k_dst k \<in> set ids} ps \<and>
    world_ok w' \<and> world_policies w' = world_policies w"
proof -
  let ?url = "''/networking/v1/internal/policies?id='' @ join_with '','' ids"
  have ids: "ids \<noteq> []" and get: "get_v1 jc ?url '''' w = (Inr ps, w')"
    using assms(6) by (auto simp: int_GetPoliciesByID_def split: if_splits)
  from get assms(2) obtain r where r: "internal_api rt st m0 ''GET'' ?url (auth_header '''') '''' w = (r, w')" "success r"
    "client_Unmarshal (reply_body r) = Inr ps" unfolding sound_channel_def by blast
  have cut: "cut_url ?url = (''/networking/v1/internal/policies'', ''id='' @ join_with '','' ids)"
    using cut_url_query [OF join_query_chars [OF assms(5)], of "''/networking/v1/internal/policies''"] by simp
  show ?thesis
    using listing_reply [OF assms(1,3,4) cut parseIds_join [OF ids assms(5)] r] ids by (simp add: listed_keys_def)
qed

subsection \<open>From a change to the cells\<close>

lemma external_api_request:
  assumes "routes_clients rt" "cut_url url = (path, query)"
    "(path, v, h) \<in> {(''/networking/v1/external/policies'', ''v1'', create_handler env (metered_store st)),
       (''/networking/v0/external/policies'', ''v0'', create_handler env (metered_store st)),
       (''/networking/v1/external/policies/delete'', ''v1'', delete_handler env (metered_store st))}"
    "external_api rt env st ''POST'' url auth body w = (r, w')"
  obtains req where "Body req = Inr body" "VersionParam req = v" "Authorization req = auth"
    "protected env (write_auth env) h req w = (r, w')"
proof -
  let ?req = "\<lparr>Method = ''POST'', URLPath = path, Authorization = auth, Origin = [],
      URLQuery = ParseQuery query, Body = Inr body, VersionParam = v, TokenData = None\<rparr>"
  have "protected env (write_auth env) h ?req w = (r, w')"
    using assms
    by (auto simp: external_api_def http_server_def routes_clients_def Let_def serve_external_protected cors_Wrap_def
        split: prod.splits)
  then show thesis by (intro that [of ?req]) simp_all
qed

lemma handler_success:
  "PoliciesCreate errText ds mapper pg qg req s = (r, s') \<Longrightarrow> success r \<Longrightarrow> reply_ok r"
  "PoliciesDelete errText ds mapper pg req s = (r, s') \<Longrightarrow> success r \<Longrightarrow> reply_ok r"
  by (auto simp: PoliciesCreate_def PoliciesDelete_def Let_def success_def split: sum.splits prod.splits if_splits)

lemma mapper_v1_request:
  assumes "list_all wire_ok ps" "m_AsStorePolicy mapper_v1 (client_Marshal ps) = Inr qs"
  shows "qs = map asStorePolicy ps \<and> list_all valid_policy ps"
  using assms(2) request_roundtrip [OF assms(1)] by (auto simp: mapper_v1_def elim!: AsStorePolicy_ok)

lemma mapper_v1_accepts:
  assumes "list_all wire_ok ps" "ps \<noteq> []" "list_all valid_policy ps"
  shows "m_AsStorePolicy mapper_v1 (client_Marshal ps) = Inr (map asStorePolicy ps)"
  using request_roundtrip [OF assms(1)] ValidatePolicies_iff [of ps] assms(2,3) by (simp add: mapper_v1_def AsStorePolicy_def)

lemma create_outcome:
  assumes "protected env (write_auth env) (create_handler env (metered_store st)) req w = (r, w')" "world_ok w" "Body req = Inr b"
  shows "world_ok w' \<and> (if success r
    then \<exists>qs. m_AsStorePolicy (mapper_for env (VersionParam req)) b = Inr qs \<and> world_policies w' = world_policies w \<union> key_of ` set qs
    else world_policies w' = world_policies w)"
  using assms(1)
proof (cases rule: protected_cases)
  case (served t)
  let ?req = "req\<lparr>Body := limit_body (Body req), TokenData := Some t\<rparr>"
  have "success r \<longleftrightarrow> reply_ok r"
    using handler_success(1) [OF served(3) [unfolded create_handler_def]] by (auto simp: reply_ok_def success_def)
  moreover have "b' = b" if "Body ?req = Inr b'" for b' using that assms(3) limit_body_Inr [of "Body req" b'] by simp
  ultimately show ?thesis
    using metered.PoliciesCreate_effect [OF assms(2) served(3) [unfolded create_handler_def]] by auto
qed (use assms(2) in \<open>auto simp: success_def\<close>)

lemma create_acknowledged:
  assumes "protected env (write_auth env) (create_handler env (metered_store st)) req w = (r, w')" "success r" "world_ok w"
    and "Body req = Inr (client_Marshal ps)" "VersionParam req = ''v1''" "env_mapper1 env = mapper_v1" "list_all wire_ok ps"
  shows "world_ok w' \<and> world_policies w' = world_policies w \<union> (\<lambda>p. key_of (asStorePolicy p)) ` set ps \<and> list_all valid_policy ps"
  using create_outcome [OF assms(1,3,4)] assms(2,5,6) mapper_v1_request [OF assms(7)]
  by (auto simp: mapper_for_def image_image)

lemma delete_acknowledged:
  assumes "protected env (write_auth env) (delete_handler env (metered_store st)) req w = (r, w')" "success r" "world_ok w"
    and "Body req = Inr (client_Marshal ps)" "VersionParam req = ''v1''" "env_mapper1 env = mapper_v1" "list_all wire_ok ps"
  shows "world_ok w' \<and> world_policies w' = world_policies w - (\<lambda>p. key_of (asStorePolicy p)) ` set ps \<and> list_all valid_policy ps"
  using assms(1)
proof (cases rule: protected_cases)
  case (served t)
  let ?req = "req\<lparr>Body := limit_body (Body req), TokenData := Some t\<rparr>"
  have "reply_ok r" by (rule handler_success(2) [OF served(3) [unfolded delete_handler_def] assms(2)])
  with metered.PoliciesDelete_effect [OF assms(3) served(3) [unfolded delete_handler_def]]
  obtain b qs where "Body ?req = Inr b" "m_AsStorePolicy (mapper_for env (VersionParam req)) b = Inr qs"
    "world_ok w'" "world_policies w' = world_policies w - key_of ` set qs" by auto
  moreover from this have "m_AsStorePolicy mapper_v1 (client_Marshal ps) = Inr qs"
    using assms(4-6) by (auto simp: mapper_for_def dest: limit_body_Inr)
  ultimately show ?thesis using mapper_v1_request [OF assms(7)] by (auto simp: image_image)
qed (use assms(2) in \<open>auto simp: success_def\<close>)

lemma valid_api_of_key: "valid_policy p \<Longrightarrow> api_of_key (key_of (asStorePolicy p)) = p"
  by (simp add: api_of_key_def key_of_def asStorePolicy_def valid_policy_def Let_def)

lemma full_listing:
  assumes "routes_clients rt" "sound_channel jc (internal_api rt st m0)"
    and "world_ok w" "\<forall>k \<in> world_policies w. key_wire k" "int_GetPolicies jc w = (Inr ps, w')"
  shows "faithful_listing (world_policies w) ps \<and> world_ok w' \<and> world_policies w' = world_policies w"
proof -
  let ?url = "''/networking/v1/internal/policies''"
  from assms(5) have "get_v1 jc ?url '''' w = (Inr ps, w')" by (simp add: int_GetPolicies_def)
  with assms(2) obtain r where r: "internal_api rt st m0 ''GET'' ?url (auth_header '''') '''' w = (r, w')" "success r"
    "client_Unmarshal (reply_body r) = Inr ps" unfolding sound_channel_def by blast
  have "cut_url ?url = (?url, '''')" by (rule cut_url_plain) simp_all
  from listing_reply [OF assms(1,3,4) this _ r] show ?thesis by (simp add: ParseQuery_empty parseIds_def parse_list_def listed_keys_def)
qed

lemma api_of_added:
  "list_all valid_policy ps \<Longrightarrow> api_of_key ` (\<lambda>p. key_of (asStorePolicy p)) ` set ps = set ps"
  using valid_api_of_key by (force simp: list_all_iff image_image)

lemma added_wire:
  assumes "list_all valid_policy ps" "list_all wire_ok ps"
  shows "\<forall>k \<in> (\<lambda>p. key_of (asStorePolicy p)) ` set ps. key_wire k"
  using assms valid_api_of_key by (auto simp: key_wire_def list_all_iff)

lemma added_listing:
  assumes "routes_clients rt" "env_mapper1 env = mapper_v1"
    and "sound_channel (jsonClient c) (external_api rt env st)" "sound_channel jc (internal_api rt st m0)"
    and "world_ok w" "\<forall>k \<in> world_policies w. key_wire k" "list_all wire_ok ps"
    and "AddPolicies c token ps w = (Inr u, w1)" "int_GetPolicies jc w1 = (Inr qs, w2)"
  shows "faithful_listing (world_policies w1) qs \<and> set (map untag qs) = api_of_key ` world_policies w \<union> set ps"
proof -
  let ?url = "''/networking/v1/external/policies''"
  from assms(8) have "post_v1 (jsonClient c) ?url ps token w = (Inr u, w1)"
    by (auto simp: AddPolicies_def with_http_error_def split: prod.splits sum.splits)
  with assms(3) obtain r where r: "external_api rt env st ''POST'' ?url (auth_header token) (client_Marshal ps) w = (r, w1)" "success r"
    unfolding sound_channel_def by blast
  have "cut_url ?url = (?url, '''')" by (rule cut_url_plain) simp_all
  from external_api_request [OF assms(1) this _ r(1)] obtain req where "Body req = Inr (client_Marshal ps)" "VersionParam req = ''v1''"
    "protected env (write_auth env) (create_handler env (metered_store st)) req w = (r, w1)" by blast
  from create_acknowledged [OF this(3) r(2) assms(5) this(1,2) assms(2,7)]
  have eff: "world_ok w1" "world_policies w1 = world_policies w \<union> (\<lambda>p. key_of (asStorePolicy p)) ` set ps" "list_all valid_policy ps"
    by auto
  have "\<forall>k \<in> world_policies w1. key_wire k" using eff(2) added_wire [OF eff(3) assms(7)] assms(6) by auto
  with full_listing [OF assms(1,4) eff(1) _ assms(9)] have "faithful_listing (world_policies w1) qs" by blast
  then show ?thesis using eff(2) api_of_added [OF eff(3)] by (simp add: faithful_listing_def image_Un)
qed

text \<open>C8. When the external client reports that policies were added, a cell that lists the policies afterwards
  is told exactly the policies that were there before and the added ones, each with the tags of its
  applications.\<close>

theorem added_policies_reach_cells:
  assumes "routes_clients rt" "env_mapper1 env = mapper_v1"
    and "sound_channel (jsonClient c) (external_api rt env st)" "sound_channel jc (internal_api rt st m0)"
    and "world_ok w" "\<forall>k \<in> world_policies w. key_wire k" "list_all wire_ok ps"
    and "AddPolicies c token ps w = (Inr u, w1)" "int_GetPolicies jc w1 = (Inr qs, w2)"
  shows "faithful_listing (world_policies w1) qs \<and> set (map untag qs) = api_of_key ` world_policies w \<union> set ps"
  using assms by (rule added_listing)

text \<open>Version 0: the policies travel in batches.\<close>

definition as_v1 :: "v0_Policy \<Rightarrow> api_Policy" where
  "as_v1 p = mapStorePolicy (v0_asStorePolicy p)"

lemma v0_api_of_key: "v0_valid_policy p \<Longrightarrow> api_of_key (key_of (v0_asStorePolicy p)) = as_v1 p"
  by (simp add: api_of_key_def key_of_def v0_asStorePolicy_def as_v1_def mapStorePolicy_def v0_valid_policy_def)

lemma v0_wire_as_v1: "v0_wire_ok p \<Longrightarrow> wire_ok (as_v1 p)"
  by (simp add: v0_wire_ok_def wire_ok_def as_v1_def mapStorePolicy_def v0_asStorePolicy_def)

lemma mapper_v0_request:
  assumes "list_all v0_wire_ok ps" "m_AsStorePolicy mapper_v0 (client_Marshal_v0 ps) = Inr qs"
  shows "qs = map v0_asStorePolicy ps \<and> list_all v0_valid_policy ps"
  using assms(2) v0_request_roundtrip [OF assms(1)] by (auto simp: mapper_v0_def elim!: v0_AsStorePolicy_ok)

lemma v0_batch_outcome:
  assumes "routes_clients rt" "env_mapper0 env = mapper_v0" "sound_v0_channel (jsonClient c) (external_api rt env st)"
    and "world_ok w" "list_all v0_wire_ok ps" "post_v0 (jsonClient c) ''/networking/v0/external/policies'' ps token w = (res, w')"
  shows "world_ok w' \<and> (world_policies w' = world_policies w \<and> \<not> is_ok res \<or>
    world_policies w' = world_policies w \<union> (\<lambda>p. key_of (v0_asStorePolicy p)) ` set ps \<and> list_all v0_valid_policy ps)"
proof -
  let ?url = "''/networking/v0/external/policies''"
  obtain r w1 where served: "external_api rt env st ''POST'' ?url (auth_header token) (client_Marshal_v0 ps) w = (r, w1)" by fastforce
  have cut: "cut_url ?url = (?url, '''')" by (rule cut_url_plain) simp_all
  from external_api_request [OF assms(1) cut _ served] obtain req where req: "Body req = Inr (client_Marshal_v0 ps)" "VersionParam req = ''v0''"
    "protected env (write_auth env) (create_handler env (metered_store st)) req w = (r, w1)" by blast
  have w1: "world_ok w1" "if success r then world_policies w1 = world_policies w \<union> (\<lambda>p. key_of (v0_asStorePolicy p)) ` set ps \<and>
      list_all v0_valid_policy ps else world_policies w1 = world_policies w"
    using create_outcome [OF req(3) assms(4) req(1)] req(2) assms(2) mapper_v0_request [OF assms(5)]
    by (auto simp: mapper_for_def image_image split: if_splits)
  have "if is_ok res then w1 = w' \<and> success r else w' = w \<or> w1 = w'"
    using assms(3,6) served unfolding sound_v0_channel_def Let_def by (metis fst_conv snd_conv)
  then show ?thesis using w1 assms(4) by (auto split: if_splits)
qed

lemma v0_batches_outcome:
  assumes "routes_clients rt" "env_mapper0 env = mapper_v0" "sound_v0_channel (jsonClient c) (external_api rt env st)"
  shows "world_ok w \<Longrightarrow> list_all (list_all v0_wire_ok) chunks \<Longrightarrow>
    post_chunks c ''/networking/v0/external/policies'' token chunks w = (res, w') \<Longrightarrow>
    world_ok w' \<and> (\<exists>sent unsent. sent @ unsent = chunks \<and> (is_ok res \<longrightarrow> unsent = []) \<and> list_all v0_valid_policy (concat sent) \<and>
      world_policies w' = world_policies w \<union> (\<lambda>p. key_of (v0_asStorePolicy p)) ` set (concat sent))"
proof (induction chunks arbitrary: w)
  case (Cons chunk chunks)
  obtain q w1 where q: "post_v0 (jsonClient c) ''/networking/v0/external/policies'' chunk token w = (q, w1)" by fastforce
  have ok: "list_all v0_wire_ok chunk" "list_all (list_all v0_wire_ok) chunks" using Cons.prems(2) by simp_all
  note one = v0_batch_outcome [OF assms Cons.prems(1) ok(1) q]
  show ?case
  proof (cases q)
    case (Inl e)
    then have res: "w' = w1" "\<not> is_ok res" using Cons.prems(3) q by (auto simp: with_http_error_def)
    from one consider "world_policies w1 = world_policies w"
      | "world_policies w1 = world_policies w \<union> (\<lambda>p. key_of (v0_asStorePolicy p)) ` set chunk" "list_all v0_valid_policy chunk" by blast
    then show ?thesis
    proof cases
      case 1
      with one res show ?thesis by (intro conjI exI [of _ "[]"] exI [of _ "chunk # chunks"]) auto
    next
      case 2
      with one res show ?thesis by (intro conjI exI [of _ "[chunk]"] exI [of _ chunks]) auto
    qed
  next
    case (Inr u)
    then have "post_chunks c ''/networking/v0/external/policies'' token chunks w1 = (res, w')"
      using Cons.prems(3) q by (simp add: with_http_error_def)
    from Cons.IH [OF _ ok(2) this] one Inr obtain sent unsent where "world_ok w'" "sent @ unsent = chunks" "is_ok res \<longrightarrow> unsent = []"
      "list_all v0_valid_policy (concat sent)"
      "world_policies w' = world_policies w1 \<union> (\<lambda>p. key_of (v0_asStorePolicy p)) ` set (concat sent)" by auto
    with one Inr show ?thesis by (intro conjI exI [of _ "chunk # sent"] exI [of _ unsent]) auto
  qed
qed auto

text \<open>C17. The version-0 client sends policies in batches: after its call, successful or not, a cell is told the
  policies that were there before and those of the first batches; when the call succeeds these are all
  the policies. Nothing else changes, even if the answer to a batch that was served is lost.\<close>

theorem v0_policies_reach_cells:
  assumes "routes_clients rt" "env_mapper0 env = mapper_v0"
    and "sound_v0_channel (jsonClient c) (external_api rt env st)" "sound_channel jc (internal_api rt st m0)"
    and "world_ok w" "\<forall>k \<in> world_policies w. key_wire k" "list_all v0_wire_ok ps"
    and "AddPoliciesV0 c token ps w = (res, w1)" "int_GetPolicies jc w1 = (Inr qs, w2)"
  shows "\<exists>sent unsent. sent @ unsent = ps \<and> (is_ok res \<longrightarrow> unsent = []) \<and>
    set (map untag qs) = api_of_key ` world_policies w \<union> as_v1 ` set sent"
proof -
  let ?chunks = "Chunk (chunkSize c) ps"
  have "list_all v0_wire_ok (concat ?chunks)" using assms(7) by (simp add: Chunk_concat)
  then have "list_all (list_all v0_wire_ok) ?chunks" by (auto simp: list_all_iff)
  from v0_batches_outcome [OF assms(1-3,5) this assms(8) [unfolded AddPoliciesV0_def]]
  obtain sent unsent where w1: "world_ok w1" and s: "sent @ unsent = ?chunks" "is_ok res \<longrightarrow> unsent = []"
    and valid: "list_all v0_valid_policy (concat sent)"
    and K: "world_policies w1 = world_policies w \<union> (\<lambda>p. key_of (v0_asStorePolicy p)) ` set (concat sent)" by blast
  have ps: "concat sent @ concat unsent = ps" using s(1) Chunk_concat [of "chunkSize c" ps] by (metis concat_append)
  then have wok: "list_all v0_wire_ok (concat sent)" using assms(7) by (auto simp: list_all_iff)
  have "key_wire (key_of (v0_asStorePolicy p))" if "p \<in> set (concat sent)" for p
  proof -
    have "v0_wire_ok p" "v0_valid_policy p" using that wok valid by (auto simp: list_all_iff)
    then show ?thesis using v0_wire_as_v1 v0_api_of_key by (simp add: key_wire_def)
  qed
  then have "\<forall>k \<in> world_policies w1. key_wire k" unfolding K using assms(6) by blast
  from full_listing
    [OF assms(1,4) w1 this assms(9)] have "set (map untag qs) = api_of_key ` world_policies w1"
    by (simp add: faithful_listing_def)
  also have "\<dots> = api_of_key ` world_policies w \<union> as_v1 ` set (concat sent)"
  proof -
    have "api_of_key (key_of (v0_asStorePolicy p)) = as_v1 p" if "p \<in> set (concat sent)" for p
      by (rule v0_api_of_key) (use that valid in \<open>auto simp: list_all_iff\<close>)
    then have "(\<lambda>p. api_of_key (key_of (v0_asStorePolicy p))) ` set (concat sent) = as_v1 ` set (concat sent)" by (rule image_cong [OF refl])
    then show ?thesis unfolding K image_Un image_image by (simp only:)
  qed
  finally show ?thesis using ps s(2) by (intro exI [of _ "concat sent"] exI [of _ "concat unsent"]) auto
qed

lemma api_of_key_inj: "inj_on api_of_key {k. k_port k = port_of (k_start k) (k_end k)}"
  by (rule inj_onI) (auto simp: api_of_key_def)

text \<open>C9. When the external client reports that policies were deleted, a cell that lists the policies afterwards
  is told exactly the policies that were there before, without the deleted ones. The single port that
  the tables hold beside a range has to follow from the range, as it does for all rows that the
  API writes.\<close>

theorem deleted_policies_leave_cells:
  assumes "routes_clients rt" "env_mapper1 env = mapper_v1"
    and "sound_channel (jsonClient c) (external_api rt env st)" "sound_channel jc (internal_api rt st m0)"
    and "world_ok w" "\<forall>k \<in> world_policies w. key_wire k \<and> k_port k = port_of (k_start k) (k_end k)" "list_all wire_ok ps"
    and "DeletePolicies c token ps w = (Inr u, w1)" "int_GetPolicies jc w1 = (Inr qs, w2)"
  shows "faithful_listing (world_policies w1) qs \<and> set (map untag qs) = api_of_key ` world_policies w - set ps"
proof -
  let ?url = "''/networking/v1/external/policies/delete''" and ?D = "(\<lambda>p. key_of (asStorePolicy p)) ` set ps"
  from assms(8) have "post_v1 (jsonClient c) ?url ps token w = (Inr u, w1)"
    by (auto simp: DeletePolicies_def with_http_error_def split: prod.splits sum.splits)
  with assms(3) obtain r where r: "external_api rt env st ''POST'' ?url (auth_header token) (client_Marshal ps) w = (r, w1)" "success r"
    unfolding sound_channel_def by blast
  have "cut_url ?url = (?url, '''')" by (rule cut_url_plain) simp_all
  from external_api_request [OF assms(1) this _ r(1)] obtain req where "Body req = Inr (client_Marshal ps)" "VersionParam req = ''v1''"
    "protected env (write_auth env) (delete_handler env (metered_store st)) req w = (r, w1)" by blast
  from delete_acknowledged [OF this(3) r(2) assms(5) this(1,2) assms(2,7)]
  have eff: "world_ok w1" "world_policies w1 = world_policies w - ?D" "list_all valid_policy ps" by auto
  with assms(6) full_listing [OF assms(1,4) eff(1) _ assms(9)] have "faithful_listing (world_policies w1) qs" by auto
  moreover have "api_of_key ` (world_policies w - ?D) = api_of_key ` world_policies w - api_of_key ` ?D"
    by (rule inj_on_image_set_diff [OF api_of_key_inj]) (use assms(6) in
      \<open>auto simp: key_of_def asStorePolicy_def port_of_def Let_def\<close>)
  ultimately show ?thesis using eff(2) api_of_added [OF eff(3)] by (simp add: faithful_listing_def)
qed

subsection \<open>A change arrives\<close>

definition quota_left :: "int \<Rightarrow> policy_key set \<Rightarrow> Policy list \<Rightarrow> bool" where
  "quota_left mx K ps \<longleftrightarrow> (\<forall>g \<in> (\<Union>p \<in> set ps. guids_of p).
     int (card {k \<in> K. k_src k = g}) + int (length (filter (\<lambda>p. src_ID (pol_Source p) = g) ps)) \<le> mx)"

lemma QuotaGuard_ready:
  assumes "world_ok w" "no_faults (db w)" "driver st = ''mysql'' \<or> driver st = ''postgres''" "is_range rng"
    and "''network.admin'' \<in> set (Scope t) \<or> quota_left mx (world_policies w) ps"
  shows "\<exists>w'. QuotaGuard_CheckAccess rng (metered_store st) mx ps t w = (Inr True, w') \<and> same_state (db w) (db w')"
proof (cases "''network.admin'' \<in> set (Scope t)")
  case True
  then show ?thesis by (simp add: QuotaGuard_CheckAccess_def same_state_def)
next
  case False
  let ?gs = "uniqueAppGUIDs rng ps"
  have "conn_ok (db w)" using assms(1) by (simp add: world_ok_def)
  from this assms(2,3) obtain cur c' where cur: "ByGuids st ?gs [] False (db w) = (Inr cur, c')" "same_state (db w) c'"
    by (rule ByGuids_selects [of "db w" st ?gs "[]" False])
  then obtain w' where run: "ds_ByGuids (metered_store st) ?gs [] False w = (Inr cur, w')" and w': "db w' = c'"
    by (simp add: metered_store_simps metered_def)
  have rep: "represents (guids_query ?gs [] False (world_policies w)) cur" using metered.by_guids [OF assms(1) run] by blast
  have count: "int (length (filter (\<lambda>p. src_ID (pol_Source p) = g) cur)) = int (card {k \<in> world_policies w. k_src k = g})"
    if "g \<in> set ?gs" for g
  proof -
    have "{k \<in> guids_query ?gs [] False (world_policies w). k_src k = g} = {k \<in> world_policies w. k_src k = g}"
      using that by (auto simp: guids_query_def guids_select_def)
    then show ?thesis using metered.represents_count [OF rep, of g] by simp
  qed
  have "within_quota mx (sourceCounts cur ?gs) (sourceCounts ps ?gs) ?gs"
    using assms(5) False count set_uniqueAppGUIDs [OF assms(4), of ps]
    by (auto simp: within_quota_iff sourceCounts_eq quota_left_def)
  then show ?thesis using run cur(2) w' False by (auto simp: QuotaGuard_CheckAccess_def Let_def)
qed

text \<open>Who may send the request, and the size of its body.\<close>

definition may_write :: "environment \<Rightarrow> string \<Rightarrow> CheckTokenResponse \<Rightarrow> bool" where
  "may_write env token t \<longleftrightarrow> token \<noteq> '''' \<and> uaa_CheckToken (env_uaa env) (bearer_token token) = Inr t \<and>
     (EnableSpaceDeveloperSelfService env \<or> set (Scope t) \<inter> {''network.admin'', ''network.write''} \<noteq> {})"

lemma may_write_admitted:
  "may_write env token t \<Longrightarrow> Authorization req = auth_header token \<Longrightarrow> admitted (write_auth env) req = Some t"
  by (auto simp: may_write_def auth_header_def admitted_def write_auth_def)

lemma create_ready_general:
  assumes w: "world_ok w" "no_faults (db w)" "ports_consistent (tables (db w))" "driver st = ''mysql'' \<or> driver st = ''postgres''"
    and qs: "m_AsStorePolicy (mapper_for env (VersionParam req)) b = Inr qs" "list_all port_consistent qs" "length b \<le> MAX_REQ_BODY_SIZE"
    and user: "may_write env token t" "PolicyGuard_CheckAccess (env_rng env) (env_cc env) (env_uaa env) qs t = Inr True"
    and quota: "is_range (env_rng env)" "''network.admin'' \<in> set (Scope t) \<or> quota_left (MaxPolicies env) (world_policies w) qs"
    and tags: "enough_tags (\<Union> (guids_of ` set qs)) (tables (db w))"
    and req: "Body req = Inr b" "VersionParam req \<in> {''v1'', ''v0''}" "Authorization req = auth_header token"
  shows "\<exists>b' w'. protected env (write_auth env) (create_handler env (metered_store st)) req w = (OK b', w') \<and> no_faults (db w')"
proof -
  obtain w0 where q: "QuotaGuard_CheckAccess (env_rng env) (metered_store st) (MaxPolicies env) qs t w = (Inr True, w0)"
    and same: "same_state (db w) (db w0)" using QuotaGuard_ready [OF w(1,2,4) quota] by blast
  have "conn_ok (db w0)" "no_faults (db w0)" "saved (db w0) = None" "tables (db w0) = tables (db w)"
    using same w(1,2) by (auto simp: same_state_def world_ok_def conn_ok_def)
  then obtain c where c: "Create qs (db w0) = (Inr (), c)" "no_faults c"
    using Create_ready [of "db w0" qs] w(3) tags qs(2) by auto
  then obtain w' where cr: "ds_Create (metered_store st) qs w0 = (Inr (), w')" "db w' = c"
    by (simp add: metered_store_simps metered_def)
  let ?req = "req\<lparr>Body := limit_body (Body req), TokenData := Some t\<rparr>"
  have "limit_body (Body req) = Inr b" using req(1) qs(3) by (simp add: limit_body_def)
  then have "create_handler env (metered_store st) (mapper_for env (VersionParam req)) ?req w = (OK ''{}'', w')"
    using qs(1) user(2) q cr by (simp add: create_handler_def PoliciesCreate_def getTokenData_def)
  moreover have "protected env (write_auth env) (create_handler env (metered_store st)) req w =
      create_handler env (metered_store st) (mapper_for env (VersionParam req)) ?req w"
    using auth_Wrap_admitted [OF may_write_admitted [OF user(1) req(3)]] req(2)
    by (auto simp: protected_def versionWrap_cases mapper_for_def)
  ultimately show ?thesis using c(2) cr(2) by simp
qed

lemma create_ready_reply:
  assumes w: "world_ok w" "no_faults (db w)" "ports_consistent (tables (db w))" "driver st = ''mysql'' \<or> driver st = ''postgres''"
    and ps: "list_all wire_ok ps" "ps \<noteq> []" "list_all valid_policy ps" "length (client_Marshal ps) \<le> MAX_REQ_BODY_SIZE"
    and user: "may_write env token t" "PolicyGuard_CheckAccess (env_rng env) (env_cc env) (env_uaa env) (map asStorePolicy ps) t = Inr True"
    and quota: "is_range (env_rng env)" "''network.admin'' \<in> set (Scope t) \<or> quota_left (MaxPolicies env) (world_policies w) (map asStorePolicy ps)"
    and tags: "enough_tags (\<Union> (guids_of ` set (map asStorePolicy ps))) (tables (db w))"
    and req: "Body req = Inr (client_Marshal ps)" "VersionParam req = ''v1''" "Authorization req = auth_header token"
    and env: "env_mapper1 env = mapper_v1"
  shows "\<exists>b w'. protected env (write_auth env) (create_handler env (metered_store st)) req w = (OK b, w') \<and> no_faults (db w')"
  by (rule create_ready_general [OF w _ _ ps(4) user quota tags req(1) _ req(3)])
    (simp_all add: req(2) env mapper_for_def mapper_v1_accepts [OF ps(1-3)] list_all_iff asStorePolicy_consistent)

lemma internal_index_ready:
  assumes "world_ok w" "no_faults (db w)" "driver st = ''mysql'' \<or> driver st = ''postgres''" "\<forall>k \<in> world_policies w. key_wire k"
  obtains b ps w' where "PoliciesIndexInternal (metered_store st) mapper_v1 req w = (OK b, w')" "client_Unmarshal b = Inr ps"
proof -
  let ?ids = "parseIds (URLQuery req)"
  have conn: "conn_ok (db w)" using assms(1) by (simp add: world_ok_def)
  obtain qs w' where run: "(if length ?ids = 0 then ds_All (metered_store st) w
      else ds_ByGuids (metered_store st) ?ids ?ids False w) = (Inr qs, w')"
    and K: "lists_keys st (tables (db w)) (listed_keys ?ids (world_policies w)) qs"
  proof (cases "?ids = []")
    case True
    obtain qs c' where q: "Policy_Store.All st (db w) = (Inr qs, c')" by (rule All_lists [OF conn assms(2,3)])
    then show thesis using that All_Inr [OF conn q] True
      by (simp add: metered_store_simps metered_def listed_keys_def world_policies_def)
  next
    case False
    obtain qs c' where q: "ByGuids st ?ids ?ids False (db w) = (Inr qs, c')" by (rule ByGuids_selects [OF conn assms(2,3)])
    then show thesis using that ByGuids_Inr [OF conn q] False
      by (simp add: metered_store_simps metered_def listed_keys_def world_policies_def guids_select_def)
  qed
  from K have "list_all wire_ok (map mapStorePolicy qs)"
    by (rule listed_wire_ok) (use assms(4) in \<open>auto simp: listed_keys_def split: if_splits\<close>)
  then obtain b where "AsBytes Marshal_Policies qs = Inr b" "client_Unmarshal b = Inr (map mapStorePolicy qs)"
    by (rule AsBytes_arrives)
  then show thesis using that run by (simp add: PoliciesIndexInternal_def mapper_v1_def Let_def)
qed

lemma internal_get_ready:
  assumes "routes_clients rt" "reliable_channel jc (internal_api rt st m0)" "cut_url url = (''/networking/v1/internal/policies'', query)"
    and "world_ok w" "no_faults (db w)" "driver st = ''mysql'' \<or> driver st = ''postgres''" "\<forall>k \<in> world_policies w. key_wire k"
  obtains ps w' where "get_v1 jc url '''' w = (Inr ps, w')"
proof -
  obtain req where req: "internal_api rt st m0 ''GET'' url (auth_header '''') '''' w =
      PoliciesIndexInternal (metered_store st) mapper_v1 req w"
    using internal_api_request [OF assms(1,3)] by metis
  obtain b ps w' where "PoliciesIndexInternal (metered_store st) mapper_v1 req w = (OK b, w')" "client_Unmarshal b = Inr ps"
    by (rule internal_index_ready [OF assms(4-7)])
  with req assms(2) have "get_v1 jc url '''' w = (Inr ps, w')" by (simp add: reliable_channel_def)
  then show thesis by (rule that)
qed

lemma add_ready:
  assumes "routes_clients rt" "env_mapper1 env = mapper_v1" and net: "reliable_channel (jsonClient c) (external_api rt env st)"
    and w: "world_ok w" "no_faults (db w)" "ports_consistent (tables (db w))" "driver st = ''mysql'' \<or> driver st = ''postgres''"
    and ps: "list_all wire_ok ps" "ps \<noteq> []" "list_all valid_policy ps" "length (client_Marshal ps) \<le> MAX_REQ_BODY_SIZE"
    and user: "may_write env token t" "PolicyGuard_CheckAccess (env_rng env) (env_cc env) (env_uaa env) (map asStorePolicy ps) t = Inr True"
    and quota: "is_range (env_rng env)" "''network.admin'' \<in> set (Scope t) \<or> quota_left (MaxPolicies env) (world_policies w) (map asStorePolicy ps)"
    and tags: "enough_tags (\<Union> (guids_of ` set (map asStorePolicy ps))) (tables (db w))"
  obtains w' where "AddPolicies c token ps w = (Inr (), w')" "no_faults (db w')" "world_ok w'"
    "world_policies w' = world_policies w \<union> (\<lambda>p. key_of (asStorePolicy p)) ` set ps"
proof -
  let ?ext = "''/networking/v1/external/policies''"
  have cut: "cut_url ?ext = (?ext, '''')" by (rule cut_url_plain) simp_all
  obtain r w1 where post: "external_api rt env st ''POST'' ?ext (auth_header token) (client_Marshal ps) w = (r, w1)" by fastforce
  then obtain req where req: "Body req = Inr (client_Marshal ps)" "VersionParam req = ''v1''" "Authorization req = auth_header token"
    "protected env (write_auth env) (create_handler env (metered_store st)) req w = (r, w1)"
    using external_api_request [OF assms(1) cut _ post] by blast
  with create_ready_reply [OF w ps user quota tags req(1-3) assms(2)] obtain b where b: "r = OK b" "no_faults (db w1)" by auto
  have add: "AddPolicies c token ps w = (Inr (), w1)"
    using net post b(1) by (auto simp: reliable_channel_def AddPolicies_def with_http_error_def)
  have "world_ok w1" "world_policies w1 = world_policies w \<union> (\<lambda>p. key_of (asStorePolicy p)) ` set ps"
    using create_acknowledged [OF req(4) _ w(1) req(1,2) assms(2) ps(1)] b(1) by (auto simp: success_def)
  with add b(2) show thesis by (intro that)
qed

text \<open>C7. A change arrives: when the network delivers, the database shows no fault and has a tag for every
  application, and the user may make the change and has quota left, then adding well-formed policies
  succeeds, the next listing of a cell succeeds, and it shows the policies that were there before and the
  added ones.\<close>

theorem change_arrives:
  assumes "routes_clients rt" "env_mapper1 env = mapper_v1"
    and net: "reliable_channel (jsonClient c) (external_api rt env st)" "reliable_channel jc (internal_api rt st m0)"
    and w: "world_ok w" "no_faults (db w)" "ports_consistent (tables (db w))" "driver st = ''mysql'' \<or> driver st = ''postgres''"
      "\<forall>k \<in> world_policies w. key_wire k"
    and ps: "list_all wire_ok ps" "ps \<noteq> []" "list_all valid_policy ps" "length (client_Marshal ps) \<le> MAX_REQ_BODY_SIZE"
    and user: "may_write env token t" "PolicyGuard_CheckAccess (env_rng env) (env_cc env) (env_uaa env) (map asStorePolicy ps) t = Inr True"
    and quota: "is_range (env_rng env)" "''network.admin'' \<in> set (Scope t) \<or> quota_left (MaxPolicies env) (world_policies w) (map asStorePolicy ps)"
    and tags: "enough_tags (\<Union> (guids_of ` set (map asStorePolicy ps))) (tables (db w))"
  shows "\<exists>w1 w2 qs. AddPolicies c token ps w = (Inr (), w1) \<and> int_GetPolicies jc w1 = (Inr qs, w2) \<and>
    faithful_listing (world_policies w1) qs \<and> set (map untag qs) = api_of_key ` world_policies w \<union> set ps"
proof -
  obtain w1 where add: "AddPolicies c token ps w = (Inr (), w1)" and w1: "no_faults (db w1)" "world_ok w1"
    and K: "world_policies w1 = world_policies w \<union> (\<lambda>p. key_of (asStorePolicy p)) ` set ps"
    by (rule add_ready [OF assms(1,2) net(1) w(1-4) ps user quota tags])
  have cut: "cut_url ''/networking/v1/internal/policies'' = (''/networking/v1/internal/policies'', '''')" by (rule cut_url_plain) simp_all
  have wire: "\<forall>k \<in> world_policies w1. key_wire k" using K added_wire [OF ps(3,1)] w(5) by auto
  obtain qs w2 where "get_v1 jc ''/networking/v1/internal/policies'' '''' w1 = (Inr qs, w2)"
    by (rule internal_get_ready [OF assms(1) net(2) cut w1(2,1) w(4) wire])
  then have get: "int_GetPolicies jc w1 = (Inr qs, w2)" by (simp add: int_GetPolicies_def)
  have sound: "sound_channel (jsonClient c) (external_api rt env st)" "sound_channel jc (internal_api rt st m0)"
    using net by (auto simp: reliable_channel_def)
  from added_listing [OF assms(1,2) sound w(1,5) ps(1) add get] show ?thesis using add get by blast
qed

subsection \<open>A network without failures\<close>

definition wired :: "'w server \<Rightarrow> 'w JsonClient" where
  "wired server = \<lparr>
     get_v1 = (\<lambda>route token w. case server ''GET'' route (auth_header token) '''' w of (r, w') \<Rightarrow>
       (if success r then client_Unmarshal (reply_body r) else Inl (HttpResponseCodeError 500 ''''), w')),
     get_v0 = (\<lambda>route token w. (Inl (ErrText ''not used''), w)),
     post_v1 = (\<lambda>route ps token w. case server ''POST'' route (auth_header token) (client_Marshal ps) w of (r, w') \<Rightarrow>
       (if success r then Inr () else Inl (HttpResponseCodeError 500 ''''), w')),
     post_v0 = (\<lambda>route ps token w. case server ''POST'' route (auth_header token) (client_Marshal_v0 ps) w of (r, w') \<Rightarrow>
       (if success r then Inr () else Inl (HttpResponseCodeError 500 ''''), w')),
     get_health = (\<lambda>route token w. (Inl (ErrText ''not used''), w))\<rparr>"

lemma wired_reliable: "reliable_channel (wired server) server"
  unfolding reliable_channel_def sound_channel_def wired_def
  by (auto simp: success_def reply_body_def split: prod.splits if_splits)

lemma wired_v0_sound: "sound_v0_channel (wired server) server"
  by (auto simp: sound_v0_channel_def wired_def Let_def split: prod.splits if_splits)

lemma wired_sound: "sound_channel (wired server) server"
  using wired_reliable by (auto simp: reliable_channel_def)

definition demo_router :: router where
  "demo_router routes meth path = (case find (\<lambda>r. route_Method r = meth \<and> matchRoute (route_Path r) path) routes of
     None \<Rightarrow> Inl 404 | Some r \<Rightarrow> Inr (route_Name r, split_on (CHR ''/'') path ! 2))"

lemma demo_router_routes: "routes_clients demo_router"
  by code_simp

definition wire_env :: environment where
  "wire_env = demo_env\<lparr>env_mapper1 := mapper_v1, env_mapper0 := mapper_v0,
     env_uaa := demo_uaa\<lparr>uaa_CheckToken := \<lambda>_. Inr \<lparr>Scope = [''network.admin''], UserID = ''u'', UserName = ''n''\<rparr>\<rparr>\<rparr>"

abbreviation wire_ext :: "world server" where
  "wire_ext \<equiv> external_api demo_router wire_env demo_store"

abbreviation wire_int :: "world server" where
  "wire_int \<equiv> internal_api demo_router demo_store mapper_v0_internal"

definition wire_client :: "world ExternalClient" where
  "wire_client = NewExternal (wired wire_ext) (\<lambda>_. '''')"

definition wire_policy :: api_Policy where
  "wire_policy = mapStorePolicy (demo_policy ''a'' ''c'' 81)"

lemma demo_keys_wire: "\<forall>k \<in> world_policies demo_world. key_wire k \<and> k_port k = port_of (k_start k) (k_end k)"
  by (auto simp: demo_policies_def demo_policy_def key_of_def key_wire_def wire_ok_def api_of_key_def int64_def port_of_def
      byte_def intro!: ascii_utf8)

lemma demo_world_ready: "no_faults (db demo_world)" "ports_consistent (tables (db demo_world))"
  "driver demo_store = ''mysql'' \<or> driver demo_store = ''postgres''"
  by code_simp+

abbreviation wire_token :: CheckTokenResponse where
  "wire_token \<equiv> \<lparr>Scope = [''network.admin''], UserID = ''u'', UserName = ''n''\<rparr>"

lemma demo_policy_wire: "list_all wire_ok [mapStorePolicy (demo_policy ''a'' b n)]" "list_all valid_policy [mapStorePolicy (demo_policy ''a'' b n)]"
  if "b = ''b'' \<or> b = ''c''" "1 \<le> n" "n \<le> 65535"
  using that by (auto simp: demo_policy_def mapStorePolicy_def wire_ok_def valid_policy_def int64_def byte_def intro!: ascii_utf8)

lemma wire_policy_ok: "list_all wire_ok [wire_policy]" "list_all valid_policy [wire_policy]" "length (client_Marshal [wire_policy]) \<le> MAX_REQ_BODY_SIZE"
proof -
  show "list_all wire_ok [wire_policy]" "list_all valid_policy [wire_policy]" unfolding wire_policy_def by (rule demo_policy_wire; simp)+
  have "length (client_Marshal [wire_policy]) < 256" by code_simp
  then show "length (client_Marshal [wire_policy]) \<le> MAX_REQ_BODY_SIZE" by (simp add: MAX_REQ_BODY_SIZE_def)
qed

lemma wire_env_facts: "env_mapper1 wire_env = mapper_v1" "is_range (env_rng wire_env)" "may_write wire_env ''Bearer t'' wire_token"
  "PolicyGuard_CheckAccess (env_rng wire_env) (env_cc wire_env) (env_uaa wire_env) ps wire_token = Inr True"
  by (simp_all add: wire_env_def demo_env_def demo_uaa_def may_write_def PolicyGuard_CheckAccess_def)

lemma wire_tags: "enough_tags (\<Union> (guids_of ` set (map asStorePolicy [wire_policy]))) (tables (db demo_world))"
proof -
  have "group_guid (tables demo_full) 1 = Some ''a''" "group_guid (tables demo_full) 3 = Some ''c''" by code_simp+
  moreover have "\<Union> (guids_of ` set (map asStorePolicy [wire_policy])) = {''a'', ''c''}"
    by (auto simp: wire_policy_def demo_policy_def mapStorePolicy_def asStorePolicy_def guids_of_def Let_def)
  ultimately have "\<Union> (guids_of ` set (map asStorePolicy [wire_policy])) - ran (group_guid (tables (db demo_world))) = {}"
    by (auto simp: demo_world_def ran_def)
  then show ?thesis by (simp only: enough_tags_def card.empty le0)
qed

lemma wire_reliable: "reliable_channel (jsonClient wire_client) wire_ext"
  by (simp add: wire_client_def NewExternal_def wired_reliable)

theorem cells_see_policies_witness:
  "\<exists>ps w'. int_GetPoliciesByID (wired wire_int) [''a''] demo_world = (Inr ps, w') \<and>
     faithful_listing {k \<in> world_policies demo_world. k_src k \<in> set [''a''] \<or> k_dst k \<in> set [''a'']} ps"
proof -
  have wire: "\<forall>k \<in> world_policies demo_world. key_wire k" using demo_keys_wire by blast
  have ids: "list_all plain_id [''a'']" by code_simp
  have "cut_url (''/networking/v1/internal/policies'' @ ''?id='' @ ''a'') = (''/networking/v1/internal/policies'', ''id='' @ ''a'')"
    by (rule cut_url_query) (use join_query_chars [OF ids] in simp_all)
  from internal_get_ready [OF demo_router_routes wired_reliable this demo_world_ok(1) demo_world_ready(1,3) wire]
  obtain ps w' where "get_v1 (wired wire_int) (''/networking/v1/internal/policies'' @ ''?id='' @ ''a'') '''' demo_world = (Inr ps, w')" .
  then have run: "int_GetPoliciesByID (wired wire_int) [''a''] demo_world = (Inr ps, w')" by (simp add: int_GetPoliciesByID_def)
  from cells_see_policies [OF demo_router_routes wired_sound demo_world_ok(1) wire ids run] run show ?thesis by blast
qed

theorem v0_policies_reach_cells_witness:
  "\<exists>w1 w2 qs. AddPoliciesV0 wire_client ''Bearer t'' [demo_v0 ''a''] demo_world = (Inr (), w1) \<and>
     int_GetPolicies (wired wire_int) w1 = (Inr qs, w2) \<and>
     set (map untag qs) = api_of_key ` world_policies demo_world \<union> as_v1 ` set [demo_v0 ''a'']"
proof -
  let ?ps = "[demo_v0 ''a'']" and ?url = "''/networking/v0/external/policies''"
  have wire: "\<forall>k \<in> world_policies demo_world. key_wire k" using demo_keys_wire by blast
  have wok: "list_all v0_wire_ok ?ps" by (auto simp: demo_v0_def v0_wire_ok_def int64_def byte_def intro!: ascii_utf8)
  have valid: "v0_ValidatePolicies ?ps = None" by code_simp
  have map: "m_AsStorePolicy mapper_v0 (client_Marshal_v0 ?ps) = Inr (map v0_asStorePolicy ?ps)"
    using v0_request_roundtrip [OF wok] valid by (simp add: mapper_v0_def v0_AsStorePolicy_def)
  have len: "length (client_Marshal_v0 ?ps) \<le> MAX_REQ_BODY_SIZE"
    by (simp add: client_Marshal_v0_def json_v0_Policy_def json_v0_Destination_def json_Source_def tag_member_def demo_v0_def quoted_def
        string_text_ascii escape_ascii_def html_safe_def byte_def itoa_def digits_base.simps MAX_REQ_BODY_SIZE_def)
  have tags: "enough_tags (\<Union> (guids_of ` set (map v0_asStorePolicy ?ps))) (tables (db demo_world))"
  proof -
    have "group_guid (tables demo_full) 1 = Some ''a''" "group_guid (tables demo_full) 2 = Some ''b''" by code_simp+
    then have "\<Union> (guids_of ` set (map v0_asStorePolicy ?ps)) - ran (group_guid (tables (db demo_world))) = {}"
      by (auto simp: demo_world_def ran_def demo_v0_def v0_asStorePolicy_def guids_of_def)
    then show ?thesis by (simp only: enough_tags_def card.empty le0)
  qed
  obtain r w1 where post: "wire_ext ''POST'' ?url (auth_header ''Bearer t'') (client_Marshal_v0 ?ps) demo_world = (r, w1)" by fastforce
  have cut: "cut_url ?url = (?url, '''')" by (rule cut_url_plain) simp_all
  from external_api_request [OF demo_router_routes cut _ post] obtain req where
    req: "Body req = Inr (client_Marshal_v0 ?ps)" "VersionParam req = ''v0''" "Authorization req = auth_header ''Bearer t''"
      "protected wire_env (write_auth wire_env) (create_handler wire_env (metered_store demo_store)) req demo_world = (r, w1)" by blast
  have m0: "env_mapper0 wire_env = mapper_v0" by (simp add: wire_env_def)
  have "\<exists>b w'. protected wire_env (write_auth wire_env) (create_handler wire_env (metered_store demo_store)) req demo_world = (OK b, w') \<and>
      no_faults (db w')"
    by (rule create_ready_general [OF demo_world_ok(1) demo_world_ready _ _ len wire_env_facts(3,4,2) _ tags req(1) _ req(3)])
      (use map req(2) m0 in \<open>simp_all add: mapper_for_def asStorePolicy_consistent\<close>)
  then obtain b where r: "r = OK b" "no_faults (db w1)" using req(4) by auto
  have "Chunk (chunkSize wire_client) ?ps = [?ps]" by (simp add: wire_client_def NewExternal_def DefaultMaxPolicies_def Chunk_def
        getChunkSize_def chunk_loop.simps slice_def)
  then have add: "AddPoliciesV0 wire_client ''Bearer t'' ?ps demo_world = (Inr (), w1)"
    using post r(1) by (simp add: AddPoliciesV0_def wire_client_def NewExternal_def wired_def with_http_error_def success_def)
  have sound: "sound_v0_channel (jsonClient wire_client) wire_ext" by (simp add: wire_client_def NewExternal_def wired_v0_sound)
  have eff: "world_ok w1" "world_policies w1 = world_policies demo_world \<union> (\<lambda>p. key_of (v0_asStorePolicy p)) ` set ?ps"
    using create_outcome [OF req(4) demo_world_ok(1) req(1)] r(1) map m0 req(2) by (auto simp: success_def mapper_for_def)
  have new: "key_wire (key_of (v0_asStorePolicy (demo_v0 ''a'')))"
    using v0_api_of_key [of "demo_v0 ''a''"] v0_wire_as_v1 [of "demo_v0 ''a''"] wok valid v0_ValidatePolicies_iff [of ?ps]
    by (simp add: key_wire_def)
  have all_wire: "\<forall>k \<in> world_policies w1. key_wire k" unfolding eff(2) using new wire by simp
  have cut': "cut_url ''/networking/v1/internal/policies'' = (''/networking/v1/internal/policies'', '''')" by (rule cut_url_plain) simp_all
  obtain qs w2 where "get_v1 (wired wire_int) ''/networking/v1/internal/policies'' '''' w1 = (Inr qs, w2)"
    by (rule internal_get_ready [OF demo_router_routes wired_reliable cut' eff(1) r(2) demo_world_ready(3) all_wire])
  then have get: "int_GetPolicies (wired wire_int) w1 = (Inr qs, w2)" by (simp add: int_GetPolicies_def)
  from v0_policies_reach_cells [OF demo_router_routes m0 sound wired_sound demo_world_ok(1) wire wok add get]
  obtain sent unsent where "sent @ unsent = ?ps" "is_ok (Inr ()) \<longrightarrow> unsent = []"
    "set (map untag qs) = api_of_key ` world_policies demo_world \<union> as_v1 ` set sent" by blast
  then show ?thesis using add get by auto
qed

theorem change_arrives_witness:
  "\<exists>w1 w2 qs. AddPolicies wire_client ''Bearer t'' [wire_policy] demo_world = (Inr (), w1) \<and>
     int_GetPolicies (wired wire_int) w1 = (Inr qs, w2) \<and>
     faithful_listing (world_policies w1) qs \<and> set (map untag qs) = api_of_key ` world_policies demo_world \<union> set [wire_policy]"
  by (rule change_arrives [OF demo_router_routes wire_env_facts(1) wire_reliable wired_reliable demo_world_ok(1) demo_world_ready _
      wire_policy_ok(1) _ wire_policy_ok(2,3) wire_env_facts(3,4,2) _ wire_tags]) (use demo_keys_wire in simp_all)

theorem added_policies_reach_cells_witness:
  "\<exists>w1 w2 qs. AddPolicies wire_client ''Bearer t'' [wire_policy] demo_world = (Inr (), w1) \<and>
     int_GetPolicies (wired wire_int) w1 = (Inr qs, w2) \<and> wire_policy \<in> set (map untag qs)"
proof -
  have wire: "\<forall>k \<in> world_policies demo_world. key_wire k" using demo_keys_wire by blast
  have q: "''network.admin'' \<in> set (Scope wire_token) \<or> quota_left (MaxPolicies wire_env) (world_policies demo_world) (map asStorePolicy [wire_policy])"
    by simp
  obtain w1 where add: "AddPolicies wire_client ''Bearer t'' [wire_policy] demo_world = (Inr (), w1)" "no_faults (db w1)" "world_ok w1"
    and K: "world_policies w1 = world_policies demo_world \<union> (\<lambda>p. key_of (asStorePolicy p)) ` set [wire_policy]"
    by (rule add_ready [OF demo_router_routes wire_env_facts(1) wire_reliable demo_world_ok(1) demo_world_ready
        wire_policy_ok(1) _ wire_policy_ok(2,3) wire_env_facts(3,4,2) q wire_tags]) simp
  have cut: "cut_url ''/networking/v1/internal/policies'' = (''/networking/v1/internal/policies'', '''')" by (rule cut_url_plain) simp_all
  have "\<forall>k \<in> world_policies w1. key_wire k" using K added_wire [OF wire_policy_ok(2,1)] wire by auto
  from internal_get_ready [OF demo_router_routes wired_reliable cut add(3,2) demo_world_ready(3) this]
  obtain qs w2 where "get_v1 (wired wire_int) ''/networking/v1/internal/policies'' '''' w1 = (Inr qs, w2)" .
  then have get: "int_GetPolicies (wired wire_int) w1 = (Inr qs, w2)" by (simp add: int_GetPolicies_def)
  have "sound_channel (jsonClient wire_client) wire_ext" using wire_reliable by (simp add: reliable_channel_def)
  from added_policies_reach_cells [OF demo_router_routes wire_env_facts(1) this wired_sound demo_world_ok(1) wire wire_policy_ok(1) add(1) get]
  show ?thesis using add(1) get by auto
qed

theorem deleted_policies_leave_cells_witness:
  "\<exists>u w1 w2 qs. DeletePolicies wire_client ''Bearer t'' [mapStorePolicy (demo_policy ''a'' ''b'' 8080)] demo_world = (Inr u, w1) \<and>
     int_GetPolicies (wired wire_int) w1 = (Inr qs, w2) \<and> mapStorePolicy (demo_policy ''a'' ''b'' 8080) \<notin> set (map untag qs)"
proof -
  let ?p = "mapStorePolicy (demo_policy ''a'' ''b'' 8080)" and ?url = "''/networking/v1/external/policies/delete''"
  have p: "list_all wire_ok [?p]" "list_all valid_policy [?p]" by (rule demo_policy_wire; simp)+
  have len: "length (client_Marshal [?p]) \<le> MAX_REQ_BODY_SIZE"
    by (simp add: client_Marshal_def json_record_defs demo_policy_def mapStorePolicy_def quoted_def string_text_ascii
        escape_ascii_def html_safe_def byte_def itoa_def digits_base.simps MAX_REQ_BODY_SIZE_def)
  have "case Delete (map asStorePolicy [?p]) demo_full of (Inr _, c) \<Rightarrow> no_faults c | _ \<Rightarrow> False" by code_simp
  then obtain c where c: "Delete (map asStorePolicy [?p]) demo_full = (Inr (), c)" "no_faults c" by (auto split: prod.splits sum.splits)
  obtain r w1 where post: "wire_ext ''POST'' ?url (auth_header ''Bearer t'') (client_Marshal [?p]) demo_world = (r, w1)" by fastforce
  have cut: "cut_url ?url = (?url, '''')" by (rule cut_url_plain) simp_all
  from external_api_request [OF demo_router_routes cut _ post] obtain req where
    req: "Body req = Inr (client_Marshal [?p])" "VersionParam req = ''v1''" "Authorization req = auth_header ''Bearer t''"
      "protected wire_env (write_auth wire_env) (delete_handler wire_env (metered_store demo_store)) req demo_world = (r, w1)" by blast
  have adm: "admitted (write_auth wire_env) req = Some wire_token" by (rule may_write_admitted [OF wire_env_facts(3) req(3)])
  have body: "limit_body (Body req) = Inr (client_Marshal [?p])" using req(1) len by (simp add: limit_body_def)
  have map: "m_AsStorePolicy mapper_v1 (client_Marshal [?p]) = Inr (map asStorePolicy [?p])"
    by (rule mapper_v1_accepts [OF p(1) _ p(2)]) simp
  have r: "r = OK ''{}''" "db w1 = c"
    using req(2,4) c(1) wire_env_facts(1,4) map
    by (auto simp: protected_def versionWrap_cases auth_Wrap_admitted [OF adm] body delete_handler_def PoliciesDelete_def
        getTokenData_def metered_store_simps metered_def demo_world_def)
  have post1: "DeletePolicies wire_client ''Bearer t'' [?p] demo_world = (Inr (), w1)"
    using wire_reliable post r(1) by (auto simp: reliable_channel_def DeletePolicies_def with_http_error_def)
  have eff: "world_ok w1" "world_policies w1 \<subseteq> world_policies demo_world"
    using delete_acknowledged [OF req(4) _ demo_world_ok(1) req(1,2) wire_env_facts(1) p(1)] r(1) by (auto simp: success_def)
  have cut': "cut_url ''/networking/v1/internal/policies'' = (''/networking/v1/internal/policies'', '''')" by (rule cut_url_plain) simp_all
  have wire: "\<forall>k \<in> world_policies w1. key_wire k" using demo_keys_wire eff(2) by blast
  from internal_get_ready [OF demo_router_routes wired_reliable cut' eff(1) _ demo_world_ready(3) wire] c(2) r(2)
  obtain qs w2 where "get_v1 (wired wire_int) ''/networking/v1/internal/policies'' '''' w1 = (Inr qs, w2)" by blast
  then have get: "int_GetPolicies (wired wire_int) w1 = (Inr qs, w2)" by (simp add: int_GetPolicies_def)
  have "sound_channel (jsonClient wire_client) wire_ext" using wire_reliable by (simp add: reliable_channel_def)
  from deleted_policies_leave_cells [OF demo_router_routes wire_env_facts(1) this wired_sound demo_world_ok(1) demo_keys_wire p(1) post1 get]
  show ?thesis using post1 get by auto
qed

end
