(* ===== verification/Migrations.thy ===== *)
theory Migrations
  imports Go_Prelude
begin

text \<open>
  \<^verbatim>\<open>policy-server/store/migrations\<close>: the three schema migrations for each SQL dialect, and the migrator
  that hands them to the library \<^verbatim>\<open>sql-migrate\<close>, whose \<^verbatim>\<open>ExecMaxWithLock\<close> is a parameter. Each SQL
  statement is a value of \<open>migration_stmt\<close> with its effect \<open>exec_stmt\<close> on a small relational
  database. Inline \<^verbatim>\<open>REFERENCES\<close> clauses are left out: no migration removes a row or changes a key.
\<close>

subsection \<open>Databases\<close>

datatype sql_value = Null | IntV int | TextV string

text \<open>The column types of the migrations. \<^verbatim>\<open>int NOT NULL AUTO_INCREMENT\<close> and \<^verbatim>\<open>SERIAL PRIMARY KEY\<close> are \<open>Serial\<close>.\<close>

datatype sql_type = Serial | IntType | Varchar nat | TextType

type_synonym sql_row = "(string \<times> sql_value) list"

record sql_table =
  columns :: "(string \<times> sql_type) list"
  uniques :: "string list list"
  rows :: "sql_row list"

record database =
  tabs :: "(string \<times> sql_table) list"
  procedures :: "(string \<times> string \<times> string) list"
  indexes :: "(string \<times> string \<times> string) list"

definition column_names :: "sql_table \<Rightarrow> string list" where
  "column_names t = map fst (columns t)"

definition cell :: "sql_row \<Rightarrow> string \<Rightarrow> sql_value" where
  "cell r col = (case map_of r col of None \<Rightarrow> Null | Some v \<Rightarrow> v)"

text \<open>A unique key does not compare rows with a \<^verbatim>\<open>NULL\<close> in one of its columns.\<close>

definition clash :: "string list \<Rightarrow> sql_row \<Rightarrow> sql_row \<Rightarrow> bool" where
  "clash key r r' \<longleftrightarrow> list_all (\<lambda>col. cell r col \<noteq> Null \<and> cell r col = cell r' col) key"

fun unique_key :: "string list \<Rightarrow> sql_row list \<Rightarrow> bool" where
  "unique_key key [] = True"
| "unique_key key (r # rs) = (list_all (\<lambda>r'. \<not> clash key r r') rs \<and> unique_key key rs)"

fun alter :: "string \<Rightarrow> ('t \<Rightarrow> 't result) \<Rightarrow> (string \<times> 't) list \<Rightarrow> (string \<times> 't) list result" where
  "alter name f [] = Inl (DriverError (''no such table: '' @ name))"
| "alter name f ((n, t) # ts) =
     (if n = name then (case f t of Inl e \<Rightarrow> Inl e | Inr t' \<Rightarrow> Inr ((n, t') # ts))
      else (case alter name f ts of Inl e \<Rightarrow> Inl e | Inr ts' \<Rightarrow> Inr ((n, t) # ts')))"

subsection \<open>Statements\<close>

datatype migration_stmt =
    CreateTable string "(string \<times> sql_type) list" "string list list"
  | AddColumn string string sql_type sql_value
  | UpdateSet string string string
  | CreateDropProcedure string string string
  | CallProcedure string
  | DropConstraintsOn string string
  | AddUnique string "string list"
  | CreateIndex string string string

text \<open>
  The MySQL procedure selects the name of the one constraint on the column into a variable, which
  fails on none or several; the PostgreSQL block drops every one.
\<close>

definition drop_one_unique :: "string \<Rightarrow> sql_table \<Rightarrow> sql_table result" where
  "drop_one_unique col t =
     (if length (filter (\<lambda>key. col \<in> set key) (uniques t)) = 1
      then Inr (t\<lparr>uniques := filter (\<lambda>key. col \<notin> set key) (uniques t)\<rparr>)
      else Inl (DriverError ''drop index''))"

fun exec_stmt :: "migration_stmt \<Rightarrow> database \<Rightarrow> database result" where
  "exec_stmt (CreateTable name cs us) db =
     (if map_of (tabs db) name = None
      then Inr (db\<lparr>tabs := tabs db @ [(name, \<lparr>columns = cs, uniques = us, rows = []\<rparr>)]\<rparr>) else Inr db)"
| "exec_stmt (AddColumn name col ty v) db =
     map_sum id (\<lambda>ts. db\<lparr>tabs := ts\<rparr>) (alter name (\<lambda>t.
        if col \<in> set (column_names t) then Inl (DriverError ''duplicate column'')
        else Inr (t\<lparr>columns := columns t @ [(col, ty)], rows := map (\<lambda>r. r @ [(col, v)]) (rows t)\<rparr>)) (tabs db))"
| "exec_stmt (UpdateSet name col src) db =
     map_sum id (\<lambda>ts. db\<lparr>tabs := ts\<rparr>) (alter name (\<lambda>t.
        let rs = map (\<lambda>r. map (\<lambda>(c, v). if c = col then (c, cell r src) else (c, v)) r) (rows t) in
        if col \<notin> set (column_names t) \<or> src \<notin> set (column_names t) then Inl (DriverError ''no such column'')
        else if list_all (\<lambda>key. unique_key key rs) (uniques t) then Inr (t\<lparr>rows := rs\<rparr>)
        else Inl (DriverError ''duplicate key'')) (tabs db))"
| "exec_stmt (CreateDropProcedure p name col) db =
     (if map_of (procedures db) p = None then Inr (db\<lparr>procedures := (p, name, col) # procedures db\<rparr>)
      else Inl (DriverError ''procedure exists''))"
| "exec_stmt (CallProcedure p) db =
     (case map_of (procedures db) p of
        None \<Rightarrow> Inl (DriverError ''no such procedure'')
      | Some (name, col) \<Rightarrow> map_sum id (\<lambda>ts. db\<lparr>tabs := ts\<rparr>) (alter name (drop_one_unique col) (tabs db)))"
| "exec_stmt (DropConstraintsOn name col) db =
     map_sum id (\<lambda>ts. db\<lparr>tabs := ts\<rparr>) (alter name (\<lambda>t.
        Inr (t\<lparr>uniques := filter (\<lambda>key. col \<notin> set key) (uniques t)\<rparr>)) (tabs db))"
| "exec_stmt (AddUnique name key) db =
     map_sum id (\<lambda>ts. db\<lparr>tabs := ts\<rparr>) (alter name (\<lambda>t.
        if \<not> set key \<subseteq> set (column_names t) then Inl (DriverError ''no such column'')
        else if unique_key key (rows t) then Inr (t\<lparr>uniques := uniques t @ [key]\<rparr>)
        else Inl (DriverError ''duplicate key'')) (tabs db))"
| "exec_stmt (CreateIndex i name col) db =
     (case map_of (tabs db) name of None \<Rightarrow> Inl (DriverError ''no such table'')
      | Some t \<Rightarrow> if col \<in> set (column_names t) then Inr (db\<lparr>indexes := (i, name, col) # indexes db\<rparr>)
                  else Inl (DriverError ''no such column''))"

fun exec_stmts :: "migration_stmt list \<Rightarrow> database \<Rightarrow> database result" where
  "exec_stmts [] db = Inr db"
| "exec_stmts (s # ss) db = (case exec_stmt s db of Inl e \<Rightarrow> Inl e | Inr db' \<Rightarrow> exec_stmts ss db')"

subsection \<open>The migrations\<close>

text \<open>The type of a text column in each dialect.\<close>

definition string_type :: "string \<Rightarrow> sql_type" where
  "string_type d = (if d = ''mysql'' then Varchar 255 else TextType)"

definition create_tables :: "string \<Rightarrow> migration_stmt list" where
  "create_tables d =
     [CreateTable ''groups'' [(''id'', Serial), (''guid'', string_type d)] [[''id''], [''guid'']],
      CreateTable ''destinations'' [(''id'', Serial), (''group_id'', IntType), (''port'', IntType), (''protocol'', string_type d)]
        [[''id''], [''group_id'', ''port'', ''protocol'']],
      CreateTable ''policies'' [(''id'', Serial), (''group_id'', IntType), (''destination_id'', IntType)]
        [[''id''], [''group_id'', ''destination_id'']]]"

definition migration_v0001 :: "(string \<times> migration_stmt list) list" where
  "migration_v0001 = [(''mysql'', create_tables ''mysql''), (''postgres'', create_tables ''postgres'')]"

definition migration_v0002 :: "(string \<times> migration_stmt list) list" where
  "migration_v0002 =
     [(''mysql'',
        [AddColumn ''destinations'' ''start_port'' IntType Null, AddColumn ''destinations'' ''end_port'' IntType Null,
         UpdateSet ''destinations'' ''start_port'' ''port'', UpdateSet ''destinations'' ''end_port'' ''port'',
         CreateDropProcedure ''drop_destination_index'' ''destinations'' ''port'',
         CallProcedure ''drop_destination_index'',
         AddUnique ''destinations'' [''group_id'', ''start_port'', ''end_port'', ''protocol'']]),
      (''postgres'',
        [AddColumn ''destinations'' ''start_port'' IntType Null, AddColumn ''destinations'' ''end_port'' IntType Null,
         UpdateSet ''destinations'' ''start_port'' ''port'', UpdateSet ''destinations'' ''end_port'' ''port'',
         DropConstraintsOn ''destinations'' ''port'',
         AddUnique ''destinations'' [''group_id'', ''start_port'', ''end_port'', ''protocol'']])]"

definition migration_v0003 :: "(string \<times> migration_stmt list) list" where
  "migration_v0003 =
     [(''mysql'', [AddColumn ''groups'' ''type'' (Varchar 255) (TextV ''app''), CreateIndex ''idx_type'' ''groups'' ''type'']),
      (''postgres'', [AddColumn ''groups'' ''type'' TextType (TextV ''app''), CreateIndex ''idx_type'' ''groups'' ''type''])]"

record policyServerMigration =
  Id :: string
  Up :: "(string \<times> migration_stmt list) list"

definition MigrationsToPerform :: "policyServerMigration list" where
  "MigrationsToPerform =
     [\<lparr>Id = ''1'', Up = migration_v0001\<rparr>, \<lparr>Id = ''2'', Up = migration_v0002\<rparr>, \<lparr>Id = ''3'', Up = migration_v0003\<rparr>]"

text \<open>A Go map answers the zero value, here the empty list, for a key it does not hold.\<close>

definition forDriver :: "string \<Rightarrow> policyServerMigration \<Rightarrow> string \<times> migration_stmt list" where
  "forDriver d m = (Id m, case map_of (Up m) d of None \<Rightarrow> [] | Some ss \<Rightarrow> ss)"

definition supportsDriver :: "string \<Rightarrow> policyServerMigration \<Rightarrow> bool" where
  "supportsDriver d m = (map_of (Up m) d \<noteq> None)"

definition ForDriver :: "string \<Rightarrow> policyServerMigration list \<Rightarrow> (string \<times> migration_stmt list) list" where
  "ForDriver d ms = map (forDriver d) ms"

fun all_supportsDriver :: "string \<Rightarrow> policyServerMigration list \<Rightarrow> bool" where
  "all_supportsDriver d [] = True"
| "all_supportsDriver d (m # ms) = (if \<not> supportsDriver d m then False else all_supportsDriver d ms)"

datatype direction = Up_dir | Down_dir

type_synonym 'db exec_max =
  "'db \<Rightarrow> string \<Rightarrow> (string \<times> migration_stmt list) list \<Rightarrow> direction \<Rightarrow> int \<Rightarrow> (int \<times> go_error option) \<times> 'db"

definition ExecMax :: "'db exec_max \<Rightarrow> 'db exec_max" where
  "ExecMax execMaxWithLock db dialect m dir mx =
     (if dir = Down_dir then ((0, Some (ErrText ''down migration not supported'')), db)
      else execMaxWithLock db dialect m dir mx)"

definition PerformMigrations :: "'db exec_max \<Rightarrow> string \<Rightarrow> 'db \<Rightarrow> int \<Rightarrow> (int \<times> go_error option) \<times> 'db" where
  "PerformMigrations execMaxWithLock driverName db maxNumMigrations =
     (if \<not> all_supportsDriver driverName MigrationsToPerform
      then ((0, Some (ErrText (''unsupported driver: '' @ driverName))), db)
      else case ExecMax execMaxWithLock db driverName (ForDriver driverName MigrationsToPerform) Up_dir maxNumMigrations of
          ((n, Some err), db) \<Rightarrow> ((n, Some (Errorf ''executing migration: '' err)), db)
        | ((n, None), db) \<Rightarrow> ((n, None), db))"

subsection \<open>Lemmas\<close>

fun put :: "string \<Rightarrow> sql_table \<Rightarrow> (string \<times> sql_table) list \<Rightarrow> (string \<times> sql_table) list" where
  "put name t [] = []"
| "put name t ((n, t') # ts) = (if n = name then (n, t) # ts else (n, t') # put name t ts)"

lemma alter_put: "map_of ts name = Some t \<Longrightarrow> f t = Inr t' \<Longrightarrow> alter name f ts = Inr (put name t' ts)"
  by (induction ts) (auto split: if_splits)

lemma map_of_put: "map_of (put name t ts) k = (if k = name \<and> map_of ts name \<noteq> None then Some t else map_of ts k)"
  by (induction ts) auto

lemma put_put [simp]: "put name t (put name t' ts) = put name t ts"
  by (induction ts) auto

lemma supports_iff: "all_supportsDriver d MigrationsToPerform \<longleftrightarrow> d = ''mysql'' \<or> d = ''postgres''"
  by (auto simp: MigrationsToPerform_def supportsDriver_def migration_v0001_def migration_v0002_def migration_v0003_def)

definition v1_names :: "string list" where
  "v1_names = [''id'', ''group_id'', ''port'', ''protocol'']"

definition v1_row :: "sql_row \<Rightarrow> bool" where
  "v1_row r \<longleftrightarrow> map fst r = v1_names"

definition v1_table :: "sql_table \<Rightarrow> bool" where
  "v1_table t \<longleftrightarrow> column_names t = v1_names \<and> uniques t = [[''id''], [''group_id'', ''port'', ''protocol'']] \<and>
     list_all v1_row (rows t) \<and> list_all (\<lambda>key. unique_key key (rows t)) (uniques t)"

definition with_range :: "sql_row \<Rightarrow> sql_row" where
  "with_range r = r @ [(''start_port'', cell r ''port''), (''end_port'', cell r ''port'')]"

definition v2_table :: "sql_table \<Rightarrow> sql_table" where
  "v2_table t = \<lparr>columns = columns t @ [(''start_port'', IntType), (''end_port'', IntType)],
     uniques = [[''id''], [''group_id'', ''start_port'', ''end_port'', ''protocol'']], rows = map with_range (rows t)\<rparr>"

lemma unique_key_map:
  assumes "unique_key key rs" "list_all Q rs"
    and "\<And>r r'. Q r \<Longrightarrow> Q r' \<Longrightarrow> clash key' (f r) (f r') \<Longrightarrow> clash key r r'"
  shows "unique_key key' (map f rs)"
  using assms(1,2) by (induction rs) (auto simp: list_all_iff dest: assms(3))

lemma v1_row_cases: "v1_row r \<Longrightarrow> \<exists>a b c d. r = [(''id'', a), (''group_id'', b), (''port'', c), (''protocol'', d)]"
  by (auto simp: v1_row_def v1_names_def map_eq_Cons_conv)

lemma with_range_cells:
  assumes "v1_row r"
  shows "cell (with_range r) ''start_port'' = cell r ''port''" "cell (with_range r) ''end_port'' = cell r ''port''"
    "col \<in> set v1_names \<Longrightarrow> cell (with_range r) col = cell r col"
  using v1_row_cases [OF assms] by (auto simp: with_range_def cell_def v1_names_def)

definition add_col :: "string \<Rightarrow> sql_value \<Rightarrow> sql_row \<Rightarrow> sql_row" where
  "add_col col v r = r @ [(col, v)]"

definition copy_col :: "string \<Rightarrow> string \<Rightarrow> sql_row \<Rightarrow> sql_row" where
  "copy_col col src r = map (\<lambda>(c, v). if c = col then (c, cell r src) else (c, v)) r"

lemma exec_AddColumn:
  "map_of (tabs db) name = Some t \<Longrightarrow> col \<notin> set (column_names t) \<Longrightarrow> exec_stmt (AddColumn name col ty v) db =
     Inr (db\<lparr>tabs := put name (t\<lparr>columns := columns t @ [(col, ty)], rows := map (add_col col v) (rows t)\<rparr>) (tabs db)\<rparr>)"
  by (simp add: alter_put add_col_def [abs_def])

lemma exec_UpdateSet:
  "map_of (tabs db) name = Some t \<Longrightarrow> {col, src} \<subseteq> set (column_names t) \<Longrightarrow>
     list_all (\<lambda>key. unique_key key (map (copy_col col src) (rows t))) (uniques t) \<Longrightarrow>
     exec_stmt (UpdateSet name col src) db = Inr (db\<lparr>tabs := put name (t\<lparr>rows := map (copy_col col src) (rows t)\<rparr>) (tabs db)\<rparr>)"
  by (simp add: alter_put Let_def copy_col_def [abs_def])

lemma exec_AddUnique:
  "map_of (tabs db) name = Some t \<Longrightarrow> set key \<subseteq> set (column_names t) \<Longrightarrow> unique_key key (rows t) \<Longrightarrow>
     exec_stmt (AddUnique name key) db = Inr (db\<lparr>tabs := put name (t\<lparr>uniques := uniques t @ [key]\<rparr>) (tabs db)\<rparr>)"
  by (simp add: alter_put)

lemma exec_DropConstraintsOn:
  "map_of (tabs db) name = Some t \<Longrightarrow> exec_stmt (DropConstraintsOn name col) db =
     Inr (db\<lparr>tabs := put name (t\<lparr>uniques := filter (\<lambda>key. col \<notin> set key) (uniques t)\<rparr>) (tabs db)\<rparr>)"
  by (simp add: alter_put)

lemma exec_CallProcedure:
  "map_of (procedures db) p = Some (name, col) \<Longrightarrow> map_of (tabs db) name = Some t \<Longrightarrow>
   length (filter (\<lambda>key. col \<in> set key) (uniques t)) = 1 \<Longrightarrow> exec_stmt (CallProcedure p) db =
     Inr (db\<lparr>tabs := put name (t\<lparr>uniques := filter (\<lambda>key. col \<notin> set key) (uniques t)\<rparr>) (tabs db)\<rparr>)"
  by (simp add: alter_put drop_one_unique_def)

lemmas exec_v0002 = exec_AddColumn exec_UpdateSet exec_AddUnique exec_DropConstraintsOn exec_CallProcedure map_of_put

text \<open>The rows while the migration runs: after both columns are added, and after each update.\<close>

lemma copied_rows:
  assumes "v1_row r"
  shows "copy_col ''end_port'' ''port'' (copy_col ''start_port'' ''port''
      (add_col ''end_port'' Null (add_col ''start_port'' Null r))) = with_range r"
  using v1_row_cases [OF assms] by (auto simp: copy_col_def add_col_def with_range_def cell_def)

lemma v1_clash:
  assumes "v1_row r" "v1_row r'" "set key \<subseteq> set v1_names"
  shows "clash key (copy_col ''start_port'' ''port'' (add_col ''end_port'' Null (add_col ''start_port'' Null r)))
      (copy_col ''start_port'' ''port'' (add_col ''end_port'' Null (add_col ''start_port'' Null r'))) = clash key r r'"
    and "clash key (with_range r) (with_range r') = clash key r r'"
proof -
  have "cell (copy_col ''start_port'' ''port'' (add_col ''end_port'' Null (add_col ''start_port'' Null q))) col = cell q col"
    if "v1_row q" "col \<in> set v1_names" for q col
    using v1_row_cases [OF that(1)] that(2) by (auto simp: copy_col_def add_col_def cell_def v1_names_def)
  then show "clash key (copy_col ''start_port'' ''port'' (add_col ''end_port'' Null (add_col ''start_port'' Null r)))
      (copy_col ''start_port'' ''port'' (add_col ''end_port'' Null (add_col ''start_port'' Null r'))) = clash key r r'"
    using assms by (auto simp: clash_def list_all_iff subset_iff)
  show "clash key (with_range r) (with_range r') = clash key r r'"
    using assms with_range_cells(3) by (auto simp: clash_def list_all_iff subset_iff)
qed

lemma v2_unique:
  assumes "v1_table t"
  shows "unique_key [''group_id'', ''start_port'', ''end_port'', ''protocol''] (map with_range (rows t))"
  by (rule unique_key_map [where key = "[''group_id'', ''port'', ''protocol'']" and Q = v1_row])
    (use assms in \<open>auto simp: v1_table_def clash_def with_range_cells v1_names_def\<close>)


lemma v0002_rows:
  assumes "v1_table t" and db: "map_of (tabs db) ''destinations'' = Some t"
  shows "exec_stmts [AddColumn ''destinations'' ''start_port'' IntType Null, AddColumn ''destinations'' ''end_port'' IntType Null,
         UpdateSet ''destinations'' ''start_port'' ''port'', UpdateSet ''destinations'' ''end_port'' ''port''] db =
     Inr (db\<lparr>tabs := put ''destinations'' (t\<lparr>columns := columns t @ [(''start_port'', IntType), (''end_port'', IntType)],
        rows := map with_range (rows t)\<rparr>) (tabs db)\<rparr>)"
proof -
  let ?f = "\<lambda>r. add_col ''end_port'' Null (add_col ''start_port'' Null r)"
  let ?g = "\<lambda>r. copy_col ''start_port'' ''port'' (?f r)"
  have t: "column_names t = v1_names" "uniques t = [[''id''], [''group_id'', ''port'', ''protocol'']]"
    "list_all v1_row (rows t)" using assms(1) by (auto simp: v1_table_def)
  have new: "''start_port'' \<notin> set (column_names t)" "''end_port'' \<notin> set (column_names t)" "''port'' \<in> set (column_names t)"
    by (auto simp: t v1_names_def)
  have keys: "set key \<subseteq> set v1_names" if "key \<in> set (uniques t)" for key
    using that by (auto simp: t v1_names_def)
  have u: "unique_key key (map ?g (rows t))" "unique_key key (map with_range (rows t))" if "key \<in> set (uniques t)" for key
    using that assms(1) v1_clash [OF _ _ keys [OF that]]
    by (auto simp: v1_table_def list_all_iff intro!: unique_key_map [where key = key and Q = v1_row])
  have final: "map (\<lambda>x. copy_col ''end_port'' ''port'' (?g x)) (rows t) = map with_range (rows t)"
    using t(3) copied_rows by (auto simp: list_all_iff)
  let ?D = "''destinations''"
  let ?t1 = "t\<lparr>columns := columns t @ [(''start_port'', IntType)], rows := map (add_col ''start_port'' Null) (rows t)\<rparr>"
  let ?t2 = "t\<lparr>columns := columns t @ [(''start_port'', IntType), (''end_port'', IntType)], rows := map ?f (rows t)\<rparr>"
  let ?t3 = "t\<lparr>columns := columns t @ [(''start_port'', IntType), (''end_port'', IntType)], rows := map ?g (rows t)\<rparr>"
  let ?t4 = "t\<lparr>columns := columns t @ [(''start_port'', IntType), (''end_port'', IntType)], rows := map with_range (rows t)\<rparr>"
  let ?db = "\<lambda>t. db\<lparr>tabs := put ?D t (tabs db)\<rparr>"
  have "exec_stmt (AddColumn ?D ''start_port'' IntType Null) db = Inr (?db ?t1)"
    by (simp only: exec_AddColumn [OF db new(1)])
  moreover have "exec_stmt (AddColumn ?D ''end_port'' IntType Null) (?db ?t1) = Inr (?db ?t2)"
    using exec_AddColumn [of "?db ?t1" ?D ?t1 "''end_port''" IntType Null] new db
    by (simp add: map_of_put comp_def column_names_def del: exec_stmt.simps)
  moreover have "exec_stmt (UpdateSet ?D ''start_port'' ''port'') (?db ?t2) = Inr (?db ?t3)"
    using exec_UpdateSet [of "?db ?t2" ?D ?t2 "''start_port''" "''port''"] db u(1) new(3)
    by (simp add: map_of_put list_all_iff comp_def column_names_def del: exec_stmt.simps)
  moreover have "exec_stmt (UpdateSet ?D ''end_port'' ''port'') (?db ?t3) = Inr (?db ?t4)"
    using exec_UpdateSet [of "?db ?t3" ?D ?t3 "''end_port''" "''port''"] db u(2) new(3)
    by (simp add: map_of_put list_all_iff comp_def final column_names_def del: exec_stmt.simps)
  ultimately show ?thesis by (simp del: exec_stmt.simps)
qed

lemma exec_stmts_append:
  "exec_stmts (xs @ ys) db = (case exec_stmts xs db of Inl e \<Rightarrow> Inl e | Inr db' \<Rightarrow> exec_stmts ys db')"
  by (induction xs arbitrary: db) (auto split: sum.splits)

lemma v0002_constraints:
  assumes db: "map_of (tabs db) ''destinations'' = Some t" "procedures db = []" "d = ''mysql'' \<or> d = ''postgres''"
    and t: "uniques t = [[''id''], [''group_id'', ''port'', ''protocol'']]"
      "unique_key [''group_id'', ''start_port'', ''end_port'', ''protocol''] (rows t)"
      "{''group_id'', ''start_port'', ''end_port'', ''protocol''} \<subseteq> set (column_names t)"
  shows "\<exists>db'. exec_stmts (drop 4 (the (map_of migration_v0002 d))) db = Inr db' \<and> tabs db' =
     put ''destinations'' (t\<lparr>uniques := [[''id''], [''group_id'', ''start_port'', ''end_port'', ''protocol'']]\<rparr>) (tabs db)"
  using db(3)
proof
  assume "d = ''mysql''"
  moreover have "alter ''destinations'' (drop_one_unique ''port'') (tabs db) =
      Inr (put ''destinations'' (t\<lparr>uniques := [[''id'']]\<rparr>) (tabs db))"
    by (rule alter_put [OF db(1)]) (simp add: drop_one_unique_def t)
  ultimately show ?thesis
    using db t by (simp add: migration_v0002_def column_names_def alter_put [where t = "t\<lparr>uniques := [[''id'']]\<rparr>"] map_of_put)
next
  assume "d = ''postgres''"
  then show ?thesis
    using db t by (simp add: migration_v0002_def column_names_def alter_put [OF db(1)] alter_put [where t = "t\<lparr>uniques := [[''id'']]\<rparr>"] map_of_put)
qed

lemma v0002_prefix:
  "d = ''mysql'' \<or> d = ''postgres'' \<Longrightarrow> the (map_of migration_v0002 d) =
     [AddColumn ''destinations'' ''start_port'' IntType Null, AddColumn ''destinations'' ''end_port'' IntType Null,
      UpdateSet ''destinations'' ''start_port'' ''port'', UpdateSet ''destinations'' ''end_port'' ''port'']
     @ drop 4 (the (map_of migration_v0002 d))"
  by (auto simp: migration_v0002_def)

subsection \<open>Properties\<close>

text \<open>C23. Migration 2 upgrades every well-formed version-1 database, in both dialects: each destination
  row keeps its columns and gets \<^verbatim>\<open>start_port\<close> and \<^verbatim>\<open>end_port\<close> equal to its \<^verbatim>\<open>port\<close>, the old unique key on
  the port is replaced by the one on the range, which the upgraded rows satisfy, and no other table
  changes.\<close>

theorem upgrade_v0002:
  assumes "v1_table t" "map_of (tabs db) ''destinations'' = Some t" "procedures db = []"
    and "d = ''mysql'' \<or> d = ''postgres''"
  shows "\<exists>db'. exec_stmts (the (map_of migration_v0002 d)) db = Inr db' \<and>
     map_of (tabs db') = (map_of (tabs db))(''destinations'' \<mapsto> v2_table t) \<and>
     unique_key [''group_id'', ''start_port'', ''end_port'', ''protocol''] (rows (v2_table t))"
proof -
  let ?t = "t\<lparr>columns := columns t @ [(''start_port'', IntType), (''end_port'', IntType)], rows := map with_range (rows t)\<rparr>"
  let ?db = "db\<lparr>tabs := put ''destinations'' ?t (tabs db)\<rparr>"
  have u: "unique_key [''group_id'', ''start_port'', ''end_port'', ''protocol''] (rows ?t)" using v2_unique [OF assms(1)] by simp
  have names: "{''group_id'', ''start_port'', ''end_port'', ''protocol''} \<subseteq> set (column_names ?t)"
    using assms(1) by (auto simp: v1_table_def column_names_def v1_names_def)
  have "uniques ?t = [[''id''], [''group_id'', ''port'', ''protocol'']]" using assms(1) by (simp add: v1_table_def)
  moreover have "?t\<lparr>uniques := [[''id''], [''group_id'', ''start_port'', ''end_port'', ''protocol'']]\<rparr> = v2_table t"
    by (cases t) (simp add: v2_table_def)
  ultimately obtain db' where db': "exec_stmts (drop 4 (the (map_of migration_v0002 d))) ?db = Inr db'"
    "tabs db' = put ''destinations'' (v2_table t) (tabs db)"
    using v0002_constraints [of ?db ?t d] assms u names by (auto simp: map_of_put)
  have "exec_stmts (the (map_of migration_v0002 d)) db = Inr db'"
    by (subst v0002_prefix [OF assms(4)]) (simp only: exec_stmts_append v0002_rows [OF assms(1,2)] sum.case db')
  then show ?thesis using db' u assms(2) by (auto simp: map_of_put fun_eq_iff v2_table_def)
qed

definition v1_demo :: database where
  "v1_demo = \<lparr>tabs = [(''groups'', \<lparr>columns = [(''id'', Serial), (''guid'', Varchar 255)], uniques = [[''id''], [''guid'']], rows = []\<rparr>),
     (''destinations'', \<lparr>columns = [(''id'', Serial), (''group_id'', IntType), (''port'', IntType), (''protocol'', Varchar 255)], uniques = [[''id''], [''group_id'', ''port'', ''protocol'']],
        rows = [[(''id'', IntV 1), (''group_id'', IntV 7), (''port'', IntV 80), (''protocol'', TextV ''tcp'')],
                [(''id'', IntV 2), (''group_id'', IntV 7), (''port'', IntV 81), (''protocol'', TextV ''tcp'')]]\<rparr>)],
     procedures = [], indexes = []\<rparr>"

theorem upgrade_v0002_witness:
  "\<exists>db'. exec_stmts (the (map_of migration_v0002 ''mysql'')) v1_demo = Inr db' \<and>
     map (\<lambda>r. (cell r ''start_port'', cell r ''end_port'')) (rows (the (map_of (tabs db') ''destinations''))) =
       [(IntV 80, IntV 80), (IntV 81, IntV 81)]"
proof -
  let ?t = "the (map_of (tabs v1_demo) ''destinations'')"
  have "v1_table ?t" "map_of (tabs v1_demo) ''destinations'' = Some ?t" "procedures v1_demo = []" by code_simp+
  from upgrade_v0002 [OF this, of "''mysql''"] obtain db' where "exec_stmts (the (map_of migration_v0002 ''mysql'')) v1_demo = Inr db'"
    "map_of (tabs db') ''destinations'' = Some (v2_table ?t)" by auto
  then show ?thesis by (simp add: v2_table_def v1_demo_def with_range_def cell_def)
qed

text \<open>\<open>PerformMigrations\<close> accepts exactly the two supported drivers: for any other it fails without
  touching the database; for these it hands the three migrations to the library in order, upwards,
  and reports the library's count and error.\<close>

theorem PerformMigrations_spec:
  "PerformMigrations lib d db mx =
     (if d = ''mysql'' \<or> d = ''postgres''
      then (case lib db d [(''1'', the (map_of migration_v0001 d)), (''2'', the (map_of migration_v0002 d)),
                          (''3'', the (map_of migration_v0003 d))] Up_dir mx of
              ((n, e), db') \<Rightarrow> ((n, map_option (Errorf ''executing migration: '') e), db'))
      else ((0, Some (ErrText (''unsupported driver: '' @ d))), db))"
proof (cases "d = ''mysql'' \<or> d = ''postgres''")
  case True
  then have "ForDriver d MigrationsToPerform = [(''1'', the (map_of migration_v0001 d)), (''2'', the (map_of migration_v0002 d)),
                          (''3'', the (map_of migration_v0003 d))]"
    by (auto simp: ForDriver_def forDriver_def MigrationsToPerform_def migration_v0001_def migration_v0002_def migration_v0003_def)
  with True show ?thesis
    by (auto simp: PerformMigrations_def supports_iff ExecMax_def split: prod.splits option.splits)
qed (simp add: PerformMigrations_def supports_iff)

definition empty_database :: database where
  "empty_database = \<lparr>tabs = [], procedures = [], indexes = []\<rparr>"

definition outline :: "database \<Rightarrow> (string \<times> string list \<times> string list list) list \<times> (string \<times> string \<times> string) list" where
  "outline db = (map (\<lambda>(n, t). (n, column_names t, uniques t)) (tabs db), indexes db)"

definition all_statements :: "string \<Rightarrow> migration_stmt list" where
  "all_statements d = concat (map snd (ForDriver d MigrationsToPerform))"

text \<open>On an empty database both dialects' migrations succeed and build the same three tables with
  the same columns, unique keys and index.\<close>

theorem fresh_schema:
  "list_all (\<lambda>d. map_sum id outline (exec_stmts (all_statements d) empty_database) = Inr
     ([(''groups'', [''id'', ''guid'', ''type''], [[''id''], [''guid'']]),
       (''destinations'', [''id'', ''group_id'', ''port'', ''protocol'', ''start_port'', ''end_port''],
          [[''id''], [''group_id'', ''start_port'', ''end_port'', ''protocol'']]),
       (''policies'', [''id'', ''group_id'', ''destination_id''], [[''id''], [''group_id'', ''destination_id'']])],
      [(''idx_type'', ''groups'', ''type'')])) [''mysql'', ''postgres'']"
  by code_simp

end
