(* ===== verification/Migration_Types.thy ===== *)
theory Migration_Types
  imports Migrations
begin

text \<open>
  A type system for the statements of the migrations. A schema lists the tables with their typed
  columns and the procedures; \<open>check_stmt\<close> decides whether a statement makes sense for a schema and
  what the schema is afterwards. Types are sound for the execution of the theory \<^verbatim>\<open>Migrations\<close>: a
  statement that is well-typed keeps the rows well-typed, and fails only for reasons in the data.
\<close>

record schema =
  s_tabs :: "(string \<times> (string \<times> sql_type) list) list"
  s_procs :: "(string \<times> string \<times> string) list"

subsection \<open>Values, rows and tables\<close>

fun has_type :: "sql_value \<Rightarrow> sql_type \<Rightarrow> bool" where
  "has_type (IntV i) Serial = (- (2 ^ 31) \<le> i \<and> i < 2 ^ 31)"
| "has_type (IntV i) IntType = (- (2 ^ 31) \<le> i \<and> i < 2 ^ 31)"
| "has_type (TextV s) (Varchar n) = (length s \<le> n)"
| "has_type (TextV s) TextType = True"
| "has_type Null ty = (ty \<noteq> Serial)"
| "has_type v ty = False"

text \<open>Every value of the first type is a value of the second.\<close>

fun assignable :: "sql_type \<Rightarrow> sql_type \<Rightarrow> bool" where
  "assignable Serial IntType = True"
| "assignable (Varchar n) (Varchar m) = (n \<le> m)"
| "assignable (Varchar n) TextType = True"
| "assignable ty ty' = (ty = ty')"

definition row_ok :: "(string \<times> sql_type) list \<Rightarrow> sql_row \<Rightarrow> bool" where
  "row_ok cs r = list_all2 (\<lambda>(c, ty) (c', v). c = c' \<and> has_type v ty) cs r"

definition typed_table :: "sql_table \<Rightarrow> bool" where
  "typed_table t \<longleftrightarrow> distinct (column_names t) \<and> list_all (row_ok (columns t)) (rows t) \<and>
     list_all (\<lambda>key. set key \<subseteq> set (column_names t) \<and> unique_key key (rows t)) (uniques t)"

definition conforms :: "schema \<Rightarrow> database \<Rightarrow> bool" where
  "conforms S db \<longleftrightarrow> s_tabs S = map (\<lambda>(n, t). (n, columns t)) (tabs db) \<and> s_procs S = procedures db \<and> list_all (typed_table \<circ> snd) (tabs db)"

subsection \<open>Checking statements\<close>

definition ill_typed :: go_error where
  "ill_typed = ErrText ''ill-typed''"

definition check_col :: "bool \<Rightarrow> 'a \<Rightarrow> 'a result" where
  "check_col b x = (if b then Inr x else Inl ill_typed)"

definition on_table :: "schema \<Rightarrow> string \<Rightarrow> ((string \<times> sql_type) list \<Rightarrow> (string \<times> sql_type) list result) \<Rightarrow> schema result" where
  "on_table S name f = map_sum id (\<lambda>ts. S\<lparr>s_tabs := ts\<rparr>) (alter name f (s_tabs S))"

fun check_stmt :: "schema \<Rightarrow> migration_stmt \<Rightarrow> schema result" where
  "check_stmt S (CreateTable name cs us) =
     (if map_of (s_tabs S) name \<noteq> None then Inr S
      else check_col (distinct (map fst cs) \<and> list_all (\<lambda>key. set key \<subseteq> set (map fst cs)) us) (S\<lparr>s_tabs := s_tabs S @ [(name, cs)]\<rparr>))"
| "check_stmt S (AddColumn name col ty v) = on_table S name (\<lambda>cs. check_col (col \<notin> set (map fst cs) \<and> has_type v ty) (cs @ [(col, ty)]))"
| "check_stmt S (UpdateSet name col src) = on_table S name (\<lambda>cs. case (map_of cs col, map_of cs src) of
       (Some ty, Some ty') \<Rightarrow> check_col (assignable ty' ty) cs | _ \<Rightarrow> Inl ill_typed)"
| "check_stmt S (CreateDropProcedure p name col) = check_col (map_of (s_procs S) p = None) (S\<lparr>s_procs := (p, name, col) # s_procs S\<rparr>)"
| "check_stmt S (CallProcedure p) = (case map_of (s_procs S) p of
       None \<Rightarrow> Inl ill_typed | Some (name, col) \<Rightarrow> on_table S name (\<lambda>cs. check_col (col \<in> set (map fst cs)) cs))"
| "check_stmt S (DropConstraintsOn name col) = on_table S name (\<lambda>cs. check_col (col \<in> set (map fst cs)) cs)"
| "check_stmt S (AddUnique name key) = on_table S name (\<lambda>cs. check_col (set key \<subseteq> set (map fst cs)) cs)"
| "check_stmt S (CreateIndex i name col) = on_table S name (\<lambda>cs. check_col (col \<in> set (map fst cs)) cs)"

fun check_stmts :: "schema \<Rightarrow> migration_stmt list \<Rightarrow> schema result" where
  "check_stmts S [] = Inr S"
| "check_stmts S (s # ss) = (case check_stmt S s of Inl e \<Rightarrow> Inl e | Inr S' \<Rightarrow> check_stmts S' ss)"

text \<open>The failures that depend on the rows and keys of a database.\<close>

definition data_error :: "go_error \<Rightarrow> bool" where
  "data_error e \<longleftrightarrow> e \<in> {DriverError ''duplicate key'', DriverError ''drop index''}"

subsection \<open>Rows\<close>

lemma assignable_sound: "assignable ty ty' \<Longrightarrow> has_type v ty \<Longrightarrow> has_type v ty'"
  by (cases ty; cases ty'; cases v) auto

lemma row_ok_fst: "row_ok cs r \<Longrightarrow> map fst r = map fst cs"
  unfolding row_ok_def by (induction rule: list_all2_induct) auto

lemma row_ok_cell: "row_ok cs r \<Longrightarrow> distinct (map fst cs) \<Longrightarrow> map_of cs c = Some ty \<Longrightarrow> has_type (cell r c) ty"
  unfolding row_ok_def
proof (induction rule: list_all2_induct)
  case (Cons x xs y ys)
  then show ?case by (auto simp: cell_def split: if_splits prod.splits)
qed simp

lemma row_ok_append: "row_ok cs r \<Longrightarrow> has_type v ty \<Longrightarrow> row_ok (cs @ [(c, ty)]) (r @ [(c, v)])"
  by (auto simp: row_ok_def intro: list_all2_appendI)

lemma row_ok_update:
  assumes "row_ok cs r" "distinct (map fst cs)" "map_of cs c = Some ty" "has_type v ty"
  shows "row_ok cs (map (\<lambda>(c', v'). if c' = c then (c', v) else (c', v')) r)"
  using assms unfolding row_ok_def
proof (induction rule: list_all2_induct)
  case (Cons x xs y ys)
  have "list_all2 (\<lambda>(c, ty) (c', v). c = c' \<and> has_type v ty) xs (map (\<lambda>(c', v'). if c' = c then (c', v) else (c', v')) ys)"
    if "c \<notin> set (map fst xs)"
    using Cons(2) that by (induction rule: list_all2_induct) (auto split: prod.splits)
  with Cons show ?case by (auto split: prod.splits if_splits)
qed simp

lemma cell_append:
  assumes "row_ok cs r" "c \<in> set (map fst cs)"
  shows "cell (r @ [(c', v)]) c = cell r c"
proof -
  have "c \<in> fst ` set r" using row_ok_fst [OF assms(1)] assms(2) by (metis set_map)
  then obtain x where "map_of r c = Some x" by (metis map_of_eq_None_iff not_None_eq)
  then show ?thesis by (simp add: cell_def)
qed

lemma unique_key_append:
  assumes "unique_key key rs" "list_all (row_ok cs) rs" "set key \<subseteq> set (map fst cs)"
  shows "unique_key key (map (\<lambda>r. r @ [(c, v)]) rs)"
proof (rule unique_key_map [OF assms(1,2)])
  fix r r' assume r: "row_ok cs r" "row_ok cs r'" and c: "clash key (r @ [(c, v)]) (r' @ [(c, v)])"
  have "cell (q @ [(c, v)]) col = cell q col" if "row_ok cs q" "col \<in> set key" for q col
    using cell_append [OF that(1)] that(2) assms(3) by blast
  with r c show "clash key r r'" by (auto simp: clash_def list_all_iff)
qed

subsection \<open>Statements\<close>

text \<open>A change of a table that a change of its columns describes.\<close>

definition typed_change :: "((string \<times> sql_type) list \<Rightarrow> (string \<times> sql_type) list result) \<Rightarrow> (sql_table \<Rightarrow> sql_table result) \<Rightarrow> bool" where
  "typed_change g f \<longleftrightarrow> (\<forall>t cs. typed_table t \<longrightarrow> g (columns t) = Inr cs \<longrightarrow>
     (case f t of Inl e \<Rightarrow> data_error e | Inr t' \<Rightarrow> columns t' = cs \<and> typed_table t'))"

lemma alter_typed:
  assumes "typed_change g f" "list_all (typed_table \<circ> snd) ts" "alter name g (map (\<lambda>(n, t). (n, columns t)) ts) = Inr cts"
  shows "case alter name f ts of Inl e \<Rightarrow> data_error e | Inr ts' \<Rightarrow> map (\<lambda>(n, t). (n, columns t)) ts' = cts \<and> list_all (typed_table \<circ> snd) ts'"
  using assms(2,3)
proof (induction ts arbitrary: cts)
  case (Cons nt ts)
  obtain n t where nt: "nt = (n, t)" by fastforce
  show ?case
  proof (cases "n = name")
    case True
    with Cons.prems nt obtain cs where cs: "g (columns t) = Inr cs" "cts = (n, cs) # map (\<lambda>(n, t). (n, columns t)) ts"
      by (auto split: sum.splits)
    have "typed_table t" using Cons.prems(1) nt by simp
    with assms(1) cs(1) have "case f t of Inl e \<Rightarrow> data_error e | Inr t' \<Rightarrow> columns t' = cs \<and> typed_table t'"
      unfolding typed_change_def by blast
    with Cons.prems(1) cs(2) nt True show ?thesis by (cases "f t") (simp_all add: comp_def)
  next
    case False
    with Cons.prems nt obtain cts' where "alter name g (map (\<lambda>(n, t). (n, columns t)) ts) = Inr cts'" "cts = (n, columns t) # cts'"
      by (auto split: sum.splits)
    with Cons.IH [of cts'] Cons.prems(1) nt False show ?thesis by (auto simp: comp_def split: sum.splits)
  qed
qed simp

lemma check_col_Inr [simp]: "check_col b x = Inr y \<longleftrightarrow> b \<and> x = y"
  by (simp add: check_col_def)

lemma typed_AddColumn:
  "typed_change (\<lambda>cs. check_col (col \<notin> set (map fst cs) \<and> has_type v ty) (cs @ [(col, ty)]))
     (\<lambda>t. if col \<in> set (column_names t) then Inl (DriverError ''duplicate column'')
        else Inr (t\<lparr>columns := columns t @ [(col, ty)], rows := map (\<lambda>r. r @ [(col, v)]) (rows t)\<rparr>))"
  unfolding typed_change_def
proof (intro allI impI)
  fix t cs assume t: "typed_table t" and "check_col (col \<notin> set (map fst (columns t)) \<and> has_type v ty) (columns t @ [(col, ty)]) = Inr cs"
  then have c: "col \<notin> set (column_names t)" "has_type v ty" "cs = columns t @ [(col, ty)]" by (auto simp: column_names_def)
  have "unique_key key (map (\<lambda>r. r @ [(col, v)]) (rows t))" if "key \<in> set (uniques t)" for key
    by (rule unique_key_append [where cs = "columns t"]) (use t that in \<open>auto simp: typed_table_def list_all_iff column_names_def\<close>)
  with t c show "case if col \<in> set (column_names t) then Inl (DriverError ''duplicate column'')
        else Inr (t\<lparr>columns := columns t @ [(col, ty)], rows := map (\<lambda>r. r @ [(col, v)]) (rows t)\<rparr>) of
      Inl e \<Rightarrow> data_error e | Inr t' \<Rightarrow> columns t' = cs \<and> typed_table t'"
    by (auto simp: typed_table_def column_names_def list_all_iff row_ok_append)
qed

lemma typed_UpdateSet:
  "typed_change (\<lambda>cs. case (map_of cs col, map_of cs src) of
       (Some ty, Some ty') \<Rightarrow> check_col (assignable ty' ty) cs | _ \<Rightarrow> Inl ill_typed)
     (\<lambda>t. let rs = map (\<lambda>r. map (\<lambda>(c, v). if c = col then (c, cell r src) else (c, v)) r) (rows t) in
        if col \<notin> set (column_names t) \<or> src \<notin> set (column_names t) then Inl (DriverError ''no such column'')
        else if list_all (\<lambda>key. unique_key key rs) (uniques t) then Inr (t\<lparr>rows := rs\<rparr>)
        else Inl (DriverError ''duplicate key''))"
  unfolding typed_change_def
proof (intro allI impI)
  fix t cs assume t: "typed_table t" and "(case (map_of (columns t) col, map_of (columns t) src) of
       (Some ty, Some ty') \<Rightarrow> check_col (assignable ty' ty) (columns t) | _ \<Rightarrow> Inl ill_typed) = Inr cs"
  then obtain ty ty' where ty: "map_of (columns t) col = Some ty" "map_of (columns t) src = Some ty'" "assignable ty' ty" "cs = columns t"
    by (auto split: option.splits)
  then have names: "col \<in> set (column_names t)" "src \<in> set (column_names t)"
    by (force simp: column_names_def dest: map_of_SomeD)+
  have "row_ok (columns t) (map (\<lambda>(c, v). if c = col then (c, cell r src) else (c, v)) r)" if "r \<in> set (rows t)" for r
    using t that row_ok_update [OF _ _ ty(1) assignable_sound [OF ty(3) row_ok_cell [OF _ _ ty(2)]]]
    by (auto simp: typed_table_def column_names_def list_all_iff)
  with t names show "case let rs = map (\<lambda>r. map (\<lambda>(c, v). if c = col then (c, cell r src) else (c, v)) r) (rows t) in
        if col \<notin> set (column_names t) \<or> src \<notin> set (column_names t) then Inl (DriverError ''no such column'')
        else if list_all (\<lambda>key. unique_key key rs) (uniques t) then Inr (t\<lparr>rows := rs\<rparr>)
        else Inl (DriverError ''duplicate key'') of Inl e \<Rightarrow> data_error e | Inr t' \<Rightarrow> columns t' = cs \<and> typed_table t'"
    by (auto simp: Let_def data_error_def typed_table_def column_names_def list_all_iff ty(4))
qed

lemma typed_AddUnique:
  "typed_change (\<lambda>cs. check_col (set key \<subseteq> set (map fst cs)) cs)
     (\<lambda>t. if \<not> set key \<subseteq> set (column_names t) then Inl (DriverError ''no such column'')
        else if unique_key key (rows t) then Inr (t\<lparr>uniques := uniques t @ [key]\<rparr>) else Inl (DriverError ''duplicate key''))"
  by (auto simp: typed_change_def typed_table_def column_names_def data_error_def)

lemma typed_drop:
  "typed_change (\<lambda>cs. check_col (col \<in> set (map fst cs)) cs) (\<lambda>t. Inr (t\<lparr>uniques := filter (\<lambda>key. col \<notin> set key) (uniques t)\<rparr>))"
  "typed_change (\<lambda>cs. check_col (col \<in> set (map fst cs)) cs) (drop_one_unique col)"
  by (auto simp: typed_change_def typed_table_def column_names_def data_error_def drop_one_unique_def list_all_iff)

lemma on_table_typed:
  assumes "typed_change g f" "conforms S db" "on_table S name g = Inr S'"
  shows "case map_sum id (\<lambda>ts. db\<lparr>tabs := ts\<rparr>) (alter name f (tabs db)) of Inl e \<Rightarrow> data_error e | Inr db' \<Rightarrow> conforms S' db'"
proof -
  from assms(3) obtain cts where cts: "alter name g (s_tabs S) = Inr cts" "S' = S\<lparr>s_tabs := cts\<rparr>"
    by (cases "alter name g (s_tabs S)") (auto simp: on_table_def)
  with alter_typed [OF assms(1), of "tabs db" name cts] assms(2) show ?thesis
    by (auto simp: conforms_def split: sum.splits)
qed

lemma alter_guard: "alter name (\<lambda>x. check_col (P x) x) ts = Inr ts' \<Longrightarrow> ts' = ts \<and> (\<exists>x. map_of ts name = Some x \<and> P x)"
  by (induction ts arbitrary: ts') (auto split: if_splits sum.splits)

lemma check_stmt_sound:
  assumes "conforms S db" "check_stmt S st = Inr S'"
  shows "case exec_stmt st db of Inl e \<Rightarrow> data_error e | Inr db' \<Rightarrow> conforms S' db'"
proof (cases st)
  case (CreateTable name cs us)
  have "map_of (s_tabs S) name = None \<longleftrightarrow> map_of (tabs db) name = None"
    using assms(1) by (auto simp: conforms_def map_of_eq_None_iff image_image split_beta)
  then show ?thesis using assms CreateTable
    by (auto simp: conforms_def typed_table_def column_names_def list_all_iff split: if_splits)
next
  case (AddColumn name col ty v)
  then show ?thesis using on_table_typed [OF typed_AddColumn assms(1)] assms(2) by simp
next
  case (UpdateSet name col src)
  then show ?thesis using on_table_typed [OF typed_UpdateSet assms(1)] assms(2) by simp
next
  case (CreateDropProcedure p name col)
  then show ?thesis using assms by (auto simp: conforms_def)
next
  case (CallProcedure p)
  with assms obtain name col where p: "map_of (procedures db) p = Some (name, col)"
    "on_table S name (\<lambda>cs. check_col (col \<in> set (map fst cs)) cs) = Inr S'"
    by (auto simp: conforms_def split: option.splits)
  then show ?thesis using on_table_typed [OF typed_drop(2) assms(1)] CallProcedure by simp
next
  case (DropConstraintsOn name col)
  then show ?thesis using on_table_typed [OF typed_drop(1) assms(1)] assms(2) by simp
next
  case (AddUnique name key)
  then show ?thesis using on_table_typed [OF typed_AddUnique assms(1)] assms(2) by simp
next
  case (CreateIndex i name col)
  have same: "on_table S name (\<lambda>cs. check_col (col \<in> set (map fst cs)) cs) = Inr S' \<Longrightarrow>
      S' = S \<and> (\<exists>cs. map_of (s_tabs S) name = Some cs \<and> col \<in> set (map fst cs))"
    by (cases "alter name (\<lambda>cs. check_col (col \<in> set (map fst cs)) cs) (s_tabs S)") (auto simp: on_table_def dest!: alter_guard)
  with CreateIndex assms obtain cs where "S' = S" "map_of (s_tabs S) name = Some cs" "col \<in> set (map fst cs)" by auto
  moreover from this obtain t where "map_of (tabs db) name = Some t" "cs = columns t"
    using assms(1) by (auto simp: conforms_def map_of_map)
  ultimately show ?thesis using assms CreateIndex by (auto simp: conforms_def column_names_def)
qed

lemma check_stmts_sound:
  "conforms S db \<Longrightarrow> check_stmts S ss = Inr S' \<Longrightarrow> case exec_stmts ss db of Inl e \<Rightarrow> data_error e | Inr db' \<Rightarrow> conforms S' db'"
proof (induction ss arbitrary: S db)
  case (Cons st ss)
  then obtain S1 where S1: "check_stmt S st = Inr S1" "check_stmts S1 ss = Inr S'" by (auto split: sum.splits)
  from check_stmt_sound [OF Cons.prems(1) S1(1)] Cons.IH [OF _ S1(2)] show ?case by (cases "exec_stmt st db") simp_all
qed simp

subsection \<open>Properties\<close>

text \<open>The schema that the migrations build.\<close>

definition final_schema :: "string \<Rightarrow> schema" where
  "final_schema d = \<lparr>s_tabs =
     [(''groups'', [(''id'', Serial), (''guid'', string_type d), (''type'', string_type d)]),
      (''destinations'', [(''id'', Serial), (''group_id'', IntType), (''port'', IntType), (''protocol'', string_type d),
         (''start_port'', IntType), (''end_port'', IntType)]),
      (''policies'', [(''id'', Serial), (''group_id'', IntType), (''destination_id'', IntType)])],
     s_procs = (if d = ''mysql'' then [(''drop_destination_index'', ''destinations'', ''port'')] else [])\<rparr>"

definition v1_schema :: "string \<Rightarrow> schema" where
  "v1_schema d = \<lparr>s_tabs = [(''groups'', [(''id'', Serial), (''guid'', string_type d)]),
      (''destinations'', [(''id'', Serial), (''group_id'', IntType), (''port'', IntType), (''protocol'', string_type d)]),
      (''policies'', [(''id'', Serial), (''group_id'', IntType), (''destination_id'', IntType)])], s_procs = []\<rparr>"

lemma migrations_check:
  "d = ''mysql'' \<or> d = ''postgres'' \<Longrightarrow> check_stmts \<lparr>s_tabs = [], s_procs = []\<rparr> (all_statements d) = Inr (final_schema d)"
  "d = ''mysql'' \<or> d = ''postgres'' \<Longrightarrow> check_stmts (v1_schema d) (all_statements d) = Inr (final_schema d)"
proof -
  have "check_stmts \<lparr>s_tabs = [], s_procs = []\<rparr> (all_statements ''mysql'') = Inr (final_schema ''mysql'')"
    "check_stmts \<lparr>s_tabs = [], s_procs = []\<rparr> (all_statements ''postgres'') = Inr (final_schema ''postgres'')"
    "check_stmts (v1_schema ''mysql'') (all_statements ''mysql'') = Inr (final_schema ''mysql'')"
    "check_stmts (v1_schema ''postgres'') (all_statements ''postgres'') = Inr (final_schema ''postgres'')"
    by code_simp+
  then show "d = ''mysql'' \<or> d = ''postgres'' \<Longrightarrow> check_stmts \<lparr>s_tabs = [], s_procs = []\<rparr> (all_statements d) = Inr (final_schema d)"
    "d = ''mysql'' \<or> d = ''postgres'' \<Longrightarrow> check_stmts (v1_schema d) (all_statements d) = Inr (final_schema d)" by auto
qed

text \<open>C40. The migrations are well-typed in both dialects, whether the database is empty or has the tables
  of version 1, and types are sound: on a database that conforms to the schema before them, the
  migrations never meet a missing table, column or procedure. They end with rows that conform to
  the final schema, with 32-bit numbers, texts of at most 255 bytes on MySQL and keys that hold, or
  fail because of duplicate keys or constraints in the data.\<close>

theorem migrations_type_sound:
  assumes "d = ''mysql'' \<or> d = ''postgres''" "conforms \<lparr>s_tabs = [], s_procs = []\<rparr> db \<or> conforms (v1_schema d) db"
  shows "case exec_stmts (all_statements d) db of
      Inr db' \<Rightarrow> conforms (final_schema d) db'
    | Inl e \<Rightarrow> e \<in> {DriverError ''duplicate key'', DriverError ''drop index''}"
  using assms(2) check_stmts_sound [OF _ migrations_check(1) [OF assms(1)], of db]
    check_stmts_sound [OF _ migrations_check(2) [OF assms(1)], of db]
  by (auto simp: data_error_def split: sum.splits)

definition v1_typed_demo :: database where
  "v1_typed_demo = v1_demo\<lparr>tabs := tabs v1_demo @
     [(''policies'', \<lparr>columns = [(''id'', Serial), (''group_id'', IntType), (''destination_id'', IntType)],
        uniques = [[''id''], [''group_id'', ''destination_id'']], rows = []\<rparr>)]\<rparr>"

theorem migrations_type_sound_witness:
  "case exec_stmts (all_statements ''mysql'') v1_typed_demo of Inr db' \<Rightarrow> conforms (final_schema ''mysql'') db'
    | Inl e \<Rightarrow> e \<in> {DriverError ''duplicate key'', DriverError ''drop index''}"
proof (rule migrations_type_sound)
  have "conforms (v1_schema ''mysql'') v1_typed_demo"
    by (simp add: conforms_def v1_schema_def v1_typed_demo_def v1_demo_def typed_table_def column_names_def row_ok_def clash_def cell_def string_type_def)
  then show "conforms \<lparr>s_tabs = [], s_procs = []\<rparr> v1_typed_demo \<or> conforms (v1_schema ''mysql'') v1_typed_demo" ..
qed simp

end
