(* ===== verification/IPTables_Rules.thy ===== *)
theory IPTables_Rules
  imports Go_Prelude
begin

text \<open>
  \<^verbatim>\<open>lib/rules\<close>: the iptables rules of the release as argument lists (\<^verbatim>\<open>rules.go\<close>), and the adapter
  that runs every iptables command under a file lock (\<^verbatim>\<open>locked_iptables.go\<close>). The library
  \<^verbatim>\<open>go-iptables\<close>, the \<^verbatim>\<open>iptables-restore\<close> program and the file lock are parameters: functions on a
  kernel state the development leaves open, and the outcomes of the next lock operations.
\<close>

subsection \<open>Rules\<close>

type_synonym IPTablesRule = "string list"

definition AppendComment :: "IPTablesRule \<Rightarrow> string \<Rightarrow> IPTablesRule" where
  "AppendComment rule comment =
     rule @ [''-m'', ''comment'', ''--comment'', replace_char (CHR '' '') (CHR ''_'') comment]"

definition trimAndPad :: "string \<Rightarrow> string" where
  "trimAndPad name = (let name = (if length name > 28 then take 28 name else name) in
     [CHR 0x22] @ name @ '' '' @ [CHR 0x22])"

definition port_range :: "int \<Rightarrow> int \<Rightarrow> string" where
  "port_range startPort endPort = itoa startPort @ '':'' @ itoa endPort"

definition NewPortForwardingRule :: "int \<Rightarrow> int \<Rightarrow> string \<Rightarrow> string \<Rightarrow> IPTablesRule" where
  "NewPortForwardingRule hostPort containerPort hostIP containerIP =
     [''-d'', hostIP, ''-p'', ''tcp'',
      ''-m'', ''tcp'', ''--dport'', itoa hostPort,
      ''--jump'', ''DNAT'',
      ''--to-destination'', containerIP @ '':'' @ itoa containerPort]"

definition NewIngressMarkRule :: "string \<Rightarrow> int \<Rightarrow> string \<Rightarrow> string \<Rightarrow> IPTablesRule" where
  "NewIngressMarkRule hostInterface hostPort hostIP tag =
     [''-i'', hostInterface, ''-d'', hostIP, ''-p'', ''tcp'',
      ''-m'', ''tcp'', ''--dport'', itoa hostPort,
      ''--jump'', ''MARK'',
      ''--set-mark'', ''0x'' @ tag]"

definition NewMarkAllowRule ::
  "string \<Rightarrow> string \<Rightarrow> int \<Rightarrow> int \<Rightarrow> string \<Rightarrow> string \<Rightarrow> string \<Rightarrow> IPTablesRule" where
  "NewMarkAllowRule destinationIP protocol startPort endPort tag sourceAppGUID destinationAppGUID =
     AppendComment
       [''-d'', destinationIP,
        ''-p'', protocol,
        ''--dport'', port_range startPort endPort,
        ''-m'', ''mark'', ''--mark'', ''0x'' @ tag,
        ''--jump'', ''ACCEPT'']
       (''src:'' @ sourceAppGUID @ ''_dst:'' @ destinationAppGUID)"

definition NewMarkAllowLogRule ::
  "string \<Rightarrow> string \<Rightarrow> int \<Rightarrow> int \<Rightarrow> string \<Rightarrow> string \<Rightarrow> int \<Rightarrow> IPTablesRule" where
  "NewMarkAllowLogRule destinationIP protocol startPort endPort tag destinationAppGUID acceptedUDPLogsPerSec =
     (if protocol \<noteq> ''udp'' then
        [''-d'', destinationIP,
         ''-p'', protocol,
         ''--dport'', port_range startPort endPort,
         ''-m'', ''mark'', ''--mark'', ''0x'' @ tag,
         ''-m'', ''conntrack'', ''--ctstate'', ''INVALID,NEW,UNTRACKED'',
         ''--jump'', ''LOG'', ''--log-prefix'',
         trimAndPad (''OK_'' @ tag @ ''_'' @ destinationAppGUID)]
      else
        [''-d'', destinationIP,
         ''-p'', protocol,
         ''--dport'', port_range startPort endPort,
         ''-m'', ''mark'', ''--mark'', ''0x'' @ tag,
         ''-m'', ''limit'',
         ''--limit'', itoa acceptedUDPLogsPerSec @ ''/s'',
         ''--limit-burst'', itoa acceptedUDPLogsPerSec,
         ''--jump'', ''LOG'', ''--log-prefix'',
         trimAndPad (''OK_'' @ tag @ ''_'' @ destinationAppGUID)])"

definition NewMarkSetRule :: "string \<Rightarrow> string \<Rightarrow> string \<Rightarrow> IPTablesRule" where
  "NewMarkSetRule sourceIP tag appGUID =
     AppendComment
       [''--source'', sourceIP,
        ''--jump'', ''MARK'', ''--set-xmark'', ''0x'' @ tag]
       (''src:'' @ appGUID)"

definition NewDefaultEgressRule :: "string \<Rightarrow> string \<Rightarrow> IPTablesRule" where
  "NewDefaultEgressRule localSubnet deviceName =
     [''--source'', localSubnet,
      ''!'', ''-o'', deviceName,
      ''--jump'', ''MASQUERADE'']"

definition NewLogRule :: "IPTablesRule \<Rightarrow> string \<Rightarrow> IPTablesRule" where
  "NewLogRule rule name =
     rule @ [''-m'', ''limit'', ''--limit'', ''2/min'',
      ''--jump'', ''LOG'',
      ''--log-prefix'', trimAndPad name]"

definition NewAcceptExistingLocalRule :: IPTablesRule where
  "NewAcceptExistingLocalRule =
     [''-m'', ''state'', ''--state'', ''ESTABLISHED,RELATED'',
      ''--jump'', ''ACCEPT'']"

definition NewLogLocalRejectRule :: "string \<Rightarrow> IPTablesRule" where
  "NewLogLocalRejectRule localSubnet =
     NewLogRule [''-s'', localSubnet, ''-d'', localSubnet] ''REJECT_LOCAL: ''"

definition NewDefaultDenyLocalRule :: "string \<Rightarrow> IPTablesRule" where
  "NewDefaultDenyLocalRule localSubnet =
     [''--source'', localSubnet,
      ''-d'', localSubnet,
      ''--jump'', ''REJECT'']"

definition NewNetOutRule :: "string \<Rightarrow> string \<Rightarrow> IPTablesRule" where
  "NewNetOutRule startIP endIP =
     [''-m'', ''iprange'',
      ''--dst-range'', startIP @ ''-'' @ endIP,
      ''--jump'', ''ACCEPT'']"

definition NewNetOutWithPortsRule :: "string \<Rightarrow> string \<Rightarrow> int \<Rightarrow> int \<Rightarrow> string \<Rightarrow> IPTablesRule" where
  "NewNetOutWithPortsRule startIP endIP startPort endPort protocol =
     [''-m'', ''iprange'',
      ''-p'', protocol,
      ''--dst-range'', startIP @ ''-'' @ endIP,
      ''-m'', protocol,
      ''--destination-port'', port_range startPort endPort,
      ''--jump'', ''ACCEPT'']"

definition NewNetOutICMPRule :: "string \<Rightarrow> string \<Rightarrow> int \<Rightarrow> int \<Rightarrow> IPTablesRule" where
  "NewNetOutICMPRule startIP endIP icmpType icmpCode =
     [''-m'', ''iprange'',
      ''-p'', ''icmp'',
      ''--dst-range'', startIP @ ''-'' @ endIP,
      ''-m'', ''icmp'',
      ''--icmp-type'', itoa icmpType @ ''/'' @ itoa icmpCode,
      ''--jump'', ''ACCEPT'']"

definition NewNetOutICMPLogRule :: "string \<Rightarrow> string \<Rightarrow> int \<Rightarrow> int \<Rightarrow> string \<Rightarrow> IPTablesRule" where
  "NewNetOutICMPLogRule startIP endIP icmpType icmpCode chain =
     [''-m'', ''iprange'',
      ''-p'', ''icmp'',
      ''--dst-range'', startIP @ ''-'' @ endIP,
      ''-m'', ''icmp'',
      ''--icmp-type'', itoa icmpType @ ''/'' @ itoa icmpCode,
      ''-g'', chain]"

definition NewNetOutLogRule :: "string \<Rightarrow> string \<Rightarrow> string \<Rightarrow> IPTablesRule" where
  "NewNetOutLogRule startIP endIP chain =
     [''-m'', ''iprange'',
      ''--dst-range'', startIP @ ''-'' @ endIP,
      ''-g'', chain]"

definition NewNetOutWithPortsLogRule ::
  "string \<Rightarrow> string \<Rightarrow> int \<Rightarrow> int \<Rightarrow> string \<Rightarrow> string \<Rightarrow> IPTablesRule" where
  "NewNetOutWithPortsLogRule startIP endIP startPort endPort protocol chain =
     [''-m'', ''iprange'',
      ''-p'', protocol,
      ''--dst-range'', startIP @ ''-'' @ endIP,
      ''-m'', protocol,
      ''--destination-port'', port_range startPort endPort,
      ''-g'', chain]"

definition NewNetOutDefaultNonUDPLogRule :: "string \<Rightarrow> IPTablesRule" where
  "NewNetOutDefaultNonUDPLogRule prefix =
     [''!'', ''-p'', ''udp'',
      ''-m'', ''conntrack'', ''--ctstate'', ''INVALID,NEW,UNTRACKED'',
      ''-j'', ''LOG'', ''--log-prefix'', trimAndPad (''OK_'' @ prefix)]"

definition NewNetOutDefaultUDPLogRule :: "string \<Rightarrow> int \<Rightarrow> IPTablesRule" where
  "NewNetOutDefaultUDPLogRule prefix acceptedUDPLogsPerSec =
     [''-p'', ''udp'',
      ''-m'', ''limit'', ''--limit'', itoa acceptedUDPLogsPerSec @ ''/s'',
      ''--limit-burst'', itoa acceptedUDPLogsPerSec,
      ''-j'', ''LOG'', ''--log-prefix'', trimAndPad (''OK_'' @ prefix)]"

definition NewAcceptRule :: IPTablesRule where
  "NewAcceptRule = [''--jump'', ''ACCEPT'']"

definition NewInputRelatedEstablishedRule :: IPTablesRule where
  "NewInputRelatedEstablishedRule =
     [''-m'', ''state'', ''--state'', ''RELATED,ESTABLISHED'',
      ''--jump'', ''ACCEPT'']"

definition NewInputAllowRule :: "string \<Rightarrow> string \<Rightarrow> int \<Rightarrow> IPTablesRule" where
  "NewInputAllowRule protocol destination destPort =
     [''-p'', protocol,
      ''-d'', destination, ''--destination-port'', itoa destPort,
      ''--jump'', ''ACCEPT'']"

definition NewInputDefaultRejectRule :: IPTablesRule where
  "NewInputDefaultRejectRule =
     [''--jump'', ''REJECT'',
      ''--reject-with'', ''icmp-port-unreachable'']"

definition NewNetOutRelatedEstablishedRule :: IPTablesRule where
  "NewNetOutRelatedEstablishedRule =
     [''-m'', ''state'', ''--state'', ''RELATED,ESTABLISHED'',
      ''--jump'', ''ACCEPT'']"

definition NewOverlayTagAcceptRule :: "string \<Rightarrow> string \<Rightarrow> IPTablesRule" where
  "NewOverlayTagAcceptRule containerIP tag =
     [''-d'', containerIP,
      ''-m'', ''mark'', ''--mark'', ''0x'' @ tag,
      ''--jump'', ''ACCEPT'']"

definition NewOverlayDefaultRejectRule :: "string \<Rightarrow> IPTablesRule" where
  "NewOverlayDefaultRejectRule containerIP =
     [''-d'', containerIP,
      ''--jump'', ''REJECT'',
      ''--reject-with'', ''icmp-port-unreachable'']"

definition NewOverlayDefaultRejectLogRule :: "string \<Rightarrow> string \<Rightarrow> int \<Rightarrow> IPTablesRule" where
  "NewOverlayDefaultRejectLogRule containerHandle containerIP deniedLogsPerSec =
     [''-d'', containerIP,
      ''-m'', ''limit'', ''--limit'', itoa deniedLogsPerSec @ ''/s'',
      ''--limit-burst'', itoa deniedLogsPerSec,
      ''--jump'', ''LOG'',
      ''--log-prefix'', trimAndPad (''DENY_C2C_'' @ containerHandle)]"

definition NewOverlayAllowEgress :: "string \<Rightarrow> string \<Rightarrow> IPTablesRule" where
  "NewOverlayAllowEgress deviceName containerIP =
     [''-s'', containerIP,
      ''-o'', deviceName,
      ''-m'', ''mark'', ''!'', ''--mark'', ''0x0'',
      ''--jump'', ''ACCEPT'']"

definition NewOverlayRelatedEstablishedRule :: "string \<Rightarrow> IPTablesRule" where
  "NewOverlayRelatedEstablishedRule containerIP =
     [''-d'', containerIP,
      ''-m'', ''state'', ''--state'', ''RELATED,ESTABLISHED'',
      ''--jump'', ''ACCEPT'']"

definition NewNetOutDefaultRejectLogRule :: "string \<Rightarrow> int \<Rightarrow> IPTablesRule" where
  "NewNetOutDefaultRejectLogRule containerHandle deniedLogsPerSec =
     [''-m'', ''limit'', ''--limit'', itoa deniedLogsPerSec @ ''/s'',
      ''--limit-burst'', itoa deniedLogsPerSec,
      ''--jump'', ''LOG'',
      ''--log-prefix'', trimAndPad (''DENY_'' @ containerHandle)]"

definition NewNetOutDefaultRejectRule :: IPTablesRule where
  "NewNetOutDefaultRejectRule =
     [''--jump'', ''REJECT'',
      ''--reject-with'', ''icmp-port-unreachable'']"

subsection \<open>The locked adapter\<close>

text \<open>
  The commands that reach the kernel and the lock operations, in the order they happen. A host is
  the kernel state, the outcomes of the next lock operations (none left: they succeed) and the
  trace so far. Where the code returns a value together with the error of \<^verbatim>\<open>Unlock\<close>, the model
  keeps the error.
\<close>

datatype ipt_command =
    ExistsCmd string string "string list"
  | DeleteCmd string string "string list"
  | ListCmd string string
  | NewChainCmd string string
  | ClearChainCmd string string
  | DeleteChainCmd string string
  | RestoreCmd string

datatype ipt_event = Acquired "unit result" | Ran ipt_command | Released "unit result"

record 'k host =
  kernel :: 'k
  locker_results :: "unit result list"
  trace :: "ipt_event list"

record 'k iptables_lib =
  lib_Exists :: "string \<Rightarrow> string \<Rightarrow> string list \<Rightarrow> 'k \<Rightarrow> bool result \<times> 'k"
  lib_Delete :: "string \<Rightarrow> string \<Rightarrow> string list \<Rightarrow> 'k \<Rightarrow> unit result \<times> 'k"
  lib_List :: "string \<Rightarrow> string \<Rightarrow> 'k \<Rightarrow> string list result \<times> 'k"
  lib_NewChain :: "string \<Rightarrow> string \<Rightarrow> 'k \<Rightarrow> unit result \<times> 'k"
  lib_ClearChain :: "string \<Rightarrow> string \<Rightarrow> 'k \<Rightarrow> unit result \<times> 'k"
  lib_DeleteChain :: "string \<Rightarrow> string \<Rightarrow> 'k \<Rightarrow> unit result \<times> 'k"
  exec_restore :: "string \<Rightarrow> 'k \<Rightarrow> (string \<times> unit result) \<times> 'k"

definition locker_call :: "(unit result \<Rightarrow> ipt_event) \<Rightarrow> 'k host \<Rightarrow> unit result \<times> 'k host" where
  "locker_call ev h = (case locker_results h of
       [] \<Rightarrow> (Inr (), h\<lparr>trace := trace h @ [ev (Inr ())]\<rparr>)
     | r # rs \<Rightarrow> (r, h\<lparr>locker_results := rs, trace := trace h @ [ev r]\<rparr>))"

definition on_kernel :: "ipt_command \<Rightarrow> ('k \<Rightarrow> 'a \<times> 'k) \<Rightarrow> 'k host \<Rightarrow> 'a \<times> 'k host" where
  "on_kernel cmd f h = (case f (kernel h) of (r, k) \<Rightarrow> (r, h\<lparr>kernel := k, trace := trace h @ [Ran cmd]\<rparr>))"

definition nil_or :: "unit result \<Rightarrow> go_error" where
  "nil_or u = (case u of Inl e \<Rightarrow> e | Inr _ \<Rightarrow> ErrText ''<nil>'')"

definition handleIPTablesError :: "go_error \<Rightarrow> unit result \<Rightarrow> go_error" where
  "handleIPTablesError err1 err2 = ErrorfBoth ''iptables call: '' err1 '' and unlock: '' (nil_or err2) ''''"

text \<open>What every method of the adapter does around its one call.\<close>

definition locked :: "('k host \<Rightarrow> 'a result \<times> 'k host) \<Rightarrow> 'k host \<Rightarrow> 'a result \<times> 'k host" where
  "locked call h = (case locker_call Acquired h of
       (Inl e, h) \<Rightarrow> (Inl (Errorf ''lock: '' e), h)
     | (Inr _, h) \<Rightarrow> (case call h of
         (Inl e, h) \<Rightarrow> (case locker_call Released h of (u, h) \<Rightarrow> (Inl (handleIPTablesError e u), h))
       | (Inr x, h) \<Rightarrow> (case locker_call Released h of
           (Inl e, h) \<Rightarrow> (Inl e, h)
         | (Inr _, h) \<Rightarrow> (Inr x, h))))"

definition Restore :: "'k iptables_lib \<Rightarrow> string \<Rightarrow> 'k \<Rightarrow> unit result \<times> 'k" where
  "Restore L input k = (case exec_restore L input k of
       ((out, Inl e), k) \<Rightarrow> (Inl (ErrorfBoth ''iptables-restore error: '' e '' combined output: '' (ErrText out) ''''), k)
     | ((out, Inr _), k) \<Rightarrow> (Inr (), k))"

definition Exists :: "'k iptables_lib \<Rightarrow> string \<Rightarrow> string \<Rightarrow> IPTablesRule \<Rightarrow> 'k host \<Rightarrow> bool result \<times> 'k host" where
  "Exists L table chain rulespec =
     locked (on_kernel (ExistsCmd table chain rulespec) (lib_Exists L table chain rulespec))"

definition bulk_input :: "string \<Rightarrow> string \<Rightarrow> IPTablesRule list \<Rightarrow> string" where
  "bulk_input table prefix rulespec =
     join_with '''' ([''*'' @ table @ [CHR 0x0A]]
       @ map (\<lambda>r. prefix @ '' '' @ join_with '' '' r @ [CHR 0x0A]) rulespec
       @ [''COMMIT'' @ [CHR 0x0A]])"

definition bulkAction ::
  "'k iptables_lib \<Rightarrow> string \<Rightarrow> string \<Rightarrow> IPTablesRule list \<Rightarrow> 'k host \<Rightarrow> unit result \<times> 'k host" where
  "bulkAction L table prefix rulespec =
     (let input = bulk_input table prefix rulespec in locked (on_kernel (RestoreCmd input) (Restore L input)))"

definition BulkInsert ::
  "'k iptables_lib \<Rightarrow> string \<Rightarrow> string \<Rightarrow> int \<Rightarrow> IPTablesRule list \<Rightarrow> 'k host \<Rightarrow> unit result \<times> 'k host" where
  "BulkInsert L table chain pos rulespec = bulkAction L table (''-I '' @ chain @ '' '' @ itoa pos) rulespec"

definition BulkAppend ::
  "'k iptables_lib \<Rightarrow> string \<Rightarrow> string \<Rightarrow> IPTablesRule list \<Rightarrow> 'k host \<Rightarrow> unit result \<times> 'k host" where
  "BulkAppend L table chain rulespec = bulkAction L table (''-A '' @ chain) rulespec"

definition ipt_Delete ::
  "'k iptables_lib \<Rightarrow> string \<Rightarrow> string \<Rightarrow> IPTablesRule \<Rightarrow> 'k host \<Rightarrow> unit result \<times> 'k host" where
  "ipt_Delete L table chain rulespec =
     locked (on_kernel (DeleteCmd table chain rulespec) (lib_Delete L table chain rulespec))"

definition ipt_List :: "'k iptables_lib \<Rightarrow> string \<Rightarrow> string \<Rightarrow> 'k host \<Rightarrow> string list result \<times> 'k host" where
  "ipt_List L table chain = locked (on_kernel (ListCmd table chain) (lib_List L table chain))"

definition chainExec ::
  "string \<Rightarrow> string \<Rightarrow> (string \<Rightarrow> string \<Rightarrow> 'k host \<Rightarrow> unit result \<times> 'k host) \<Rightarrow> 'k host \<Rightarrow> unit result \<times> 'k host" where
  "chainExec table chain action = locked (action table chain)"

definition NewChain :: "'k iptables_lib \<Rightarrow> string \<Rightarrow> string \<Rightarrow> 'k host \<Rightarrow> unit result \<times> 'k host" where
  "NewChain L table chain = chainExec table chain (\<lambda>t c. on_kernel (NewChainCmd t c) (lib_NewChain L t c))"

definition ClearChain :: "'k iptables_lib \<Rightarrow> string \<Rightarrow> string \<Rightarrow> 'k host \<Rightarrow> unit result \<times> 'k host" where
  "ClearChain L table chain = chainExec table chain (\<lambda>t c. on_kernel (ClearChainCmd t c) (lib_ClearChain L t c))"

definition DeleteChain :: "'k iptables_lib \<Rightarrow> string \<Rightarrow> string \<Rightarrow> 'k host \<Rightarrow> unit result \<times> 'k host" where
  "DeleteChain L table chain = chainExec table chain (\<lambda>t c. on_kernel (DeleteChainCmd t c) (lib_DeleteChain L t c))"

subsection \<open>Lock discipline\<close>

lemma locker_call_spec:
  "locker_call ev h = (r, h') \<Longrightarrow> kernel h' = kernel h \<and> trace h' = trace h @ [ev r]"
  by (auto simp: locker_call_def split: list.splits)

text \<open>
  \<open>brackets cmd f op\<close>: the operation runs the kernel command \<open>f\<close> between one acquisition and one
  release of the lock, or, when it does not get the lock, runs nothing; it succeeds exactly when the
  command and the release do, with the value of the command.
\<close>

definition brackets :: "ipt_command \<Rightarrow> ('k \<Rightarrow> 'a result \<times> 'k) \<Rightarrow> ('k host \<Rightarrow> 'a result \<times> 'k host) \<Rightarrow> bool" where
  "brackets cmd f op \<longleftrightarrow> (\<forall>h r h'. op h = (r, h') \<longrightarrow>
     (\<exists>e. r = Inl (Errorf ''lock: '' e) \<and> kernel h' = kernel h \<and> trace h' = trace h @ [Acquired (Inl e)]) \<or>
     (\<exists>u. trace h' = trace h @ [Acquired (Inr ()), Ran cmd, Released u] \<and> kernel h' = snd (f (kernel h)) \<and>
        (\<forall>x. r = Inr x \<longleftrightarrow> fst (f (kernel h)) = Inr x \<and> u = Inr ())))"

lemma locked_brackets: "brackets cmd f (locked (on_kernel cmd f))"
  unfolding brackets_def
proof (intro allI impI)
  fix h r h'
  assume run: "locked (on_kernel cmd f) h = (r, h')"
  obtain l h1 where l: "locker_call Acquired h = (l, h1)" by fastforce
  note l' = locker_call_spec [OF l]
  show "(\<exists>e. r = Inl (Errorf ''lock: '' e) \<and> kernel h' = kernel h \<and> trace h' = trace h @ [Acquired (Inl e)]) \<or>
     (\<exists>u. trace h' = trace h @ [Acquired (Inr ()), Ran cmd, Released u] \<and> kernel h' = snd (f (kernel h)) \<and>
        (\<forall>x. r = Inr x \<longleftrightarrow> fst (f (kernel h)) = Inr x \<and> u = Inr ()))"
  proof (cases l)
    case (Inl e)
    with run l l' show ?thesis by (simp add: locked_def)
  next
    case (Inr v)
    obtain x h2 where c: "on_kernel cmd f h1 = (x, h2)" by fastforce
    then have c': "x = fst (f (kernel h1))" "kernel h2 = snd (f (kernel h1))" "trace h2 = trace h1 @ [Ran cmd]"
      by (auto simp: on_kernel_def split: prod.splits)
    obtain u h3 where u: "locker_call Released h2 = (u, h3)" by fastforce
    note u' = locker_call_spec [OF u]
    from run l c u Inr have "h' = h3" "\<forall>y. r = Inr y \<longleftrightarrow> x = Inr y \<and> u = Inr ()"
      by (auto simp: locked_def split: sum.splits)
    with l' c' u' Inr show ?thesis by (intro disjI2 exI [of _ u]) simp
  qed
qed

lemmas adapter_defs = Exists_def ipt_Delete_def ipt_List_def NewChain_def ClearChain_def DeleteChain_def
  chainExec_def BulkInsert_def BulkAppend_def bulkAction_def Let_def

datatype adapter_call =
    ExistsCall string string IPTablesRule
  | DeleteCall string string IPTablesRule
  | ListCall string string
  | NewChainCall string string
  | ClearChainCall string string
  | DeleteChainCall string string
  | BulkInsertCall string string int "IPTablesRule list"
  | BulkAppendCall string string "IPTablesRule list"

fun run_call :: "'k iptables_lib \<Rightarrow> adapter_call \<Rightarrow> 'k host \<Rightarrow> 'k host" where
  "run_call L (ExistsCall t c r) h = snd (Exists L t c r h)"
| "run_call L (DeleteCall t c r) h = snd (ipt_Delete L t c r h)"
| "run_call L (ListCall t c) h = snd (ipt_List L t c h)"
| "run_call L (NewChainCall t c) h = snd (NewChain L t c h)"
| "run_call L (ClearChainCall t c) h = snd (ClearChain L t c h)"
| "run_call L (DeleteChainCall t c) h = snd (DeleteChain L t c h)"
| "run_call L (BulkInsertCall t c pos rs) h = snd (BulkInsert L t c pos rs h)"
| "run_call L (BulkAppendCall t c rs) h = snd (BulkAppend L t c rs h)"

text \<open>A trace in which every command runs while the lock is held and no lock is taken twice.\<close>

fun guarded :: "bool \<Rightarrow> ipt_event list \<Rightarrow> bool" where
  "guarded held [] \<longleftrightarrow> \<not> held"
| "guarded held (Acquired r # es) \<longleftrightarrow> \<not> held \<and> guarded (r = Inr ()) es"
| "guarded held (Ran cmd # es) \<longleftrightarrow> held \<and> guarded held es"
| "guarded held (Released r # es) \<longleftrightarrow> held \<and> guarded False es"

lemma guarded_append: "guarded held es \<Longrightarrow> guarded held (es @ es') \<longleftrightarrow> guarded False es'"
  by (induction held es rule: guarded.induct) auto

text \<open>The contract of an adapter whose every call takes and gives back the lock.\<close>

locale lock_discipline =
  fixes step :: "'c \<Rightarrow> 'k host \<Rightarrow> 'k host"
  assumes step_trace: "\<exists>es. trace (step c h) = trace h @ es \<and> guarded False es"
begin

lemma run_guarded: "guarded False (trace h) \<Longrightarrow> guarded False (trace (fold step cs h))"
proof (induction cs arbitrary: h)
  case (Cons c cs)
  obtain es where "trace (step c h) = trace h @ es" "guarded False es" using step_trace by blast
  with Cons.prems have "guarded False (trace (step c h))" by (simp add: guarded_append)
  then show ?case by (simp add: Cons.IH)
qed simp

end

lemma brackets_trace:
  assumes "brackets cmd f op"
  shows "\<exists>es. trace (snd (op h)) = trace h @ es \<and> guarded False es"
proof -
  obtain r h' where "op h = (r, h')" by fastforce
  with assms have "(\<exists>e. trace h' = trace h @ [Acquired (Inl e)]) \<or>
      (\<exists>u. trace h' = trace h @ [Acquired (Inr ()), Ran cmd, Released u])" unfolding brackets_def by blast
  with \<open>op h = (r, h')\<close> show ?thesis by auto
qed

interpretation adapter: lock_discipline "run_call L" for L
proof
  fix c h
  show "\<exists>es. trace (run_call L c h) = trace h @ es \<and> guarded False es"
    by (cases c) (simp_all add: adapter_defs brackets_trace [OF locked_brackets])
qed

text \<open>C31. Every method of the locked adapter runs its one iptables command between one acquisition
  and one release of the lock, on success and on every error path alike, and runs nothing when the
  lock is not obtained; so in any sequence of calls every command runs while the lock is held.\<close>

theorem iptables_under_lock:
  "brackets (ExistsCmd t c r) (lib_Exists L t c r) (Exists L t c r) \<and>
   brackets (DeleteCmd t c r) (lib_Delete L t c r) (ipt_Delete L t c r) \<and>
   brackets (ListCmd t c) (lib_List L t c) (ipt_List L t c) \<and>
   brackets (NewChainCmd t c) (lib_NewChain L t c) (NewChain L t c) \<and>
   brackets (ClearChainCmd t c) (lib_ClearChain L t c) (ClearChain L t c) \<and>
   brackets (DeleteChainCmd t c) (lib_DeleteChain L t c) (DeleteChain L t c) \<and>
   brackets (RestoreCmd (bulk_input t (''-I '' @ c @ '' '' @ itoa pos) rs))
     (Restore L (bulk_input t (''-I '' @ c @ '' '' @ itoa pos) rs)) (BulkInsert L t c pos rs) \<and>
   brackets (RestoreCmd (bulk_input t (''-A '' @ c) rs))
     (Restore L (bulk_input t (''-A '' @ c) rs)) (BulkAppend L t c rs) \<and>
   guarded False (trace (fold (run_call L) cs \<lparr>kernel = k, locker_results = results, trace = []\<rparr>))"
  by (simp add: adapter_defs locked_brackets adapter.run_guarded)

subsection \<open>Rule texts\<close>

definition quoted :: "string \<Rightarrow> string" where
  "quoted t = [CHR 0x22] @ t @ [CHR 0x22]"

text \<open>A rule whose last argument is a log prefix that shows the start of \<open>name\<close>, quoted, in the 29 bytes
  the \<^verbatim>\<open>LOG\<close> target keeps.\<close>

definition logs_as :: "string \<Rightarrow> IPTablesRule \<Rightarrow> bool" where
  "logs_as name r \<longleftrightarrow> (\<exists>t rest. r = rest @ [''--log-prefix'', quoted t] \<and> length t \<le> 29 \<and> t = take 28 name @ '' '')"

lemma logs_as_prepend: "logs_as name r \<Longrightarrow> logs_as name (rest @ r)"
  unfolding logs_as_def by (metis append_assoc)

lemma logs_as_Cons: "logs_as name r \<Longrightarrow> logs_as name (x # r)"
  using logs_as_prepend [of name r "[x]"] by simp

lemma logs_as_end: "logs_as name [''--log-prefix'', trimAndPad name]"
  unfolding logs_as_def quoted_def by (intro exI conjI) (auto simp: trimAndPad_def)

text \<open>Every rule with the \<^verbatim>\<open>LOG\<close> target ends in a quoted log prefix of at most 29 characters that
  begins with the first 28 characters of its name, however long tags, guids and handles are.\<close>

theorem log_prefixes_fit:
  "logs_as (''OK_'' @ tag @ ''_'' @ guid) (NewMarkAllowLogRule ip protocol p1 p2 tag guid rate) \<and>
   logs_as name (NewLogRule rule name) \<and>
   logs_as ''REJECT_LOCAL: '' (NewLogLocalRejectRule subnet) \<and>
   logs_as (''OK_'' @ prefix) (NewNetOutDefaultNonUDPLogRule prefix) \<and>
   logs_as (''OK_'' @ prefix) (NewNetOutDefaultUDPLogRule prefix rate) \<and>
   logs_as (''DENY_C2C_'' @ handle) (NewOverlayDefaultRejectLogRule handle ip rate) \<and>
   logs_as (''DENY_'' @ handle) (NewNetOutDefaultRejectLogRule handle rate)"
  unfolding NewMarkAllowLogRule_def NewLogRule_def NewLogLocalRejectRule_def NewNetOutDefaultNonUDPLogRule_def
    NewNetOutDefaultUDPLogRule_def NewOverlayDefaultRejectLogRule_def NewNetOutDefaultRejectLogRule_def
  by (auto intro!: logs_as_Cons logs_as_end logs_as_prepend)

lemma digit_not_colon: "d < 16 \<Longrightarrow> digit_char d \<noteq> CHR '':''"
  by (auto simp: digit_char_def char_of_eq_iff take_bit_eq_mod split: if_splits)

lemma colon_not_in_digits: "2 \<le> b \<Longrightarrow> b \<le> 16 \<Longrightarrow> CHR '':'' \<notin> set (digits_base b n)"
proof (induction b n rule: digits_base.induct)
  case (1 b n)
  have "n mod b < b" using 1(2) by simp
  then have "n mod b < 16" using 1(3) by linarith
  with 1 show ?case
    using digit_not_colon [of n] digit_not_colon [of "n mod b"] by (auto simp: digits_base.simps [of b n])
qed

lemma port_range_inj:
  assumes "0 \<le> s" "0 \<le> e" "0 \<le> s'" "0 \<le> e'" "port_range s e = port_range s' e'"
  shows "s = s' \<and> e = e'"
proof -
  have "split_on (CHR '':'') (port_range a b) = [itoa a, itoa b]" if "0 \<le> a" "0 \<le> b" for a b
    using that by (simp add: port_range_def split_append_sep split_no_sep itoa_def colon_not_in_digits)
  with assms have "itoa s = itoa s'" "itoa e = itoa e'" by (metis list.inject)+
  with assms show ?thesis by (simp add: itoa_inj_nonneg)
qed

text \<open>The rules that allow marked traffic of two policies differ whenever destination address,
  protocol, ports or tag do: no two policies collapse into one rule.\<close>

theorem mark_allow_rules_distinct:
  assumes "0 \<le> s" "0 \<le> e" "0 \<le> s'" "0 \<le> e'" "(ip, protocol, s, e, tag) \<noteq> (ip', protocol', s', e', tag')"
  shows "NewMarkAllowRule ip protocol s e tag src dst \<noteq> NewMarkAllowRule ip' protocol' s' e' tag' src' dst'"
  using assms port_range_inj [of s e s' e'] by (auto simp: NewMarkAllowRule_def AppendComment_def)

theorem mark_allow_rules_distinct_witness:
  "NewMarkAllowRule ''10.255.0.3'' ''tcp'' 1 23 ''0001'' ''a'' ''b'' \<noteq>
     NewMarkAllowRule ''10.255.0.3'' ''tcp'' 12 3 ''0001'' ''a'' ''b''"
  by (rule mark_allow_rules_distinct) simp_all

end
