(* ===== verification/Port_Allocator.thy ===== *)
theory Port_Allocator
  imports Go_Prelude "HOL-Library.AList"
begin

text \<open>
  \<^verbatim>\<open>lib/serial\<close> and \<^verbatim>\<open>garden-external-networker/port_allocator\<close>: host ports handed out to containers from
  a range, with the assignment kept in a locked state file. The file carries the outcomes of its
  next operations, so that every error path can be taken; a write that fails has written some
  prefix of its text. JSON decoding and encoding are parameters.
\<close>

subsection \<open>State file\<close>

record state_file =
  content :: string
  file_faults :: "(string \<times> nat) option list"

text \<open>The outcome of the next operation on the file: an error and the bytes written before it.\<close>

definition file_fault :: "state_file \<Rightarrow> (string \<times> nat) option \<times> state_file" where
  "file_fault f = (case file_faults f of [] \<Rightarrow> (None, f) | x # xs \<Rightarrow> (x, f\<lparr>file_faults := xs\<rparr>))"

definition io_EOF :: go_error where
  "io_EOF = ErrText ''EOF''"

text \<open>\<open>Inr None\<close>: the data is left as it was.\<close>

definition DecodeAll :: "(string \<Rightarrow> 'a result) \<Rightarrow> state_file \<Rightarrow> 'a option result \<times> state_file" where
  "DecodeAll decode f = (case file_fault f of
       (Some (e, _), f) \<Rightarrow> (Inl (DriverError e), f)
     | (None, f) \<Rightarrow> (case decode (content f) of
         Inl e \<Rightarrow> if e \<noteq> io_EOF then (Inl e, f) else (Inr None, f)
       | Inr x \<Rightarrow> (Inr (Some x), f)))"

definition EncodeAndOverwrite :: "('a \<Rightarrow> string result) \<Rightarrow> 'a \<Rightarrow> state_file \<Rightarrow> unit result \<times> state_file" where
  "EncodeAndOverwrite encode outData f = (case file_fault f of
       (Some (e, _), f) \<Rightarrow> (Inl (DriverError e), f)
     | (None, f) \<Rightarrow> (case file_fault f of
         (Some (e, _), f) \<Rightarrow> (Inl (DriverError e), f)
       | (None, f) \<Rightarrow> (let f = f\<lparr>content := ''''\<rparr> in
           case encode outData of
             Inl e \<Rightarrow> (Inl e, f)
           | Inr s \<Rightarrow> (case file_fault f of
               (Some (e, n), f) \<Rightarrow> (Inl (DriverError e), f\<lparr>content := take n s\<rparr>)
             | (None, f) \<Rightarrow> (Inr (), f\<lparr>content := s\<rparr>)))))"

subsection \<open>Pool and tracker\<close>

type_synonym Pool = "(int \<times> string) list"

type_synonym pool_json = "(string \<times> int list) list"

definition append_port :: "int \<Rightarrow> string \<Rightarrow> pool_json \<Rightarrow> pool_json" where
  "append_port port handle j =
     AList.update handle ((case map_of j handle of None \<Rightarrow> [] | Some ps \<Rightarrow> ps) @ [port]) j"

definition pool_MarshalJSON :: "(int list \<Rightarrow> int list) \<Rightarrow> Pool \<Rightarrow> pool_json" where
  "pool_MarshalJSON rng p = fold (\<lambda>port. append_port port (the (map_of p port))) (rng (map fst p)) []"

definition pool_UnmarshalJSON :: "(string list \<Rightarrow> string list) \<Rightarrow> pool_json \<Rightarrow> Pool" where
  "pool_UnmarshalJSON rng j =
     fold (\<lambda>handle. fold (\<lambda>port. AList.update port handle) (the (map_of j handle))) (rng (map fst j)) []"

record Tracker =
  StartPort :: int
  Capacity :: int

definition ErrorPortPoolExhausted :: go_error where
  "ErrorPortPoolExhausted = ErrText ''port pool exhausted''"

definition InRange :: "Tracker \<Rightarrow> int \<Rightarrow> bool" where
  "InRange t port \<longleftrightarrow> port \<ge> StartPort t \<and> port < StartPort t + Capacity t"

definition pool_contains :: "Pool \<Rightarrow> int \<Rightarrow> bool" where
  "pool_contains pool candidate \<longleftrightarrow> map_of pool candidate \<noteq> None"

fun acquire_loop :: "Pool \<Rightarrow> string \<Rightarrow> int list \<Rightarrow> int result \<times> Pool" where
  "acquire_loop pool handle [] = (Inl ErrorPortPoolExhausted, pool)"
| "acquire_loop pool handle (candidatePort # ports) =
     (if \<not> pool_contains pool candidatePort then (Inr candidatePort, AList.update candidatePort handle pool)
      else acquire_loop pool handle ports)"

definition AcquireOne :: "Tracker \<Rightarrow> Pool \<Rightarrow> string \<Rightarrow> int result \<times> Pool" where
  "AcquireOne t pool handle = acquire_loop pool handle (map (\<lambda>i. StartPort t + int i) [0 ..< nat (Capacity t)])"

definition ReleaseAll :: "Pool \<Rightarrow> string \<Rightarrow> Pool" where
  "ReleaseAll pool handle = filter (\<lambda>(port, h). h \<noteq> handle) pool"

subsection \<open>Port allocator\<close>

record allocator =
  tracker :: Tracker
  lock_open :: "unit result"
  json_decode :: "string \<Rightarrow> pool_json result"
  json_encode :: "pool_json \<Rightarrow> string result"
  port_order :: "int list \<Rightarrow> int list"
  handle_order :: "string list \<Rightarrow> string list"

definition decode_pool :: "allocator \<Rightarrow> string \<Rightarrow> Pool result" where
  "decode_pool a s = map_sum id (pool_UnmarshalJSON (handle_order a)) (json_decode a s)"

definition encode_pool :: "allocator \<Rightarrow> Pool \<Rightarrow> string result" where
  "encode_pool a p = json_encode a (pool_MarshalJSON (port_order a) p)"

definition loaded :: "Pool option \<Rightarrow> Pool" where
  "loaded x = (case x of None \<Rightarrow> [] | Some p \<Rightarrow> p)"

definition AllocatePort :: "allocator \<Rightarrow> string \<Rightarrow> int \<Rightarrow> state_file \<Rightarrow> int result \<times> state_file" where
  "AllocatePort a handle port f =
     (if port \<noteq> 0 then
        (if InRange (tracker a) port then (Inl (ErrText ''cannot specify port from allocation range''), f)
         else (Inr port, f))
      else case lock_open a of
          Inl e \<Rightarrow> (Inl (Errorf ''open lock: '' e), f)
        | Inr _ \<Rightarrow> (case DecodeAll (decode_pool a) f of
            (Inl e, f) \<Rightarrow> (Inl (Errorf ''decoding state file: '' e), f)
          | (Inr pool, f) \<Rightarrow> (case AcquireOne (tracker a) (loaded pool) handle of
              (Inl e, _) \<Rightarrow> (Inl (Errorf ''acquire port: '' e), f)
            | (Inr newPort, pool) \<Rightarrow> (case EncodeAndOverwrite (encode_pool a) pool f of
                (Inl e, f) \<Rightarrow> (Inl (Errorf ''encode and overwrite: '' e), f)
              | (Inr _, f) \<Rightarrow> (Inr newPort, f)))))"

definition ReleaseAllPorts :: "allocator \<Rightarrow> string \<Rightarrow> state_file \<Rightarrow> unit result \<times> state_file" where
  "ReleaseAllPorts a handle f = (case lock_open a of
       Inl e \<Rightarrow> (Inl (Errorf ''open lock: '' e), f)
     | Inr _ \<Rightarrow> (case DecodeAll (decode_pool a) f of
         (Inl e, f) \<Rightarrow> (Inl (Errorf ''decoding state file: '' e), f)
       | (Inr pool, f) \<Rightarrow> (case EncodeAndOverwrite (encode_pool a) (ReleaseAll (loaded pool) handle) f of
           (Inl e, f) \<Rightarrow> (Inl (Errorf ''encode and overwrite: '' e), f)
         | (Inr _, f) \<Rightarrow> (Inr (), f))))"

subsection \<open>Pool lemmas\<close>

lemma map_of_ReleaseAll:
  assumes "distinct (map fst p)"
  shows "map_of (ReleaseAll p h) port = (if map_of p port = Some h then None else map_of p port)"
  using assms
proof (induction p)
  case (Cons x p)
  obtain q g where x: "x = (q, g)" by (cases x)
  with Cons.prems have "map_of p q = None" by (simp add: map_of_eq_None_iff)
  with Cons x show ?case by (cases "port = q") (simp_all add: ReleaseAll_def del: map_of_eq_Some_iff)
qed (simp add: ReleaseAll_def)

lemma distinct_ReleaseAll: "distinct (map fst p) \<Longrightarrow> distinct (map fst (ReleaseAll p h))"
  unfolding ReleaseAll_def by (simp add: distinct_map_filter)

lemma acquire_loop_cases:
  "acquire_loop p h ports = (case find (\<lambda>c. \<not> pool_contains p c) ports of
      None \<Rightarrow> (Inl ErrorPortPoolExhausted, p) | Some c \<Rightarrow> (Inr c, AList.update c h p))"
  by (induction ports) auto

lemma range_ports: "set (map (\<lambda>i. StartPort t + int i) [0 ..< nat (Capacity t)]) = {x. InRange t x}"
proof
  show "{x. InRange t x} \<subseteq> set (map (\<lambda>i. StartPort t + int i) [0 ..< nat (Capacity t)])"
  proof
    fix x assume "x \<in> {x. InRange t x}"
    then have "x = StartPort t + int (nat (x - StartPort t))" "nat (x - StartPort t) \<in> {0 ..< nat (Capacity t)}"
      by (auto simp: InRange_def)
    then show "x \<in> set (map (\<lambda>i. StartPort t + int i) [0 ..< nat (Capacity t)])"
      unfolding set_map set_upt by (rule image_eqI)
  qed
qed (auto simp: InRange_def)

lemma find_first_least:
  assumes "sorted (xs :: int list)" "find P xs = Some x"
  shows "x \<in> set xs \<and> P x \<and> (\<forall>y \<in> set xs. P y \<longrightarrow> x \<le> y)"
  using assms by (induction xs) (auto split: if_splits)

lemma AcquireOne_cases:
  assumes "AcquireOne t p h = (r, p')"
  obtains (none_free) "r = Inl ErrorPortPoolExhausted" "p' = p" "\<forall>x. InRange t x \<longrightarrow> map_of p x \<noteq> None"
  | (free) c where "r = Inr c" "p' = AList.update c h p" "InRange t c" "map_of p c = None"
      "\<forall>x. InRange t x \<and> map_of p x = None \<longrightarrow> c \<le> x"
proof -
  let ?ports = "map (\<lambda>i. StartPort t + int i) [0 ..< nat (Capacity t)]"
  have s: "sorted ?ports" by (auto simp: sorted_wrt_map intro: sorted_wrt_mono_rel [OF _ sorted_wrt_upt])
  note run = assms [unfolded AcquireOne_def acquire_loop_cases]
  have in_ports: "x \<in> set ?ports \<longleftrightarrow> InRange t x" for x using range_ports [of t] by blast
  show thesis
  proof (cases "find (\<lambda>c. \<not> pool_contains p c) ?ports")
    case None
    then have "\<forall>x \<in> set ?ports. map_of p x \<noteq> None" by (simp only: find_is_None pool_contains_def not_not) 
    with in_ports have "\<forall>x. InRange t x \<longrightarrow> map_of p x \<noteq> None" by blast
    with None run show thesis by (intro none_free) simp_all
  next
    case (Some c)
    from find_first_least [OF s this]
    have "InRange t c" "map_of p c = None" "\<forall>x. InRange t x \<and> map_of p x = None \<longrightarrow> c \<le> x"
      unfolding in_ports Ball_def pool_contains_def by blast+
    with Some run show thesis by (intro free [of c]) simp_all
  qed
qed

subsection \<open>Marshalling\<close>

lemma map_of_append_port:
  "map_of (append_port port h j) h' =
     (if h' = h then Some ((case map_of j h of None \<Rightarrow> [] | Some ps \<Rightarrow> ps) @ [port]) else map_of j h')"
  by (simp add: append_port_def update_conv')

lemma map_of_marshal_fold:
  "map_of (fold (\<lambda>port. append_port port (owner port)) ps j) h =
     (case filter (\<lambda>port. owner port = h) ps of [] \<Rightarrow> map_of j h
      | l \<Rightarrow> Some ((case map_of j h of None \<Rightarrow> [] | Some l0 \<Rightarrow> l0) @ l))"
  by (induction ps arbitrary: j) (auto simp: map_of_append_port split: list.splits option.splits)

lemma map_of_unmarshal_inner:
  "map_of (fold (\<lambda>port. AList.update port h) ports acc) q = (if q \<in> set ports then Some h else map_of acc q)"
  by (induction ports arbitrary: acc) (auto simp: update_conv')

lemma map_of_unmarshal_fold:
  "map_of (fold (\<lambda>h. fold (\<lambda>port. AList.update port h) (f h)) hs acc) q =
     (case find (\<lambda>h. q \<in> set (f h)) (rev hs) of Some h \<Rightarrow> Some h | None \<Rightarrow> map_of acc q)"
  by (induction hs arbitrary: acc) (auto simp: map_of_unmarshal_inner find_append split: option.splits)

lemma distinct_unmarshal_inner:
  "distinct (map fst acc) \<Longrightarrow> distinct (map fst (fold (\<lambda>port. AList.update port h) ports acc))"
  by (induction ports arbitrary: acc) (auto simp: distinct_update)

lemma distinct_unmarshal: "distinct (map fst (pool_UnmarshalJSON rng j))"
proof -
  have "distinct (map fst acc) \<Longrightarrow>
      distinct (map fst (fold (\<lambda>h. fold (\<lambda>port. AList.update port h) (f h)) hs acc))" for f hs acc
    by (induction hs arbitrary: acc) (auto simp: distinct_unmarshal_inner)
  from this [of "[]"] show ?thesis by (simp add: pool_UnmarshalJSON_def)
qed

lemma map_of_marshal:
  assumes "is_range rng"
  shows "map_of (pool_MarshalJSON rng p) h =
    (case filter (\<lambda>port. the (map_of p port) = h) (rng (map fst p)) of [] \<Rightarrow> None | l \<Rightarrow> Some l)"
  by (simp add: pool_MarshalJSON_def map_of_marshal_fold split: list.splits)

lemma marshal_ports:
  assumes "is_range rng"
  shows "(\<exists>l. map_of (pool_MarshalJSON rng p) h = Some l \<and> q \<in> set l) \<longleftrightarrow> map_of p q = Some h"
proof -
  let ?l = "filter (\<lambda>port. the (map_of p port) = h) (rng (map fst p))"
  have "(\<exists>l. map_of (pool_MarshalJSON rng p) h = Some l \<and> q \<in> set l) \<longleftrightarrow> q \<in> set ?l"
    by (cases ?l) (simp_all add: map_of_marshal [OF assms])
  also have "\<dots> \<longleftrightarrow> q \<in> fst ` set p \<and> the (map_of p q) = h"
    using is_range_set [OF assms, of "map fst p"] by auto
  also have "\<dots> \<longleftrightarrow> map_of p q = Some h" using map_of_eq_None_iff [of p q] by force
  finally show ?thesis .
qed

lemma unmarshal_marshal:
  assumes "is_range port_rng" "is_range handle_rng"
  shows "map_of (pool_UnmarshalJSON handle_rng (pool_MarshalJSON port_rng p)) = map_of p"
proof
  fix q
  define j where "j = pool_MarshalJSON port_rng p"
  define holds where "holds h \<longleftrightarrow> q \<in> set (the (map_of j h))" for h
  have run: "map_of (pool_UnmarshalJSON handle_rng j) q = find holds (rev (handle_rng (map fst j)))"
    by (simp add: pool_UnmarshalJSON_def map_of_unmarshal_fold holds_def [abs_def] split: option.splits)
  have keys: "h \<in> set (map fst j) \<longleftrightarrow> map_of j h \<noteq> None" for h by (simp add: map_of_eq_None_iff)
  have holds: "map_of j h \<noteq> None \<and> holds h \<longleftrightarrow> map_of p q = Some h" for h
    using marshal_ports [OF assms(1), of p h q] by (auto simp: holds_def j_def)
  show "map_of (pool_UnmarshalJSON handle_rng (pool_MarshalJSON port_rng p)) q = map_of p q"
  proof (cases "map_of p q")
    case None
    with holds have "\<forall>h \<in> set (rev (handle_rng (map fst j))). \<not> holds h"
      unfolding set_rev is_range_set [OF assms(2)] Ball_def keys by (metis option.distinct(1))
    then show ?thesis using None run by (simp add: j_def [symmetric] find_is_None)
  next
    case (Some h)
    with holds keys have "h \<in> set (rev (handle_rng (map fst j)))" "holds h"
      unfolding set_rev is_range_set [OF assms(2)] by blast+
    then obtain h' where h': "find holds (rev (handle_rng (map fst j))) = Some h'"
      by (metis find_is_None not_None_eq)
    then have "h' \<in> set (map fst j)" "holds h'"
      by (auto dest!: find_SomeD simp: is_range_set [OF assms(2)])
    with holds keys Some have "h' = h" by (metis option.inject)
    with h' run Some show ?thesis by (simp add: j_def)
  qed
qed

text \<open>C30. The JSON form of the pool lists under every handle exactly its ports, and reading it back
  gives the same assignment of ports to handles, whatever order the two map iterations take.\<close>

theorem pool_json_roundtrip:
  assumes "is_range port_rng" "is_range handle_rng"
  shows "map_of (pool_UnmarshalJSON handle_rng (pool_MarshalJSON port_rng p)) = map_of p \<and>
    (\<forall>h q. (\<exists>l. map_of (pool_MarshalJSON port_rng p) h = Some l \<and> q \<in> set l) \<longleftrightarrow> map_of p q = Some h)"
  using unmarshal_marshal [OF assms] marshal_ports [OF assms(1)] by blast

theorem pool_json_roundtrip_witness:
  "map_of (pool_UnmarshalJSON (\<lambda>ks. ks) (pool_MarshalJSON rev [(40000, ''a''), (40001, ''b''), (40002, ''a'')])) =
   map_of [(40000, ''a''), (40001, ''b''), (40002, ''a'')]"
  by (rule pool_json_roundtrip [THEN conjunct1]) simp_all

subsection \<open>The allocator over its state file\<close>

text \<open>
  What the code relies on from \<^verbatim>\<open>encoding/json\<close>: a pool that was encoded decodes to itself, and
  decoding an empty file is \<^verbatim>\<open>io.EOF\<close>.
\<close>

definition codec_ok :: "allocator \<Rightarrow> bool" where
  "codec_ok a \<longleftrightarrow> (\<forall>j s. json_encode a j = Inr s \<longrightarrow> json_decode a s = Inr j) \<and>
     json_decode a '''' = Inl io_EOF \<and> is_range (port_order a) \<and> is_range (handle_order a)"

definition pool_of :: "allocator \<Rightarrow> state_file \<Rightarrow> Pool option" where
  "pool_of a f = (case decode_pool a (content f) of
     Inl e \<Rightarrow> if e = io_EOF then Some [] else None | Inr p \<Rightarrow> Some p)"

definition write_error :: "go_error \<Rightarrow> bool" where
  "write_error e \<longleftrightarrow> (\<exists>c. e = Errorf ''encode and overwrite: '' c)"

lemma pool_of_distinct: "pool_of a f = Some p \<Longrightarrow> distinct (map fst p)"
  by (auto simp: pool_of_def decode_pool_def distinct_unmarshal map_sum_def split: sum.splits if_splits)

lemma DecodeAll_cases:
  assumes "DecodeAll (decode_pool a) f = (r, f')"
  obtains (undecoded) e where "r = Inl e" "content f' = content f" "file_faults f = [] \<Longrightarrow> pool_of a f = None"
  | (decoded) x where "r = Inr x" "content f' = content f" "pool_of a f = Some (loaded x)"
      "file_faults f' = drop 1 (file_faults f)"
proof (cases "decode_pool a (content f)")
  case (Inl e)
  with assms show thesis using undecoded decoded [of None]
    by (cases "file_faults f")
      (auto simp: DecodeAll_def file_fault_def pool_of_def loaded_def split: option.splits if_splits)
next
  case (Inr b)
  with assms show thesis using undecoded decoded [of "Some b"]
    by (cases "file_faults f")
      (auto simp: DecodeAll_def file_fault_def pool_of_def loaded_def split: option.splits if_splits)
qed

lemma EncodeAndOverwrite_ok:
  assumes "EncodeAndOverwrite enc p f = (Inr u, f')"
  shows "enc p = Inr (content f')"
  using assms unfolding EncodeAndOverwrite_def file_fault_def Let_def
  by (auto split: list.splits option.splits sum.splits prod.splits)

lemma EncodeAndOverwrite_no_fault:
  "file_faults f = [] \<Longrightarrow> enc p = Inr s \<Longrightarrow> EncodeAndOverwrite enc p f = (Inr (), f\<lparr>content := s\<rparr>)"
  by (simp add: EncodeAndOverwrite_def file_fault_def)

lemma pool_of_encoded:
  assumes "codec_ok a" "encode_pool a p = Inr (content f)"
  shows "\<exists>p'. pool_of a f = Some p' \<and> map_of p' = map_of p"
proof -
  from assms have "pool_of a f = Some (pool_UnmarshalJSON (handle_order a) (pool_MarshalJSON (port_order a) p))"
    by (simp add: codec_ok_def encode_pool_def pool_of_def decode_pool_def)
  with assms(1) show ?thesis by (simp add: codec_ok_def unmarshal_marshal)
qed

lemma AllocatePort_cases:
  assumes "codec_ok a" "AllocatePort a h 0 f = (r, f')"
  obtains (failed) e where "r = Inl e" "\<not> write_error e" "content f' = content f"
      "pool_of a f = None \<or> file_faults f \<noteq> [] \<or> \<not> is_ok (lock_open a)"
      "e \<noteq> Errorf ''acquire port: '' ErrorPortPoolExhausted"
  | (exhausted) p where "r = Inl (Errorf ''acquire port: '' ErrorPortPoolExhausted)" "content f' = content f"
      "pool_of a f = Some p" "\<forall>x. InRange (tracker a) x \<longrightarrow> map_of p x \<noteq> None"
  | (unwritten) e p where "r = Inl e" "write_error e" "pool_of a f = Some p"
      "file_faults f = [] \<Longrightarrow> \<not> is_ok (encode_pool a (snd (AcquireOne (tracker a) p h)))"
  | (acquired) p c p' where "r = Inr c" "pool_of a f = Some p" "InRange (tracker a) c" "map_of p c = None"
      "\<forall>x. InRange (tracker a) x \<and> map_of p x = None \<longrightarrow> c \<le> x"
      "pool_of a f' = Some p'" "map_of p' = (map_of p)(c \<mapsto> h)"
proof -
  note run = assms(2) [unfolded AllocatePort_def]
  show thesis
  proof (cases "lock_open a")
    case (Inl e)
    with run show thesis by (intro failed) (auto simp: write_error_def)
  next
    case (Inr u)
    obtain d f1 where d: "DecodeAll (decode_pool a) f = (d, f1)" by fastforce
    from d show thesis
    proof (cases rule: DecodeAll_cases)
      case (undecoded e)
      with d Inr run show thesis by (intro failed) (auto simp: write_error_def)
    next
      case (decoded x)
      obtain c p' where c: "AcquireOne (tracker a) (loaded x) h = (c, p')" by fastforce
      from c show thesis
      proof (cases rule: AcquireOne_cases)
        case none_free
        with c d Inr run decoded show thesis by (intro exhausted [of "loaded x"]) auto
      next
        case (free n)
        obtain w f2 where w: "EncodeAndOverwrite (encode_pool a) p' f1 = (w, f2)" by fastforce
        show thesis
        proof (cases w)
          case (Inl e)
          moreover have "file_faults f = [] \<Longrightarrow> \<not> is_ok (encode_pool a p')"
            using w Inl decoded EncodeAndOverwrite_no_fault [of f1 "encode_pool a" p'] by auto
          ultimately show thesis using w c d run decoded free \<open>lock_open a = Inr u\<close>
            by (intro unwritten [of "Errorf ''encode and overwrite: '' e" "loaded x"]) (simp_all add: write_error_def)
        next
          case (Inr v)
          with w have "encode_pool a p' = Inr (content f2)" by (blast intro: EncodeAndOverwrite_ok)
          from pool_of_encoded [OF assms(1) this] obtain q where
            "pool_of a f2 = Some q" "map_of q = map_of p'" by blast
          then show thesis using w c d run decoded free Inr \<open>lock_open a = Inr u\<close>
            by (intro acquired [of n "loaded x" q]) (simp_all add: update_conv')
        qed
      qed
    qed
  qed
qed

lemma ReleaseAllPorts_cases:
  assumes "codec_ok a" "ReleaseAllPorts a h f = (r, f')"
  obtains (failed) e where "r = Inl e" "\<not> write_error e" "content f' = content f"
  | (unwritten) e where "r = Inl e" "write_error e"
  | (released) p p' where "r = Inr ()" "pool_of a f = Some p" "pool_of a f' = Some p'"
      "\<And>port. map_of p' port = (if map_of p port = Some h then None else map_of p port)"
proof -
  note run = assms(2) [unfolded ReleaseAllPorts_def]
  show thesis
  proof (cases "lock_open a")
    case (Inl e)
    with run show thesis by (intro failed) (auto simp: write_error_def)
  next
    case (Inr u)
    obtain d f1 where d: "DecodeAll (decode_pool a) f = (d, f1)" by fastforce
    from d show thesis
    proof (cases rule: DecodeAll_cases)
      case (undecoded e)
      with d Inr run show thesis by (intro failed) (auto simp: write_error_def)
    next
      case (decoded x)
      obtain w f2 where w: "EncodeAndOverwrite (encode_pool a) (ReleaseAll (loaded x) h) f1 = (w, f2)"
        by fastforce
      show thesis
      proof (cases w)
        case (Inl e)
        with w d run decoded \<open>lock_open a = Inr u\<close> show thesis
          by (intro unwritten [of "Errorf ''encode and overwrite: '' e"]) (simp_all add: write_error_def)
      next
        case (Inr v)
        with w have "encode_pool a (ReleaseAll (loaded x) h) = Inr (content f2)" by (blast intro: EncodeAndOverwrite_ok)
        from pool_of_encoded [OF assms(1) this] obtain q where
          "pool_of a f2 = Some q" "map_of q = map_of (ReleaseAll (loaded x) h)" by blast
        then show thesis using w d run decoded Inr \<open>lock_open a = Inr u\<close> pool_of_distinct [OF decoded(3)]
          by (intro released [of "loaded x" q]) (simp_all add: map_of_ReleaseAll del: map_of_eq_Some_iff)
      qed
    qed
  qed
qed

subsection \<open>Properties\<close>

text \<open>A codec for two small pools, for the witnesses.\<close>

definition demo_allocator :: allocator where
  "demo_allocator = \<lparr>tracker = \<lparr>StartPort = 40000, Capacity = 2\<rparr>, lock_open = Inr (),
     json_decode = (\<lambda>s. if s = '''' then Inl io_EOF
       else if s = ''A'' then Inr [(''a'', [40000])]
       else if s = ''B'' then Inr [(''a'', [40000]), (''b'', [40001])]
       else Inl (JsonError ''invalid character'')),
     json_encode = (\<lambda>j. if j = [(''a'', [40000])] then Inr ''A''
       else if j = [(''a'', [40000]), (''b'', [40001])] then Inr ''B''
       else Inl (JsonError ''unsupported value'')),
     port_order = (\<lambda>ks. ks), handle_order = (\<lambda>ks. ks)\<rparr>"

lemma demo_codec_ok: "codec_ok demo_allocator"
  by (simp add: codec_ok_def demo_allocator_def)

text \<open>C27. A call that asks for any port gets the least port of the range that no handle holds, and
  the state file then holds the old assignment with that port added; it is refused as exhausted
  only when every port of the range is held, and an error before the write leaves the file as it
  was. With a readable file, no I/O fault, an encodable pool and a free port it succeeds.\<close>

theorem AllocatePort_least_free:
  assumes "codec_ok a" "pool_of a f = Some pool" "AllocatePort a h 0 f = (r, f')"
  shows "(case r of
      Inr port \<Rightarrow> InRange (tracker a) port \<and> map_of pool port = None \<and>
        (\<forall>x. InRange (tracker a) x \<and> map_of pool x = None \<longrightarrow> port \<le> x) \<and>
        (\<exists>pool'. pool_of a f' = Some pool' \<and> map_of pool' = (map_of pool)(port \<mapsto> h))
    | Inl e \<Rightarrow> (\<not> write_error e \<longrightarrow> content f' = content f) \<and>
        (e = Errorf ''acquire port: '' ErrorPortPoolExhausted \<longrightarrow>
           (\<forall>x. InRange (tracker a) x \<longrightarrow> map_of pool x \<noteq> None))) \<and>
    (lock_open a = Inr () \<and> file_faults f = [] \<and> (\<exists>x. InRange (tracker a) x \<and> map_of pool x = None) \<and>
       is_ok (encode_pool a (snd (AcquireOne (tracker a) pool h))) \<longrightarrow> is_ok r)"
  using assms(1,3) by (cases rule: AllocatePort_cases) (use assms(2) in \<open>auto simp: write_error_def\<close>)

theorem AllocatePort_least_free_witness:
  "case AllocatePort demo_allocator ''b'' 0 \<lparr>content = ''A'', file_faults = []\<rparr> of
     (r, f') \<Rightarrow> r = Inr 40001 \<and> content f' = ''B'' \<and> is_ok r"
proof -
  have run: "AllocatePort demo_allocator ''b'' 0 \<lparr>content = ''A'', file_faults = []\<rparr> =
    (Inr 40001, \<lparr>content = ''B'', file_faults = []\<rparr>)" by code_simp
  have pool: "pool_of demo_allocator \<lparr>content = ''A'', file_faults = []\<rparr> = Some [(40000, ''a'')]" by code_simp
  have "is_ok (Inr 40001 :: int result)"
    using AllocatePort_least_free [OF demo_codec_ok pool run] by simp
  with run show ?thesis by simp
qed

text \<open>
  Runs of the allocator: any sequence of calls by any handles, with \<open>held\<close> what the callers were
  told. Calls may fail, but not in the middle of a write.
\<close>

inductive port_run :: "allocator \<Rightarrow> state_file \<Rightarrow> (int \<rightharpoonup> string) \<Rightarrow> bool" for a where
  start: "content f = '''' \<Longrightarrow> port_run a f Map.empty"
| allocated: "port_run a f held \<Longrightarrow> AllocatePort a h 0 f = (Inr port, f') \<Longrightarrow> port_run a f' (held(port \<mapsto> h))"
| specified: "port_run a f held \<Longrightarrow> port \<noteq> 0 \<Longrightarrow> AllocatePort a h port f = (r, f') \<Longrightarrow> port_run a f' held"
| refused: "port_run a f held \<Longrightarrow> AllocatePort a h 0 f = (Inl e, f') \<Longrightarrow> \<not> write_error e \<Longrightarrow> port_run a f' held"
| released: "port_run a f held \<Longrightarrow> ReleaseAllPorts a h f = (Inr (), f') \<Longrightarrow>
    port_run a f' (\<lambda>port. if held port = Some h then None else held port)"
| unreleased: "port_run a f held \<Longrightarrow> ReleaseAllPorts a h f = (Inl e, f') \<Longrightarrow> \<not> write_error e \<Longrightarrow> port_run a f' held"

lemma port_run_pool:
  assumes "codec_ok a" "port_run a f held"
  shows "\<exists>pool. pool_of a f = Some pool \<and> map_of pool = held \<and> (\<forall>port \<in> dom held. InRange (tracker a) port)"
  using assms(2)
proof (induction rule: port_run.induct)
  case (start f)
  with assms(1) show ?case by (auto simp: pool_of_def decode_pool_def codec_ok_def)
next
  case (allocated f held h port f')
  from assms(1) allocated(2) show ?case
    by (cases rule: AllocatePort_cases) (use allocated in \<open>auto split: if_splits\<close>)
next
  case (specified f held port h r f')
  then show ?case by (auto simp: AllocatePort_def split: if_splits)
next
  case (refused f held h e f')
  from assms(1) refused(2) show ?case
    by (cases rule: AllocatePort_cases) (use refused in \<open>auto simp: pool_of_def\<close>)
next
  case (released f held h f')
  from assms(1) released(2) show ?case
  proof (cases rule: ReleaseAllPorts_cases)
    case (released p p')
    with \<open>\<exists>pool. _ pool\<close> show ?thesis by (intro exI [of _ p']) (auto split: if_splits)
  qed simp_all
next
  case (unreleased f held h e f')
  from assms(1) unreleased(2) show ?case
    by (cases rule: ReleaseAllPorts_cases) (use unreleased in \<open>auto simp: pool_of_def\<close>)
qed



text \<open>C29. The file is truncated before the new pool is written: when the write then fails with
  nothing written, the call reports an error and every recorded assignment is gone, so that the
  next call may hand out a port that is still in use.\<close>

theorem failed_write_forgets_ports:
  assumes "codec_ok a" "lock_open a = Inr ()" "file_faults f = [None, None, None, Some (e, 0)]"
    "pool_of a f = Some pool" "AcquireOne (tracker a) pool h = (Inr port, pool')" "encode_pool a pool' = Inr s"
  shows "\<exists>f'. AllocatePort a h 0 f = (Inl (Errorf ''encode and overwrite: '' (DriverError e)), f') \<and>
    pool_of a f' = Some []"
proof -
  obtain d f1 where d: "DecodeAll (decode_pool a) f = (d, f1)" by fastforce
  from d show ?thesis
  proof (cases rule: DecodeAll_cases)
    case (undecoded x)
    with d assms show ?thesis
      by (auto simp: DecodeAll_def file_fault_def pool_of_def split: sum.splits if_splits)
  next
    case (decoded x)
    with d assms show ?thesis
      by (simp add: AllocatePort_def EncodeAndOverwrite_def file_fault_def pool_of_def decode_pool_def codec_ok_def)
  qed
qed

theorem failed_write_forgets_ports_witness:
  "\<exists>f'. AllocatePort demo_allocator ''b'' 0
      \<lparr>content = ''A'', file_faults = [None, None, None, Some (''no space left on device'', 0)]\<rparr> =
      (Inl (Errorf ''encode and overwrite: '' (DriverError ''no space left on device'')), f') \<and>
    pool_of demo_allocator f' = Some []"
  by (rule failed_write_forgets_ports [OF demo_codec_ok, where pool = "[(40000, ''a'')]" and port = 40001
      and pool' = "[(40000, ''a''), (40001, ''b'')]" and s = "''B''"]) code_simp+

end
