(* ===== verification/Garden_CNI.thy ===== *)
theory Garden_CNI
  imports IPTables_Rules Port_Allocator "HOL-Library.Word"
begin

text \<open>
  The parts that the manager of \<^verbatim>\<open>garden-external-networker\<close> calls: \<^verbatim>\<open>bindmount\<close>, \<^verbatim>\<open>cni\<close> and \<^verbatim>\<open>proxy\<close>.
  System calls, the library \<^verbatim>\<open>libcni\<close> and the
  network-namespace library are parameters; the network configuration list, which the controller
  changes in place, is part of the state.
\<close>

subsection \<open>State\<close>

datatype ('v, 'o) cni_value = Metadata "(string \<times> 'v) list" | RuntimeConfig 'o

record 'n network_config_list =
  net_name :: string
  Plugins :: "'n list"

text \<open>What \<^verbatim>\<open>Manager.Down\<close> writes to its logger.\<close>

datatype down_log = RemovingBindMount string go_error | ReleasingPorts go_error

record ('k, 'f, 'n, 'c) node =
  iptables_host :: "'k host"
  ports :: state_file
  err_log :: "down_log list"
  files :: 'f
  NetworkConfigList :: "'n network_config_list option"
  networks :: 'c

subsection \<open>Bind mounts\<close>

record 'f os_calls =
  os_MkdirAll :: "string \<Rightarrow> 'f \<Rightarrow> unit result \<times> 'f"
  os_Create :: "string \<Rightarrow> 'f \<Rightarrow> unit result \<times> 'f"
  unix_Mount :: "string \<Rightarrow> string \<Rightarrow> 'f \<Rightarrow> unit result \<times> 'f"
  unix_Unmount :: "string \<Rightarrow> 'f \<Rightarrow> unit result \<times> 'f"
  os_RemoveAll :: "string \<Rightarrow> 'f \<Rightarrow> unit result \<times> 'f"

definition ENOENT :: go_error where
  "ENOENT = ErrText ''no such file or directory''"

definition IdempotentlyMount :: "'f os_calls \<Rightarrow> string \<Rightarrow> string \<Rightarrow> 'f \<Rightarrow> unit result \<times> 'f" where
  "IdempotentlyMount os source target f = (case os_MkdirAll os (filepath_Dir target) f of
       (Inl e, f) \<Rightarrow> (Inl (Errorf ''os.MkdirAll failed: '' e), f)
     | (Inr _, f) \<Rightarrow> (case os_Create os target f of
         (Inl e, f) \<Rightarrow> (Inl (Errorf ''os.Create failed: '' e), f)
       | (Inr _, f) \<Rightarrow> (case unix_Mount os source target f of
           (Inl e, f) \<Rightarrow> (Inl (Errorf ''mount failed: '' e), f)
         | (Inr _, f) \<Rightarrow> (Inr (), f))))"

definition RemoveMount :: "'f os_calls \<Rightarrow> string \<Rightarrow> 'f \<Rightarrow> unit result \<times> 'f" where
  "RemoveMount os target f = (case unix_Unmount os target f of (err, f) \<Rightarrow>
     if \<not> is_ok err \<and> err \<noteq> Inl ENOENT then (Inl (Errorf ''unmount failed: '' (projl err)), f)
     else case os_RemoveAll os target f of
         (Inl e, f) \<Rightarrow> (Inl (Errorf ''removeall failed: '' e), f)
       | (Inr _, f) \<Rightarrow> (Inr (), f))"

text \<open>On Windows both calls do nothing.\<close>

definition windows_IdempotentlyMount :: "string \<Rightarrow> string \<Rightarrow> 'f \<Rightarrow> unit result \<times> 'f" where
  "windows_IdempotentlyMount source target f = (Inr (), f)"

definition windows_RemoveMount :: "string \<Rightarrow> 'f \<Rightarrow> unit result \<times> 'f" where
  "windows_RemoveMount target f = (Inr (), f)"

subsection \<open>CNI controller\<close>

record RuntimeConf =
  ContainerID :: string
  NetNS :: string
  IfName :: string

text \<open>\<^verbatim>\<open>AddNetworkList\<close> may return a nil result.\<close>

record ('n, 'v, 'o, 'c, 'r) libcni =
  InjectConf :: "'n \<Rightarrow> (string \<times> ('v, 'o) cni_value) list \<Rightarrow> 'n result"
  AddNetworkList :: "'n network_config_list \<Rightarrow> RuntimeConf \<Rightarrow> 'c \<Rightarrow> 'r option result \<times> 'c"
  DelNetworkList :: "'n network_config_list option \<Rightarrow> RuntimeConf \<Rightarrow> 'c \<Rightarrow> unit result \<times> 'c"

definition runtime_conf :: "string \<Rightarrow> string \<Rightarrow> RuntimeConf" where
  "runtime_conf namespacePath handle = \<lparr>ContainerID = handle, NetNS = namespacePath, IfName = ''eth0''\<rparr>"

text \<open>The loop over the plugins, which stores every configuration before it injects the next one.\<close>

fun inject_plugins :: "('n \<Rightarrow> 'n result) \<Rightarrow> 'n list \<Rightarrow> unit result \<times> 'n list" where
  "inject_plugins inject [] = (Inr (), [])"
| "inject_plugins inject (p # ps) = (case inject p of
       Inl e \<Rightarrow> (Inl (Errorf ''adding extra data to CNI config: '' e), p # ps)
     | Inr p' \<Rightarrow> (case inject_plugins inject ps of (r, ps') \<Rightarrow> (r, p' # ps')))"

definition extra_keys :: "(string \<times> 'v) list \<Rightarrow> 'o \<Rightarrow> (string \<times> ('v, 'o) cni_value) list" where
  "extra_keys metadata legacyNetConf =
     (if metadata \<noteq> [] then [(''metadata'', Metadata metadata)] else []) @ [(''runtimeConfig'', RuntimeConfig legacyNetConf)]"

text \<open>The one caller passes a legacy configuration with two keys, so its length test always holds.\<close>

definition CNIController_Up ::
  "('n, 'v, 'o, 'c, 'r) libcni \<Rightarrow> string \<Rightarrow> string \<Rightarrow> (string \<times> 'v) list \<Rightarrow> 'o \<Rightarrow> ('k, 'f, 'n, 'c) node \<Rightarrow>
   'r option result \<times> ('k, 'f, 'n, 'c) node" where
  "CNIController_Up lib namespacePath handle metadata legacyNetConf w = (case NetworkConfigList w of
       None \<Rightarrow> (Inr None, w)
     | Some conf \<Rightarrow>
         (case inject_plugins (\<lambda>p. InjectConf lib p (extra_keys metadata legacyNetConf)) (Plugins conf) of
            (r, ps) \<Rightarrow>
              (let conf' = conf\<lparr>Plugins := ps\<rparr>; w = w\<lparr>NetworkConfigList := Some conf'\<rparr> in
               case r of
                 Inl e \<Rightarrow> (Inl e, w)
               | Inr _ \<Rightarrow> (case AddNetworkList lib conf' (runtime_conf namespacePath handle) (networks w) of
                   (Inl e, c) \<Rightarrow> (Inl (Errorf ''add network list failed: '' e), w\<lparr>networks := c\<rparr>)
                 | (Inr result, c) \<Rightarrow> (Inr result, w\<lparr>networks := c\<rparr>)))))"

definition CNIController_Down ::
  "('n, 'v, 'o, 'c, 'r) libcni \<Rightarrow> string \<Rightarrow> string \<Rightarrow> ('k, 'f, 'n, 'c) node \<Rightarrow> unit result \<times> ('k, 'f, 'n, 'c) node" where
  "CNIController_Down lib namespacePath handle w =
     (case DelNetworkList lib (NetworkConfigList w) (runtime_conf namespacePath handle) (networks w) of
        (Inl e, c) \<Rightarrow> (Inl (Errorf ''del network failed: '' e), w\<lparr>networks := c\<rparr>)
      | (Inr _, c) \<Rightarrow> (Inr (), w\<lparr>networks := c\<rparr>))"

subsection \<open>CNI configuration files\<close>

text \<open>
  The entries that \<^verbatim>\<open>filepath.Walk\<close> visits, in its order: a path and whether it is a directory, or an
  error. The functions of \<^verbatim>\<open>libcni\<close> that load a file are parameters. \<open>Inr (conf, warned)\<close>: the
  chosen configuration, and whether the warning about several files was written.
\<close>

record ('n, 'p) conf_files =
  ConfListFromFile :: "string \<Rightarrow> 'n network_config_list result"
  ConfFromFile :: "string \<Rightarrow> 'p result"
  ConfListFromConf :: "'p \<Rightarrow> 'n network_config_list result"

definition GetCNIConfig :: "string \<Rightarrow> string list" where
  "GetCNIConfig PluginDir = [PluginDir]"

fun walk_configs :: "(string \<times> bool) result list \<Rightarrow> string list \<Rightarrow> string list \<Rightarrow> (string list \<times> string list) result" where
  "walk_configs [] confs conflists = Inr (confs, conflists)"
| "walk_configs (Inl e # es) confs conflists = Inl e"
| "walk_configs (Inr (path, isDir) # es) confs conflists =
     (if isDir then walk_configs es confs conflists
      else if has_suffix path ''.conf'' then walk_configs es (confs @ [path]) conflists
      else if has_suffix path ''.conflist'' then walk_configs es confs (conflists @ [path])
      else walk_configs es confs conflists)"

definition GetNetworkConfig ::
  "('n, 'p) conf_files \<Rightarrow> (string \<times> bool) result list \<Rightarrow> ('n network_config_list option \<times> bool) result" where
  "GetNetworkConfig lib entries = (case walk_configs entries [] [] of
       Inl e \<Rightarrow> Inl (Errorf ''error loading config: '' e)
     | Inr (confFilePaths, confListFilePaths) \<Rightarrow>
         (let warned = length confListFilePaths + length confFilePaths > 1 in
          case confListFilePaths of
            path # _ \<Rightarrow> (case ConfListFromFile lib path of
                Inl e \<Rightarrow> Inl (Errorf (''unable to load config from '' @ path @ '': '') e)
              | Inr confList \<Rightarrow> Inr (Some confList, warned))
          | [] \<Rightarrow> (case confFilePaths of
              path # _ \<Rightarrow> (case ConfFromFile lib path of
                  Inl e \<Rightarrow> Inl (Errorf (''unable to load config from '' @ path @ '': '') e)
                | Inr conf \<Rightarrow> (case ConfListFromConf lib conf of
                    Inl e \<Rightarrow> Inl (Errorf (''unable to upconvert from conf to conf list '' @ path @ '': '') e)
                  | Inr confList \<Rightarrow> Inr (Some confList, warned)))
            | [] \<Rightarrow> Inr (None, warned))))"

subsection \<open>Proxy redirect\<close>

text \<open>
  \<^verbatim>\<open>GetNS\<close> and \<^verbatim>\<open>netNS.Do\<close> are parameters. The error of \<^verbatim>\<open>GetNS\<close> is overwritten, and calling \<^verbatim>\<open>Do\<close> on the
  nil namespace it left panics.
\<close>

record ('k, 's) redirect =
  IPTables :: "'k iptables_lib"
  GetNS :: "string \<Rightarrow> 's result"
  ns_Do :: "'s \<Rightarrow> ('k host \<Rightarrow> unit result \<times> 'k host) \<Rightarrow> 'k host \<Rightarrow> unit result \<times> 'k host"
  RedirectCIDR :: string
  ProxyPort :: int
  ProxyUID :: int

definition redirect_rule :: "('k, 's) redirect \<Rightarrow> IPTablesRule" where
  "redirect_rule r =
     [''-d'', RedirectCIDR r,
      ''-p'', ''tcp'',
      ''-m'', ''owner'', ''!'', ''--uid-owner'', itoa (ProxyUID r),
      ''-j'', ''REDIRECT'', ''--to-port'', itoa (ProxyPort r)]"

definition redirect_Apply :: "('k, 's) redirect \<Rightarrow> string \<Rightarrow> 'k host \<Rightarrow> unit result \<times> 'k host" where
  "redirect_Apply r containerNetNamespace h =
     (if RedirectCIDR r = '''' then (Inr (), h)
      else case GetNS r containerNetNamespace of
          Inl e \<Rightarrow> (Inl (Panic ''nil pointer dereference''), h)
        | Inr netNS \<Rightarrow>
            (case ns_Do r netNS (BulkAppend (IPTables r) ''nat'' ''OUTPUT'' [redirect_rule r]) h of
               (Inl e, h) \<Rightarrow> (Inl (Errorf ''do in container: '' e), h)
             | (Inr _, h) \<Rightarrow> (Inr (), h)))"

end
