(* ===== verification/Garden_Manager.thy ===== *)
theory Garden_Manager
  imports Garden_CNI
begin

text \<open>
  \<^verbatim>\<open>garden-external-networker\<close>: the manager that brings the network of a container up and down, the
  multiplexer in front of it (one call on standard input, or many calls over a socket), the
  configuration and the main program that wires them to the parts of \<open>Garden_CNI\<close> and
  \<open>Port_Allocator\<close>.
\<close>

subsection \<open>Manager\<close>

record NetIn =
  HostPort :: "32 word"
  ContainerPort :: "32 word"

record PortMapping =
  pm_HostPort :: "32 word"
  pm_ContainerPort :: "32 word"

record ('v, 'q) UpInputs =
  Pid :: int
  Properties :: "(string \<times> 'v) list"
  NetOut :: "'q list"
  in_NetIn :: "NetIn list"

record UpOutputs =
  ContainerIP :: string
  DeprecatedHostIP :: string
  MappedPorts :: string
  DNSServers :: "string list"
  out_SearchDomains :: "string list"

text \<open>The fields of a CNI result of version 0.2.0 that are read; \<^verbatim>\<open>IP4\<close> is a pointer.\<close>

record result020 =
  IP4 :: "string option"
  Nameservers :: "string list"

record ('w, 'v, 'q, 'r) Manager =
  m_Up :: "string \<Rightarrow> string \<Rightarrow> (string \<times> 'v) list \<Rightarrow> NetIn list \<times> 'q list \<Rightarrow> 'w \<Rightarrow> 'r option result \<times> 'w"
  m_Down :: "string \<Rightarrow> string \<Rightarrow> 'w \<Rightarrow> unit result \<times> 'w"
  m_IdempotentlyMount :: "string \<Rightarrow> string \<Rightarrow> 'w \<Rightarrow> unit result \<times> 'w"
  m_RemoveMount :: "string \<Rightarrow> 'w \<Rightarrow> unit result \<times> 'w"
  BindMountRoot :: string
  m_AllocatePort :: "string \<Rightarrow> int \<Rightarrow> 'w \<Rightarrow> int result \<times> 'w"
  m_ReleaseAllPorts :: "string \<Rightarrow> 'w \<Rightarrow> unit result \<times> 'w"
  SearchDomains :: "string list"
  m_Apply :: "string \<Rightarrow> 'w \<Rightarrow> unit result \<times> 'w"
  m_log :: "down_log \<Rightarrow> 'w \<Rightarrow> 'w"
  GetAsVersion :: "'r \<Rightarrow> result020 result"
  marshal_ports :: "PortMapping list \<Rightarrow> string result"

definition toJson :: "(PortMapping list \<Rightarrow> string result) \<Rightarrow> PortMapping list \<Rightarrow> string result" where
  "toJson marshal mappedPorts = (case marshal mappedPorts of
     Inl e \<Rightarrow> Inl (Panic ''json'') | Inr bytes \<Rightarrow> Inr bytes)"

text \<open>The loop over \<^verbatim>\<open>inputs.NetIn\<close>: the updated inputs and the mapped ports.\<close>

fun allocate_ports ::
  "(string \<Rightarrow> int \<Rightarrow> 'w \<Rightarrow> int result \<times> 'w) \<Rightarrow> string \<Rightarrow> NetIn list \<Rightarrow> 'w \<Rightarrow> (NetIn list \<times> PortMapping list) result \<times> 'w" where
  "allocate_ports alloc handle [] w = (Inr ([], []), w)"
| "allocate_ports alloc handle (n # ns) w =
     (case (if HostPort n = 0 then
              (case alloc handle (uint (HostPort n)) w of
                 (Inl e, w) \<Rightarrow> (Inl (Errorf ''allocating port: '' e), w)
               | (Inr hostPort, w) \<Rightarrow> (Inr (n\<lparr>HostPort := word_of_int hostPort\<rparr>), w))
            else (Inr n, w)) of
        (Inl e, w) \<Rightarrow> (Inl e, w)
      | (Inr n, w) \<Rightarrow> (case allocate_ports alloc handle ns w of
          (Inl e, w) \<Rightarrow> (Inl e, w)
        | (Inr (ns, mapped), w) \<Rightarrow>
            (Inr (n # ns, \<lparr>pm_HostPort = HostPort n, pm_ContainerPort = ContainerPort n\<rparr> # mapped), w)))"

definition Up ::
  "('w, 'v, 'q, 'r) Manager \<Rightarrow> string \<Rightarrow> ('v, 'q) UpInputs \<Rightarrow> int option \<Rightarrow> 'w \<Rightarrow> UpOutputs result \<times> 'w" where
  "Up m containerHandle inputs nsFD w =
     (if Pid inputs = 0 then (Inl (ErrText ''up missing pid''), w)
      else if containerHandle = '''' then (Inl (ErrText ''up missing container handle''), w)
      else
        let procNsPath = (case nsFD of
              None \<Rightarrow> ''/proc/'' @ itoa (Pid inputs) @ ''/ns/net'' | Some fd \<Rightarrow> ''/proc/self/fd/'' @ itoa fd);
            bindMountPath = filepath_Join (BindMountRoot m) containerHandle
        in case m_IdempotentlyMount m procNsPath bindMountPath w of
             (Inl e, w) \<Rightarrow> (Inl (Errorf (''failed mounting '' @ procNsPath @ '' to '' @ bindMountPath @ '': '') e), w)
           | (Inr _, w) \<Rightarrow> (case allocate_ports (m_AllocatePort m) containerHandle (in_NetIn inputs) w of
               (Inl e, w) \<Rightarrow> (Inl e, w)
             | (Inr (netIn, mappedPorts), w) \<Rightarrow>
                 (case m_Up m bindMountPath containerHandle (Properties inputs) (netIn, NetOut inputs) w of
                    (Inl e, w) \<Rightarrow> (Inl (Errorf ''cni up failed: '' e), w)
                  | (Inr None, w) \<Rightarrow> (Inl (ErrText ''cni up failed: no ip allocated''), w)
                  | (Inr (Some result), w) \<Rightarrow> (case GetAsVersion m result of
                      Inl e \<Rightarrow> (Inl (Errorf ''cni plugin result version incompatible: '' e), w)
                    | Inr result020 \<Rightarrow> (case m_Apply m bindMountPath w of
                        (Inl e, w) \<Rightarrow> (Inl (Errorf ''proxy redirect apply: '' e), w)
                      | (Inr _, w) \<Rightarrow> (case IP4 result020 of
                          None \<Rightarrow> (Inl (Panic ''nil pointer dereference''), w)
                        | Some containerIP \<Rightarrow> (case toJson (marshal_ports m) mappedPorts of
                            Inl e \<Rightarrow> (Inl e, w)
                          | Inr mapped \<Rightarrow>
                              (Inr \<lparr>ContainerIP = containerIP, DeprecatedHostIP = ''255.255.255.255'',
                                MappedPorts = mapped, DNSServers = Nameservers result020,
                                out_SearchDomains = SearchDomains m\<rparr>, w))))))))"

definition Down :: "('w, 'v, 'q, 'r) Manager \<Rightarrow> string \<Rightarrow> 'w \<Rightarrow> unit result \<times> 'w" where
  "Down m containerHandle w =
     (if containerHandle = '''' then (Inl (ErrText ''down missing container handle''), w)
      else let bindMountPath = filepath_Join (BindMountRoot m) containerHandle
        in case m_Down m bindMountPath containerHandle w of
             (Inl e, w) \<Rightarrow> (Inl (Errorf ''cni down: '' e), w)
           | (Inr _, w) \<Rightarrow>
               (let w = (case m_RemoveMount m bindMountPath w of
                      (Inl e, w) \<Rightarrow> m_log m (RemovingBindMount bindMountPath e) w | (Inr _, w) \<Rightarrow> w);
                    w = (case m_ReleaseAllPorts m containerHandle w of
                      (Inl e, w) \<Rightarrow> m_log m (ReleasingPorts e) w | (Inr _, w) \<Rightarrow> w)
                in (Inr (), w)))"

subsection \<open>Multiplexer\<close>

text \<open>Decoding of inputs and encoding of outputs (with the write to standard output) are parameters.\<close>

record ('w, 'i, 'o) Mux =
  mux_Up :: "string \<Rightarrow> 'i \<Rightarrow> int option \<Rightarrow> 'w \<Rightarrow> 'o result \<times> 'w"
  mux_Down :: "string \<Rightarrow> 'w \<Rightarrow> unit result \<times> 'w"
  decode_inputs :: "string \<Rightarrow> 'i result"
  encode_outputs :: "'o \<Rightarrow> string result"

text \<open>The result, what was written to standard output, and the state.\<close>

definition mux_handle ::
  "('w, 'i, 'o) Mux \<Rightarrow> string \<Rightarrow> string \<Rightarrow> int option \<Rightarrow> string \<Rightarrow> 'w \<Rightarrow> (unit result \<times> string) \<times> 'w" where
  "mux_handle m action handle netNSFD stdin w =
     (if handle = '''' then ((Inl (ErrText ''missing handle''), ''''), w)
      else if action = ''up'' then
        (case decode_inputs m stdin of
           Inl e \<Rightarrow> ((Inl e, ''''), w)
         | Inr inputs \<Rightarrow> (case mux_Up m handle inputs netNSFD w of
             (Inl e, w) \<Rightarrow> ((Inl e, ''''), w)
           | (Inr outputs, w) \<Rightarrow> (case encode_outputs m outputs of
               Inl e \<Rightarrow> ((Inl e, ''''), w)
             | Inr s \<Rightarrow> ((Inr (), s), w))))
      else if action = ''down'' then
        (case mux_Down m handle w of
           (Inl e, w) \<Rightarrow> ((Inl e, ''''), w)
         | (Inr _, w) \<Rightarrow> ((Inr (), ''{}''), w))
      else ((Inl (ErrText (''unrecognized action: '' @ action)), ''''), w))"

definition mux_Handle :: "('w, 'i, 'o) Mux \<Rightarrow> string \<Rightarrow> string \<Rightarrow> string \<Rightarrow> 'w \<Rightarrow> (unit result \<times> string) \<times> 'w" where
  "mux_Handle m action handle stdin w = mux_handle m action handle None stdin w"

text \<open>
  A connection of the socket: whether \<^verbatim>\<open>Accept\<close> succeeded, whether it is a Unix connection, what
  \<^verbatim>\<open>ReadMsgUnix\<close> returned (the control bytes it read), and the bytes of its message. Parsing of control
  messages and of the JSON message are parameters.
\<close>

record message =
  Command :: string
  msg_Handle :: string
  msg_Data :: string

record connection =
  accepted :: "unit result"
  is_unix :: bool
  control_read :: "string result"
  payload :: string

record 'm socket_lib =
  CmsgSpace4 :: nat
  ParseSocketControlMessage :: "string \<Rightarrow> 'm list result"
  ParseUnixRights :: "'m \<Rightarrow> int list result"
  decode_message :: "string \<Rightarrow> message result"

definition parseUnixRights :: "'m socket_lib \<Rightarrow> 'm \<Rightarrow> int list result" where
  "parseUnixRights s m = (case ParseUnixRights s m of
       Inl e \<Rightarrow> Inl e
     | Inr messages \<Rightarrow> if length messages \<noteq> 1 then Inl (ErrText ''no messages parsed'') else Inr messages)"

definition parseSocketControlMessage :: "'m socket_lib \<Rightarrow> string \<Rightarrow> 'm list result" where
  "parseSocketControlMessage s b = (case ParseSocketControlMessage s b of
       Inl e \<Rightarrow> Inl e
     | Inr messages \<Rightarrow> if length messages \<noteq> 1 then Inl (ErrText ''no messages parsed'') else Inr messages)"

definition recvFD :: "'m socket_lib \<Rightarrow> connection \<Rightarrow> int result" where
  "recvFD s conn = (case control_read conn of
       Inl e \<Rightarrow> Inl e
     | Inr bytes \<Rightarrow>
         if length bytes > CmsgSpace4 s then Inl (ErrText ''received too many things'')
         else (case parseSocketControlMessage s bytes of
             Inl e \<Rightarrow> Inl e
           | Inr messages \<Rightarrow> (case parseUnixRights s (hd messages) of
               Inl e \<Rightarrow> Inl e
             | Inr fds \<Rightarrow> Inr (hd fds))))"

definition readNsFileDescriptor :: "'m socket_lib \<Rightarrow> connection \<Rightarrow> int result" where
  "readNsFileDescriptor s conn =
     (if \<not> is_unix conn then Inl (ErrText ''failed to cast connection to unixconn'') else recvFD s conn)"

definition decodeMsg :: "'m socket_lib \<Rightarrow> string \<Rightarrow> message result" where
  "decodeMsg s r = (case decode_message s r of Inl e \<Rightarrow> Inl e | Inr msg \<Rightarrow> Inr msg)"

definition handleOne :: "('w, 'i, 'o) Mux \<Rightarrow> 'm socket_lib \<Rightarrow> connection \<Rightarrow> 'w \<Rightarrow> (unit result \<times> string) \<times> 'w" where
  "handleOne m s conn w = (case accepted conn of
       Inl e \<Rightarrow> ((Inl e, ''''), w)
     | Inr _ \<Rightarrow> (case readNsFileDescriptor s conn of
         Inl e \<Rightarrow> ((Inl e, ''''), w)
       | Inr nsFD \<Rightarrow> (case decodeMsg s (payload conn) of
           Inl e \<Rightarrow> ((Inl e, ''''), w)
         | Inr msg \<Rightarrow> mux_handle m (Command msg) (msg_Handle msg) (Some nsFD) (msg_Data msg) w)))"

text \<open>The endless loop, on the connections it has met so far: the replies, the logged errors, the state.\<close>

fun serve_connections ::
  "('w, 'i, 'o) Mux \<Rightarrow> 'm socket_lib \<Rightarrow> connection list \<Rightarrow> 'w \<Rightarrow> (string list \<times> go_error list) \<times> 'w" where
  "serve_connections m s [] w = (([], []), w)"
| "serve_connections m s (conn # conns) w = (case handleOne m s conn w of
       ((r, out), w) \<Rightarrow> (case serve_connections m s conns w of
         ((outs, errs), w) \<Rightarrow> ((out # outs, (case r of Inl e \<Rightarrow> [e] | Inr _ \<Rightarrow> []) @ errs), w)))"

definition HandleWithSocket ::
  "('w, 'i, 'o) Mux \<Rightarrow> 'm socket_lib \<Rightarrow> unit result \<Rightarrow> connection list \<Rightarrow> 'w \<Rightarrow> (string list \<times> go_error list) result \<times> 'w" where
  "HandleWithSocket m s listen conns w = (case listen of
       Inl e \<Rightarrow> (Inl e, w)
     | Inr _ \<Rightarrow> (case serve_connections m s conns w of (r, w) \<Rightarrow> (Inr r, w)))"

subsection \<open>Ports of a container\<close>

text \<open>What the port requests of a container become when \<open>news\<close> are the ports handed out, in order.\<close>

fun assign_ports :: "NetIn list \<Rightarrow> int list \<Rightarrow> NetIn list" where
  "assign_ports [] news = []"
| "assign_ports (n # ns) news =
     (if HostPort n \<noteq> 0 then n # assign_ports ns news
      else n\<lparr>HostPort := word_of_int (hd news)\<rparr> # assign_ports ns (tl news))"

definition port_mapping :: "NetIn \<Rightarrow> PortMapping" where
  "port_mapping n = \<lparr>pm_HostPort = HostPort n, pm_ContainerPort = ContainerPort n\<rparr>"

text \<open>
  The contract of a port allocator: a port that is handed out was held by nobody, is in the range,
  and is afterwards held by the handle that asked.
\<close>

locale port_contract =
  fixes alloc :: "string \<Rightarrow> int \<Rightarrow> 'w \<Rightarrow> int result \<times> 'w"
    and held :: "'w \<Rightarrow> int \<rightharpoonup> string"
    and good :: "'w \<Rightarrow> bool"
    and in_range :: "int \<Rightarrow> bool"
  assumes alloc_new: "good w \<Longrightarrow> alloc h 0 w = (Inr p, w') \<Longrightarrow>
    good w' \<and> in_range p \<and> held w p = None \<and> held w' = (held w)(p \<mapsto> h)"
begin

lemma allocate_ports_new:
  "good w \<Longrightarrow> allocate_ports alloc h ns w = (Inr (ns', mapped), w') \<Longrightarrow>
   \<exists>news. good w' \<and> ns' = assign_ports ns news \<and> mapped = map port_mapping ns' \<and>
     length news = length (filter (\<lambda>n. HostPort n = 0) ns) \<and> distinct news \<and>
     (\<forall>p \<in> set news. in_range p \<and> held w p = None) \<and>
     held w' = (\<lambda>p. if p \<in> set news then Some h else held w p)"
proof (induction ns arbitrary: w ns' mapped)
  case Nil
  then show ?case by (intro exI [of _ "[]"]) auto
next
  case (Cons n ns)
  show ?case
  proof (cases "HostPort n = 0")
    case False
    with Cons.prems obtain rest mrest where
      "allocate_ports alloc h ns w = (Inr (rest, mrest), w')" "ns' = n # rest" "mapped = port_mapping n # mrest"
      by (auto simp: port_mapping_def split: prod.splits sum.splits)
    with Cons.IH [OF Cons.prems(1)] False show ?thesis by fastforce
  next
    case True
    with Cons.prems(2) obtain p w1 rest mrest where
      p: "alloc h 0 w = (Inr p, w1)" and
      rest: "allocate_ports alloc h ns w1 = (Inr (rest, mrest), w')" and
      ns': "ns' = n\<lparr>HostPort := word_of_int p\<rparr> # rest" "mapped = port_mapping (n\<lparr>HostPort := word_of_int p\<rparr>) # mrest"
      by (auto simp: port_mapping_def split: prod.splits sum.splits)
    note new = alloc_new [OF Cons.prems(1) p]
    then have "good w1" by simp
    from Cons.IH [OF this rest] obtain news where news: "good w'" "rest = assign_ports ns news"
      "mrest = map port_mapping rest" "length news = length (filter (\<lambda>n. HostPort n = 0) ns)" "distinct news"
      "\<forall>q \<in> set news. in_range q \<and> held w1 q = None"
      "held w' = (\<lambda>q. if q \<in> set news then Some h else held w1 q)" by blast
    with new have fresh: "p \<notin> set news" "\<forall>q \<in> set news. held w q = None"
      by (auto split: if_splits)
    show ?thesis
      by (rule exI [of _ "p # news"]) (use news new fresh ns' True in \<open>auto simp: fun_eq_iff\<close>)
  qed
qed

end

lemma Up_okE:
  assumes "Up m h inputs fd w = (Inr out, w')"
  obtains src w1 netIn mapped w2 result w3 where
    "m_IdempotentlyMount m src (filepath_Join (BindMountRoot m) h) w = (Inr (), w1)"
    "allocate_ports (m_AllocatePort m) h (in_NetIn inputs) w1 = (Inr (netIn, mapped), w2)"
    "m_Up m (filepath_Join (BindMountRoot m) h) h (Properties inputs) (netIn, NetOut inputs) w2 = (Inr (Some result), w3)"
    "m_Apply m (filepath_Join (BindMountRoot m) h) w3 = (Inr (), w')"
    "marshal_ports m mapped = Inr (MappedPorts out)"
  using assms unfolding Up_def Let_def toJson_def
  by (auto split: if_splits prod.splits sum.splits option.splits)

end
