(* ===== verification/Garden_Main.thy ===== *)
theory Garden_Main
  imports Garden_Manager
begin

text \<open>
  \<^verbatim>\<open>garden-external-networker/config\<close> and \<^verbatim>\<open>main.go\<close>: the configuration file, the command line and the
  program that wires the manager, and what the whole program does with ports, mounts and network
  configurations.
\<close>

subsection \<open>Configuration\<close>

record Config =
  CniPluginDir :: string
  CniConfigDir :: string
  BindMountDir :: string
  StateFilePath :: string
  cfg_StartPort :: int
  TotalPorts :: int
  LogPrefix :: string
  cfg_SearchDomains :: "string list"
  IPTablesLockFile :: string
  ProxyRedirectCIDR :: string
  cfg_ProxyPort :: int
  cfg_ProxyUID :: "int option"

definition missing :: "string \<Rightarrow> go_error" where
  "missing key = ErrText (''missing required config '' @ [CHR 0x27] @ key @ [CHR 0x27])"

text \<open>The file system (\<^verbatim>\<open>os.Stat\<close>, \<^verbatim>\<open>ioutil.ReadFile\<close>) and \<^verbatim>\<open>json.Unmarshal\<close> are parameters.\<close>

record config_files =
  os_Stat :: "string \<Rightarrow> unit result"
  ReadFile :: "string \<Rightarrow> string result"
  config_json :: "string \<Rightarrow> Config result"

definition garden_config_New :: "config_files \<Rightarrow> string \<Rightarrow> Config result" where
  "garden_config_New fs configFilePath = (case os_Stat fs configFilePath of
       Inl e \<Rightarrow> Inl (Errorf ''file does not exist: '' e)
     | Inr _ \<Rightarrow> (case ReadFile fs configFilePath of
         Inl e \<Rightarrow> Inl (Errorf ''reading config file: '' e)
       | Inr configBytes \<Rightarrow> (case config_json fs configBytes of
           Inl e \<Rightarrow> Inl (Errorf (''parsing config ('' @ configFilePath @ ''): '') e)
         | Inr cfg \<Rightarrow>
             if CniPluginDir cfg = '''' then Inl (missing ''cni_plugin_dir'')
             else if CniConfigDir cfg = '''' then Inl (missing ''cni_config_dir'')
             else if BindMountDir cfg = '''' then Inl (missing ''bind_mount_dir'')
             else if StateFilePath cfg = '''' then Inl (missing ''state_file'')
             else if cfg_StartPort cfg = 0 then Inl (missing ''start_port'')
             else if TotalPorts cfg = 0 then Inl (missing ''total_ports'')
             else if LogPrefix cfg = '''' then Inl (missing ''log_prefix'')
             else if IPTablesLockFile cfg = '''' then Inl (missing ''iptables_lock_file'')
             else if cfg_ProxyPort cfg = 0 then Inl (missing ''proxy_port'')
             else if cfg_ProxyUID cfg = None then Inl (missing ''proxy_uid'')
             else Inr cfg)))"

subsection \<open>Command line\<close>

text \<open>
  \<^verbatim>\<open>flag.Parse\<close> for a set of string flags: the values set and the remaining arguments. A flag is
  \<open>-name value\<close> or \<open>-name=value\<close>, with one or two dashes; parsing stops at the first argument that is
  not a flag and after \<open>--\<close>.
\<close>

definition split_flag :: "string \<Rightarrow> string \<times> string option" where
  "split_flag name = (case name of [] \<Rightarrow> ([], None)
     | c # cs \<Rightarrow> (case dropWhile (\<lambda>x. x \<noteq> CHR ''='') cs of
         [] \<Rightarrow> (name, None)
       | _ # v \<Rightarrow> (c # takeWhile (\<lambda>x. x \<noteq> CHR ''='') cs, Some v)))"

fun parse_flags ::
  "string list \<Rightarrow> string list \<Rightarrow> (string \<times> string) list \<Rightarrow> ((string \<times> string) list \<times> string list) result" where
  "parse_flags names [] set_flags = Inr (set_flags, [])"
| "parse_flags names (s # args) set_flags =
     (if length s < 2 \<or> hd s \<noteq> CHR ''-'' then Inr (set_flags, s # args)
      else if s = ''--'' then Inr (set_flags, args)
      else let name = drop (if s ! 1 = CHR ''-'' then 2 else 1) s in
        if name = '''' \<or> hd name = CHR ''-'' \<or> hd name = CHR ''='' then Inl (ErrText (''bad flag syntax: '' @ s))
        else (case split_flag name of (name, given) \<Rightarrow>
          if name \<notin> set names then
            (if name = ''help'' \<or> name = ''h'' then Inl (ErrText ''flag: help requested'')
             else Inl (ErrText (''flag provided but not defined: -'' @ name)))
          else (case given of
              Some v \<Rightarrow> parse_flags names args (AList.update name v set_flags)
            | None \<Rightarrow> (case args of
                [] \<Rightarrow> Inl (ErrText (''flag needs an argument: -'' @ name))
              | v # args \<Rightarrow> parse_flags names args (AList.update name v set_flags)))))"

definition flag_value :: "(string \<times> string) list \<Rightarrow> string \<Rightarrow> string" where
  "flag_value fs name = (case map_of fs name of None \<Rightarrow> '''' | Some v \<Rightarrow> v)"

text \<open>The globals that \<^verbatim>\<open>parseArgs\<close> sets.\<close>

record garden_args =
  arg_action :: string
  arg_handle :: string
  arg_cfg :: Config
  arg_socketPath :: string

definition missing_flag :: "string \<Rightarrow> go_error" where
  "missing_flag name = ErrText (''missing required flag '' @ [CHR 0x27] @ name @ [CHR 0x27])"

definition parseArgs :: "config_files \<Rightarrow> string list \<Rightarrow> garden_args result" where
  "parseArgs fs allArgs =
     (case parse_flags [''action'', ''handle'', ''configFile'', ''socket''] (drop 1 allArgs) [] of
        Inl e \<Rightarrow> Inl e
      | Inr (flags, rest) \<Rightarrow>
          if flag_value flags ''configFile'' = '''' then Inl (missing_flag ''configFile'')
          else (case garden_config_New fs (flag_value flags ''configFile'') of
              Inl e \<Rightarrow> Inl e
            | Inr cfg \<Rightarrow>
                if rest \<noteq> [] then Inl (ErrText (''unexpected extra args: ['' @ join_with '' '' rest @ '']''))
                else if flag_value flags ''socket'' = '''' \<and> flag_value flags ''handle'' = '''' then Inl (missing_flag ''handle'')
                else if flag_value flags ''socket'' = '''' \<and> flag_value flags ''action'' = '''' then Inl (missing_flag ''action'')
                else Inr \<lparr>arg_action = flag_value flags ''action'', arg_handle = flag_value flags ''handle'',
                  arg_cfg = cfg, arg_socketPath = flag_value flags ''socket''\<rparr>))"

subsection \<open>Wiring\<close>

text \<open>The libraries and system services that the program is linked with.\<close>

record ('k, 'f, 'n, 'c, 'v, 'q, 'r, 's, 'p, 'm) platform =
  platform_os :: "'f os_calls"
  platform_cni :: "('n, 'v, NetIn list \<times> 'q list, 'c, 'r) libcni"
  platform_confs :: "('n, 'p) conf_files"
  walk_dir :: "string \<Rightarrow> (string \<times> bool) result list"
  iptables_New :: "'k iptables_lib result"
  platform_GetNS :: "string \<Rightarrow> 's result"
  platform_Do :: "'s \<Rightarrow> ('k host \<Rightarrow> unit result \<times> 'k host) \<Rightarrow> 'k host \<Rightarrow> unit result \<times> 'k host"
  state_codec :: allocator
  platform_result020 :: "'r \<Rightarrow> result020 result"
  platform_marshal :: "PortMapping list \<Rightarrow> string result"
  platform_inputs :: "string \<Rightarrow> ('v, 'q) UpInputs result"
  platform_outputs :: "UpOutputs \<Rightarrow> string result"
  platform_sockets :: "'m socket_lib"
  platform_listen :: "string \<Rightarrow> unit result"
  platform_configs :: config_files

definition on_files :: "('f \<Rightarrow> 'a \<times> 'f) \<Rightarrow> ('k, 'f, 'n, 'c) node \<Rightarrow> 'a \<times> ('k, 'f, 'n, 'c) node" where
  "on_files op w = (case op (files w) of (r, f) \<Rightarrow> (r, w\<lparr>files := f\<rparr>))"

definition on_ports :: "(state_file \<Rightarrow> 'a \<times> state_file) \<Rightarrow> ('k, 'f, 'n, 'c) node \<Rightarrow> 'a \<times> ('k, 'f, 'n, 'c) node" where
  "on_ports op w = (case op (ports w) of (r, f) \<Rightarrow> (r, w\<lparr>ports := f\<rparr>))"

definition on_iptables :: "('k host \<Rightarrow> 'a \<times> 'k host) \<Rightarrow> ('k, 'f, 'n, 'c) node \<Rightarrow> 'a \<times> ('k, 'f, 'n, 'c) node" where
  "on_iptables op w = (case op (iptables_host w) of (r, h) \<Rightarrow> (r, w\<lparr>iptables_host := h\<rparr>))"

definition garden_allocator :: "('k, 'f, 'n, 'c, 'v, 'q, 'r, 's, 'p, 'm) platform \<Rightarrow> Config \<Rightarrow> allocator" where
  "garden_allocator pl cfg =
     (state_codec pl)\<lparr>tracker := \<lparr>StartPort = cfg_StartPort cfg, Capacity = TotalPorts cfg\<rparr>\<rparr>"

definition garden_redirect ::
  "('k, 'f, 'n, 'c, 'v, 'q, 'r, 's, 'p, 'm) platform \<Rightarrow> 'k iptables_lib \<Rightarrow> Config \<Rightarrow> ('k, 's) redirect" where
  "garden_redirect pl ipt cfg =
     \<lparr>IPTables = ipt, GetNS = platform_GetNS pl, ns_Do = platform_Do pl,
      RedirectCIDR = ProxyRedirectCIDR cfg, ProxyPort = cfg_ProxyPort cfg, ProxyUID = the (cfg_ProxyUID cfg)\<rparr>"

definition garden_manager ::
  "('k, 'f, 'n, 'c, 'v, 'q, 'r, 's, 'p, 'm) platform \<Rightarrow> 'k iptables_lib \<Rightarrow> Config \<Rightarrow> (('k, 'f, 'n, 'c) node, 'v, 'q, 'r) Manager" where
  "garden_manager pl ipt cfg =
     \<lparr>m_Up = CNIController_Up (platform_cni pl),
      m_Down = CNIController_Down (platform_cni pl),
      m_IdempotentlyMount = (\<lambda>source target. on_files (IdempotentlyMount (platform_os pl) source target)),
      m_RemoveMount = (\<lambda>target. on_files (RemoveMount (platform_os pl) target)),
      BindMountRoot = BindMountDir cfg,
      m_AllocatePort = (\<lambda>handle port. on_ports (AllocatePort (garden_allocator pl cfg) handle port)),
      m_ReleaseAllPorts = (\<lambda>handle. on_ports (ReleaseAllPorts (garden_allocator pl cfg) handle)),
      SearchDomains = cfg_SearchDomains cfg,
      m_Apply = (\<lambda>ns. on_iptables (redirect_Apply (garden_redirect pl ipt cfg) ns)),
      m_log = (\<lambda>line w. w\<lparr>err_log := err_log w @ [line]\<rparr>),
      GetAsVersion = platform_result020 pl,
      marshal_ports = platform_marshal pl\<rparr>"

definition garden_mux ::
  "('k, 'f, 'n, 'c, 'v, 'q, 'r, 's, 'p, 'm) platform \<Rightarrow> 'k iptables_lib \<Rightarrow> Config \<Rightarrow>
   (('k, 'f, 'n, 'c) node, ('v, 'q) UpInputs, UpOutputs) Mux" where
  "garden_mux pl ipt cfg = (let manager = garden_manager pl ipt cfg in
     \<lparr>mux_Up = Up manager, mux_Down = Down manager,
      decode_inputs = platform_inputs pl, encode_outputs = platform_outputs pl\<rparr>)"

text \<open>
  The program either returns (an error or nothing, and its output), or serves connections for ever
  (the replies and logged errors so far).
\<close>

datatype main_outcome = Returned "unit result" string | Serving "string list" "go_error list"

definition mainWithError ::
  "('k, 'f, 'n, 'c, 'v, 'q, 'r, 's, 'p, 'm) platform \<Rightarrow> string list \<Rightarrow> string \<Rightarrow> connection list \<Rightarrow>
   ('k, 'f, 'n, 'c) node \<Rightarrow> main_outcome \<times> ('k, 'f, 'n, 'c) node" where
  "mainWithError pl args stdin conns w =
     (if length args = 1 \<or> args ! 1 = ''-h'' \<or> args ! 1 = ''--help'' then
        (Returned (Inl (ErrText (''this is a plugin for Garden-runC.  Don'' @ [CHR 0x27] @ ''t run it directly.''))) '''', w)
      else case parseArgs (platform_configs pl) args of
          Inl e \<Rightarrow> (Returned (Inl (Errorf ''parse args: '' e)) '''', w)
        | Inr a \<Rightarrow> (case GetNetworkConfig (platform_confs pl) (walk_dir pl (CniConfigDir (arg_cfg a))) of
            Inl e \<Rightarrow> (Returned (Inl (Errorf ''load cni config: '' e)) '''', w)
          | Inr (networkConfigList, _) \<Rightarrow>
              (let w = w\<lparr>NetworkConfigList := networkConfigList\<rparr> in
               case iptables_New pl of
                 Inl e \<Rightarrow> (Returned (Inl (Panic ''iptables'')) '''', w)
               | Inr ipt \<Rightarrow> (let mux = garden_mux pl ipt (arg_cfg a) in
                   if arg_socketPath a \<noteq> '''' then
                     (case HandleWithSocket mux (platform_sockets pl) (platform_listen pl (arg_socketPath a)) conns w of
                        (Inl e, w) \<Rightarrow> (Returned (Inl e) '''', w)
                      | (Inr (outs, errs), w) \<Rightarrow> (Serving outs errs, w))
                   else
                     (case mux_Handle mux (arg_action a) (arg_handle a) stdin w of
                        ((r, out), w) \<Rightarrow> (Returned r out, w))))))"

subsection \<open>Ports\<close>

definition node_ports :: "allocator \<Rightarrow> ('k, 'f, 'n, 'c) node \<Rightarrow> int \<rightharpoonup> string" where
  "node_ports a w = (case pool_of a (ports w) of None \<Rightarrow> Map.empty | Some p \<Rightarrow> map_of p)"

definition readable_ports :: "allocator \<Rightarrow> ('k, 'f, 'n, 'c) node \<Rightarrow> bool" where
  "readable_ports a w \<longleftrightarrow> codec_ok a \<and> pool_of a (ports w) \<noteq> None"

interpretation node_allocator:
  port_contract "\<lambda>h port. on_ports (AllocatePort a h port)" "node_ports a" "readable_ports a" "InRange (tracker a)" for a
proof
  fix w h p w'
  assume good: "readable_ports a w" and run: "on_ports (AllocatePort a h 0) w = (Inr p, w')"
  then obtain f where f: "AllocatePort a h 0 (ports w) = (Inr p, f)" "w' = w\<lparr>ports := f\<rparr>"
    by (auto simp: on_ports_def split: prod.splits)
  from good have "codec_ok a" by (simp add: readable_ports_def)
  from this f(1) show "readable_ports a w' \<and> InRange (tracker a) p \<and> node_ports a w p = None \<and>
      node_ports a w' = (node_ports a w)(p \<mapsto> h)"
    by (cases rule: AllocatePort_cases) (use \<open>codec_ok a\<close> f(2) in \<open>auto simp: node_ports_def readable_ports_def\<close>)
qed

lemma ports_frame:
  "on_files g w = (r, w') \<Longrightarrow> ports w' = ports w"
  "on_iptables i w = (r', w') \<Longrightarrow> ports w' = ports w"
  "CNIController_Up lib ns h md legacy w = (r'', w') \<Longrightarrow> ports w' = ports w"
  "CNIController_Down lib ns h w = (r''', w') \<Longrightarrow> ports w' = ports w"
  by (auto simp: on_files_def on_iptables_def CNIController_Up_def CNIController_Down_def Let_def
      split: prod.splits option.splits sum.splits)

lemma garden_manager_fields:
  "m_IdempotentlyMount (garden_manager pl ipt cfg) = (\<lambda>s t. on_files (IdempotentlyMount (platform_os pl) s t))"
  "m_RemoveMount (garden_manager pl ipt cfg) = (\<lambda>t. on_files (RemoveMount (platform_os pl) t))"
  "m_AllocatePort (garden_manager pl ipt cfg) = (\<lambda>h port. on_ports (AllocatePort (garden_allocator pl cfg) h port))"
  "m_ReleaseAllPorts (garden_manager pl ipt cfg) = (\<lambda>h. on_ports (ReleaseAllPorts (garden_allocator pl cfg) h))"
  "m_Up (garden_manager pl ipt cfg) = CNIController_Up (platform_cni pl)"
  "m_Down (garden_manager pl ipt cfg) = CNIController_Down (platform_cni pl)"
  "m_Apply (garden_manager pl ipt cfg) = (\<lambda>ns. on_iptables (redirect_Apply (garden_redirect pl ipt cfg) ns))"
  "marshal_ports (garden_manager pl ipt cfg) = platform_marshal pl"
  "m_log (garden_manager pl ipt cfg) = (\<lambda>line w. w\<lparr>err_log := err_log w @ [line]\<rparr>)"
  "BindMountRoot (garden_manager pl ipt cfg) = BindMountDir cfg"
  by (simp_all add: garden_manager_def)

lemma uint_port:
  assumes "InRange t p" "0 \<le> StartPort t" "StartPort t + Capacity t \<le> 2 ^ 32"
  shows "uint (word_of_int p :: 32 word) = p"
  using assms by (simp add: InRange_def uint_word_of_int)

text \<open>C32. When the manager brings a container up, exactly one port of the range that nobody held is
  recorded for the container per request without a host port, the other assignments are kept, and
  the mapped ports it reports are the requests in order with the recorded ports filled in; with a
  range below \<open>2 ^ 32\<close> the conversion to 32 bits keeps every port.\<close>

theorem Up_records_ports:
  assumes "readable_ports (garden_allocator pl cfg) w"
    "0 \<le> cfg_StartPort cfg" "cfg_StartPort cfg + TotalPorts cfg \<le> 2 ^ 32"
    "Up (garden_manager pl ipt cfg) h inputs fd w = (Inr out, w')"
  shows "\<exists>news. distinct news \<and> length news = length (filter (\<lambda>n. HostPort n = 0) (in_NetIn inputs)) \<and>
    (\<forall>p \<in> set news. cfg_StartPort cfg \<le> p \<and> p < cfg_StartPort cfg + TotalPorts cfg \<and>
       node_ports (garden_allocator pl cfg) w p = None \<and> uint (word_of_int p :: 32 word) = p) \<and>
    node_ports (garden_allocator pl cfg) w' =
      (\<lambda>p. if p \<in> set news then Some h else node_ports (garden_allocator pl cfg) w p) \<and>
    platform_marshal pl (map port_mapping (assign_ports (in_NetIn inputs) news)) = Inr (MappedPorts out)"
proof -
  let ?a = "garden_allocator pl cfg"
  have tr: "tracker ?a = \<lparr>StartPort = cfg_StartPort cfg, Capacity = TotalPorts cfg\<rparr>" by (simp add: garden_allocator_def)
  from assms(4) obtain src w1 netIn mapped w2 result w3 where
    w1: "on_files (IdempotentlyMount (platform_os pl) src (filepath_Join (BindMountDir cfg) h)) w = (Inr (), w1)" and
    w2: "allocate_ports (\<lambda>h port. on_ports (AllocatePort ?a h port)) h (in_NetIn inputs) w1 = (Inr (netIn, mapped), w2)" and
    w3: "CNIController_Up (platform_cni pl) (filepath_Join (BindMountDir cfg) h) h (Properties inputs)
      (netIn, NetOut inputs) w2 = (Inr (Some result), w3)" and
    w': "on_iptables (redirect_Apply (garden_redirect pl ipt cfg) (filepath_Join (BindMountDir cfg) h)) w3 = (Inr (), w')" and
    out: "platform_marshal pl mapped = Inr (MappedPorts out)"
    by (rule Up_okE) (simp add: garden_manager_fields)
  have frame: "node_ports ?a w1 = node_ports ?a w" "readable_ports ?a w1" "node_ports ?a w' = node_ports ?a w2"
    using ports_frame(1) [OF w1] ports_frame(3) [OF w3] ports_frame(2) [OF w'] assms(1)
    by (simp_all add: node_ports_def readable_ports_def)
  from node_allocator.allocate_ports_new [OF frame(2) w2] obtain news where
    news: "netIn = assign_ports (in_NetIn inputs) news" "mapped = map port_mapping netIn"
      "length news = length (filter (\<lambda>n. HostPort n = 0) (in_NetIn inputs))" "distinct news"
      "\<forall>p \<in> set news. InRange (tracker ?a) p \<and> node_ports ?a w p = None"
      "node_ports ?a w' = (\<lambda>p. if p \<in> set news then Some h else node_ports ?a w p)"
    unfolding frame by blast
  have "\<forall>p \<in> set news. cfg_StartPort cfg \<le> p \<and> p < cfg_StartPort cfg + TotalPorts cfg \<and>
      node_ports ?a w p = None \<and> uint (word_of_int p :: 32 word) = p"
    using news(5) uint_port [of "tracker ?a"] assms(2,3) by (simp add: tr InRange_def)
  with news out show ?thesis by (intro exI [of _ news]) simp
qed

text \<open>C33. When the manager takes a container down without reporting an error, no port is left with
  the container and every other assignment is kept, unless the release failed and was logged.\<close>

theorem Down_releases_ports:
  assumes "readable_ports (garden_allocator pl cfg) w" "Down (garden_manager pl ipt cfg) h w = (Inr (), w')"
  shows "node_ports (garden_allocator pl cfg) w' =
      (\<lambda>p. if node_ports (garden_allocator pl cfg) w p = Some h then None else node_ports (garden_allocator pl cfg) w p)
    \<or> (\<exists>e. last (err_log w') = ReleasingPorts e \<and> err_log w' \<noteq> [])"
proof -
  let ?a = "garden_allocator pl cfg"
  let ?path = "filepath_Join (BindMountDir cfg) h"
  from assms(2) have "h \<noteq> ''''" by (auto simp: Down_def)
  then obtain w1 where w1: "CNIController_Down (platform_cni pl) ?path h w = (Inr (), w1)"
    using assms(2) by (auto simp: Down_def Let_def garden_manager_fields split: prod.splits sum.splits)
  obtain r w2 where w2: "on_files (RemoveMount (platform_os pl) ?path) w1 = (r, w2)" by fastforce
  let ?w3 = "case r of Inl e \<Rightarrow> w2\<lparr>err_log := err_log w2 @ [RemovingBindMount ?path e]\<rparr> | Inr _ \<Rightarrow> w2"
  have p3: "ports ?w3 = ports w"
    using ports_frame(4) [OF w1] ports_frame(1) [OF w2] by (auto split: sum.splits)
  obtain q f where q: "ReleaseAllPorts ?a h (ports w) = (q, f)" by fastforce
  have w': "w' = (case q of Inl e \<Rightarrow> ?w3\<lparr>ports := f, err_log := err_log ?w3 @ [ReleasingPorts e]\<rparr> | Inr _ \<Rightarrow> ?w3\<lparr>ports := f\<rparr>)"
    using assms(2) w1 w2 q p3 \<open>h \<noteq> ''''\<close>
    by (auto simp: Down_def Let_def garden_manager_fields on_ports_def split: sum.splits)
  from assms(1) have "codec_ok ?a" by (simp add: readable_ports_def)
  from this q show ?thesis
    by (cases rule: ReleaseAllPorts_cases) (use w' in \<open>auto simp: node_ports_def fun_eq_iff\<close>)
qed

text \<open>A platform on which every call succeeds, for the witnesses.\<close>

definition demo_config :: Config where
  "demo_config = \<lparr>CniPluginDir = ''/p'', CniConfigDir = ''/c'', BindMountDir = ''/b'', StateFilePath = ''/s'',
     cfg_StartPort = 40000, TotalPorts = 2, LogPrefix = ''x'', cfg_SearchDomains = [], IPTablesLockFile = ''/l'',
     ProxyRedirectCIDR = '''', cfg_ProxyPort = 1, cfg_ProxyUID = Some 0\<rparr>"

definition demo_ipt :: "unit iptables_lib" where
  "demo_ipt = \<lparr>lib_Exists = (\<lambda>t c r k. (Inr True, k)), lib_Delete = (\<lambda>t c r k. (Inr (), k)),
     lib_List = (\<lambda>t c k. (Inr [], k)), lib_NewChain = (\<lambda>t c k. (Inr (), k)), lib_ClearChain = (\<lambda>t c k. (Inr (), k)),
     lib_DeleteChain = (\<lambda>t c k. (Inr (), k)), exec_restore = (\<lambda>s k. (('''', Inr ()), k))\<rparr>"

definition demo_platform ::
  "(unit, unit, (string \<times> (unit, NetIn list \<times> unit list) cni_value) list, unit, unit, unit, unit, unit, unit, unit) platform" where
  "demo_platform = \<lparr>
     platform_os = \<lparr>os_MkdirAll = (\<lambda>p f. (Inr (), f)), os_Create = (\<lambda>p f. (Inr (), f)),
       unix_Mount = (\<lambda>s t f. (Inr (), f)), unix_Unmount = (\<lambda>t f. (Inr (), f)), os_RemoveAll = (\<lambda>t f. (Inr (), f))\<rparr>,
     platform_cni = \<lparr>InjectConf = (\<lambda>n kvs. Inr (kvs @ n)),
       AddNetworkList = (\<lambda>l rc c. (Inr (Some ()), c)), DelNetworkList = (\<lambda>l rc c. (Inr (), c))\<rparr>,
     platform_confs = \<lparr>ConfListFromFile = (\<lambda>p. Inr \<lparr>net_name = p, Plugins = [[]]\<rparr>), ConfFromFile = Inr \<circ> (\<lambda>_. ()),
       ConfListFromConf = (\<lambda>p. Inr \<lparr>net_name = '''', Plugins = [[]]\<rparr>)\<rparr>,
     walk_dir = (\<lambda>d. [Inr (d @ ''/x.conflist'', False)]),
     iptables_New = Inr demo_ipt, platform_GetNS = (\<lambda>p. Inr ()), platform_Do = (\<lambda>s f. f),
     state_codec = demo_allocator,
     platform_result020 = (\<lambda>r. Inr \<lparr>IP4 = Some ''10.255.0.2'', Nameservers = []\<rparr>),
     platform_marshal = (\<lambda>ms. Inr (map (\<lambda>p. char_of (uint (pm_HostPort p) - 40000)) ms)),
     platform_inputs = (\<lambda>s. Inl (JsonError s)), platform_outputs = (\<lambda>out. Inr (ContainerIP out)),
     platform_sockets = \<lparr>CmsgSpace4 = 24, ParseSocketControlMessage = (\<lambda>b. Inr [()]),
       ParseUnixRights = (\<lambda>m. Inr [3]), decode_message = (\<lambda>s. Inl (JsonError s))\<rparr>,
     platform_listen = (\<lambda>p. Inr ()),
     platform_configs = \<lparr>os_Stat = (\<lambda>p. Inr ()), ReadFile = (\<lambda>p. Inr p), config_json = (\<lambda>s. Inr demo_config)\<rparr>\<rparr>"

definition demo_node ::
  "string \<Rightarrow> (unit, unit, (string \<times> (unit, NetIn list \<times> unit list) cni_value) list, unit) node" where
  "demo_node state = \<lparr>iptables_host = \<lparr>kernel = (), locker_results = [], trace = []\<rparr>,
     ports = \<lparr>content = state, file_faults = []\<rparr>, err_log = [], files = (),
     NetworkConfigList = Some \<lparr>net_name = ''n'', Plugins = [[]]\<rparr>, networks = ()\<rparr>"

definition demo_inputs :: "(unit, unit) UpInputs" where
  "demo_inputs = \<lparr>Pid = 42, Properties = [(''app_id'', ())], NetOut = [],
     in_NetIn = [\<lparr>HostPort = 40065, ContainerPort = 8080\<rparr>, \<lparr>HostPort = 0, ContainerPort = 8081\<rparr>]\<rparr>"

lemma demo_readable: "readable_ports (garden_allocator demo_platform demo_config) (demo_node ''A'')"
  by (simp add: readable_ports_def codec_ok_def pool_of_def decode_pool_def garden_allocator_def demo_platform_def
      demo_node_def demo_allocator_def)

lemma demo_calls:
  "IdempotentlyMount (platform_os demo_platform) src target f = (Inr (), f)"
  "CNIController_Up (platform_cni demo_platform) ns h [(k, v)] (netIn, out)
     \<lparr>iptables_host = ih, ports = p, err_log = l, files = f, NetworkConfigList = Some \<lparr>net_name = n, Plugins = [[]]\<rparr>, networks = c\<rparr> =
     (Inr (Some ()), \<lparr>iptables_host = ih, ports = p, err_log = l, files = f,
        NetworkConfigList = Some \<lparr>net_name = n, Plugins = [[(''metadata'', Metadata [(k, v)]), (''runtimeConfig'', RuntimeConfig (netIn, out))]]\<rparr>,
        networks = c\<rparr>)"
  "redirect_Apply (garden_redirect demo_platform demo_ipt demo_config) ns' h' = (Inr (), h')"
  "platform_marshal demo_platform = (\<lambda>ms. Inr (map (\<lambda>p. char_of (uint (pm_HostPort p) - 40000)) ms))"
  "GetAsVersion (garden_manager demo_platform demo_ipt demo_config) () = Inr \<lparr>IP4 = Some ''10.255.0.2'', Nameservers = []\<rparr>"
  by (simp_all add: IdempotentlyMount_def demo_platform_def CNIController_Up_def extra_keys_def redirect_Apply_def
      garden_redirect_def demo_config_def garden_manager_def)

theorem Up_records_ports_witness:
  "\<exists>out w' news. Up (garden_manager demo_platform demo_ipt demo_config) ''b'' demo_inputs None (demo_node ''A'') = (Inr out, w') \<and>
     length news = 1 \<and> MappedPorts out = [CHR ''A'', CHR 0x01] \<and>
     node_ports (garden_allocator demo_platform demo_config) w' =
       (\<lambda>p. if p \<in> set news then Some ''b'' else node_ports (garden_allocator demo_platform demo_config) (demo_node ''A'') p)"
proof -
  let ?run = "Up (garden_manager demo_platform demo_ipt demo_config) ''b'' demo_inputs None (demo_node ''A'')"
  have alloc: "AllocatePort (garden_allocator demo_platform demo_config) ''b'' 0 \<lparr>content = ''A'', file_faults = []\<rparr> =
    (Inr 40001, \<lparr>content = ''B'', file_faults = []\<rparr>)" by code_simp
  have mapped: "(case fst ?run of Inl e \<Rightarrow> None | Inr out \<Rightarrow> Some (MappedPorts out)) = Some [CHR ''A'', CHR 0x01]"
    by (simp add: Up_def Let_def garden_manager_fields alloc on_ports_def on_files_def on_iptables_def demo_node_def
        demo_inputs_def demo_calls toJson_def char_of_eq_iff)
  then obtain out where out: "?run = (Inr out, snd ?run)" "MappedPorts out = [CHR ''A'', CHR 0x01]"
    by (cases ?run) (auto split: sum.splits)
  have "0 \<le> cfg_StartPort demo_config" "cfg_StartPort demo_config + TotalPorts demo_config \<le> 2 ^ 32"
    "length (filter (\<lambda>n. HostPort n = 0) (in_NetIn demo_inputs)) = 1"
    by (simp_all add: demo_config_def demo_inputs_def)
  note bounds = this
  from Up_records_ports [OF demo_readable bounds(1,2) out(1)] obtain news where
    "length news = 1" "node_ports (garden_allocator demo_platform demo_config) (snd ?run) =
       (\<lambda>p. if p \<in> set news then Some ''b'' else node_ports (garden_allocator demo_platform demo_config) (demo_node ''A'') p)"
    unfolding bounds(3) by (elim exE conjE) (rule that)
  with out show ?thesis by (intro exI conjI)
qed

theorem Down_releases_ports_witness:
  "\<exists>w'. Down (garden_manager demo_platform demo_ipt demo_config) ''c'' (demo_node ''A'') = (Inr (), w') \<and>
     (node_ports (garden_allocator demo_platform demo_config) w' =
        (\<lambda>p. if node_ports (garden_allocator demo_platform demo_config) (demo_node ''A'') p = Some ''c'' then None
             else node_ports (garden_allocator demo_platform demo_config) (demo_node ''A'') p) \<or>
      (\<exists>e. last (err_log w') = ReleasingPorts e \<and> err_log w' \<noteq> []))"
proof -
  let ?run = "Down (garden_manager demo_platform demo_ipt demo_config) ''c'' (demo_node ''A'')"
  have "fst ?run = Inr ()"
    by (simp add: Down_def Let_def garden_manager_fields CNIController_Down_def demo_platform_def)
  then have "?run = (Inr (), snd ?run)" by (metis prod.collapse)
  with Down_releases_ports [OF demo_readable this] show ?thesis by blast
qed

subsection \<open>Mount points\<close>

text \<open>A handle that is one path component.\<close>

definition plain_handle :: "string \<Rightarrow> bool" where
  "plain_handle h \<longleftrightarrow> h \<noteq> '''' \<and> h \<noteq> ''.'' \<and> h \<noteq> ''..'' \<and> CHR ''/'' \<notin> set h"

lemma split_on_append: "split_on d (a @ d # b) = split_on d a @ split_on d b"
  by (induction a) (auto split: list.splits)

lemma clean_comps_snoc:
  "plain_handle h \<Longrightarrow> clean_comps rooted (root @ ''/'' @ h) = clean_comps rooted root @ [h]"
  by (simp add: clean_comps_def split_on_append split_no_sep plain_handle_def clean_step_def)

lemma join_with_snoc: "join_with sep (ws @ [w]) = (if ws = [] then w else join_with sep ws @ sep @ w)"
  by (induction ws) (auto simp: join_with_Cons)

lemma filepath_Join_plain:
  assumes "root \<noteq> ''''" "plain_handle h"
  shows "\<exists>base. \<forall>h. plain_handle h \<longrightarrow> filepath_Join root h = base @ h"
proof -
  have rooted: "is_rooted (root @ ''/'' @ h) = is_rooted root" for h
    using assms(1) by (cases root) (auto simp: is_rooted_def)
  define comps where "comps = clean_comps (is_rooted root) root"
  have "filepath_Join root h = (if is_rooted root then ''/'' else '''') @
      (if comps = [] then '''' else join_with ''/'' comps @ ''/'') @ h" if "plain_handle h" for h
    using that assms(1) clean_comps_snoc [OF that, of "is_rooted root" root] rooted [of h]
    by (simp add: filepath_Join_def filepath_Clean_def Let_def comps_def [symmetric] join_with_snoc plain_handle_def)
  then show ?thesis
    by (intro exI [of _ "(if is_rooted root then ''/'' else '''') @
      (if comps = [] then '''' else join_with ''/'' comps @ ''/'')"]) simp
qed

text \<open>Containers whose handles are single path components get mount points of their own below the
  mount directory: the path is a fixed directory followed by the handle, so different handles never
  share one.\<close>

theorem mount_points_separate:
  assumes "root \<noteq> ''''" "plain_handle h" "plain_handle h'" "h \<noteq> h'"
  shows "filepath_Join root h \<noteq> filepath_Join root h' \<and>
    (\<exists>base. filepath_Join root h = base @ h \<and> filepath_Join root h' = base @ h')"
  using filepath_Join_plain [OF assms(1,2)] assms by (metis same_append_eq)

theorem mount_points_separate_witness:
  "filepath_Join ''/var//vcap/./data'' ''a-1'' \<noteq> filepath_Join ''/var//vcap/./data'' ''a-2'' \<and>
   filepath_Join ''/var//vcap/./data'' ''a-1'' = ''/var/vcap/data/a-1''"
proof -
  have "filepath_Join ''/var//vcap/./data'' ''a-1'' = ''/var/vcap/data/a-1''" by code_simp
  then show ?thesis using mount_points_separate [of "''/var//vcap/./data''" "''a-1''" "''a-2''"]
    by (simp add: plain_handle_def)
qed

subsection \<open>Network configuration across containers\<close>

text \<open>
  What \<^verbatim>\<open>libcni.InjectConf\<close> documents: the new values replace the keys they name and the other keys of
  the configuration stay.
\<close>

definition injects :: "('n, 'v, 'o, 'c, 'r) libcni \<Rightarrow> ('n \<Rightarrow> string \<rightharpoonup> ('v, 'o) cni_value) \<Rightarrow> bool" where
  "injects lib look \<longleftrightarrow> (\<forall>n kvs n'. InjectConf lib n kvs = Inr n' \<longrightarrow> look n' = look n ++ map_of kvs)"

lemma inject_plugins_all:
  "inject_plugins inject ps = (Inr (), ps') \<Longrightarrow> list_all2 (\<lambda>p p'. inject p = Inr p') ps ps'"
  by (induction ps arbitrary: ps') (auto split: sum.splits prod.splits)

lemma CNIController_Up_plugins:
  assumes "injects lib look" "NetworkConfigList w = Some conf"
    "CNIController_Up lib ns h metadata legacy w = (r, w')" "is_ok r"
  shows "\<exists>conf'. NetworkConfigList w' = Some conf' \<and>
    list_all2 (\<lambda>p p'. look p' = look p ++ map_of (extra_keys metadata legacy)) (Plugins conf) (Plugins conf')"
proof -
  obtain q ps where q: "inject_plugins (\<lambda>p. InjectConf lib p (extra_keys metadata legacy)) (Plugins conf) = (q, ps)"
    by fastforce
  with assms(2-) have ok: "q = Inr ()" "NetworkConfigList w' = Some (conf\<lparr>Plugins := ps\<rparr>)"
    by (auto simp: CNIController_Up_def Let_def split: sum.splits prod.splits option.splits)
  with q have "list_all2 (\<lambda>p p'. InjectConf lib p (extra_keys metadata legacy) = Inr p') (Plugins conf) ps"
    by (simp add: inject_plugins_all)
  then have "list_all2 (\<lambda>p p'. look p' = look p ++ map_of (extra_keys metadata legacy)) (Plugins conf) ps"
    by (rule list_all2_mono) (use assms(1) in \<open>simp add: injects_def\<close>)
  with ok show ?thesis by simp
qed

text \<open>C34. The controller writes the metadata and port configuration of a container into the one
  configuration list it keeps, so every plugin sees the data of the container that is brought up;
  but a container without metadata that comes after one with metadata is brought up with the
  metadata of the other one.\<close>

theorem metadata_left_behind:
  assumes "injects lib look" "NetworkConfigList w = Some conf" "metadata \<noteq> []"
    "CNIController_Up lib ns h metadata legacy w = (Inr res, w')"
    "CNIController_Up lib ns2 h2 [] legacy2 w' = (Inr res2, w2)"
  shows "\<exists>conf1 conf2. NetworkConfigList w' = Some conf1 \<and> NetworkConfigList w2 = Some conf2 \<and>
    length (Plugins conf1) = length (Plugins conf) \<and> length (Plugins conf2) = length (Plugins conf) \<and>
    (\<forall>p \<in> set (Plugins conf1). look p ''metadata'' = Some (Metadata metadata) \<and>
       look p ''runtimeConfig'' = Some (RuntimeConfig legacy)) \<and>
    (\<forall>p \<in> set (Plugins conf2). look p ''metadata'' = Some (Metadata metadata) \<and>
       look p ''runtimeConfig'' = Some (RuntimeConfig legacy2))"
proof -
  obtain conf1 where c1: "NetworkConfigList w' = Some conf1"
    "list_all2 (\<lambda>p p'. look p' = look p ++ map_of (extra_keys metadata legacy)) (Plugins conf) (Plugins conf1)"
    using CNIController_Up_plugins [OF assms(1,2,4)] by auto
  obtain conf2 where c2: "NetworkConfigList w2 = Some conf2"
    "list_all2 (\<lambda>p p'. look p' = look p ++ map_of (extra_keys [] legacy2)) (Plugins conf1) (Plugins conf2)"
    using CNIController_Up_plugins [OF assms(1) c1(1) assms(5)] by auto
  have m1: "\<forall>p \<in> set (Plugins conf1). look p ''metadata'' = Some (Metadata metadata) \<and>
      look p ''runtimeConfig'' = Some (RuntimeConfig legacy)"
    using c1(2) assms(3) by (auto simp: list_all2_conv_all_nth in_set_conv_nth extra_keys_def)
  have "\<forall>p \<in> set (Plugins conf2). look p ''metadata'' = Some (Metadata metadata) \<and>
      look p ''runtimeConfig'' = Some (RuntimeConfig legacy2)"
    using c2(2) m1 by (auto simp: list_all2_conv_all_nth in_set_conv_nth [of _ "Plugins conf2"] extra_keys_def)
  moreover have "length (Plugins conf1) = length (Plugins conf)" "length (Plugins conf2) = length (Plugins conf)"
    using list_all2_lengthD [OF c1(2)] list_all2_lengthD [OF c2(2)] by simp_all
  ultimately show ?thesis using c1(1) c2(1) m1 by blast
qed


theorem metadata_left_behind_witness:
  "\<exists>w' w2 conf2. CNIController_Up (platform_cni demo_platform) ''/b/a'' ''a'' [(''app_id'', ())] ([], []) (demo_node '''') = (Inr (Some ()), w') \<and>
     CNIController_Up (platform_cni demo_platform) ''/b/c'' ''c'' [] ([], []) w' = (Inr (Some ()), w2) \<and>
     NetworkConfigList w2 = Some conf2 \<and> (\<forall>p \<in> set (Plugins conf2). map_of p ''metadata'' = Some (Metadata [(''app_id'', ())]))"
proof -
  let ?lib = "platform_cni demo_platform"
  have inj: "injects ?lib map_of" by (simp add: injects_def demo_platform_def)
  have conf: "NetworkConfigList (demo_node '''') = Some \<lparr>net_name = ''n'', Plugins = [[]]\<rparr>" by (simp add: demo_node_def)
  obtain w' where w': "CNIController_Up ?lib ''/b/a'' ''a'' [(''app_id'', ())] ([], []) (demo_node '''') = (Inr (Some ()), w')"
    by (simp add: demo_node_def demo_calls)
  have "fst (CNIController_Up ?lib ''/b/c'' ''c'' [] ([], []) w') = Inr (Some ())"
    using w' by (auto simp: CNIController_Up_def demo_node_def demo_platform_def Let_def extra_keys_def)
  then obtain w2 where w2: "CNIController_Up ?lib ''/b/c'' ''c'' [] ([], []) w' = (Inr (Some ()), w2)"
    by (metis prod.collapse)
  from metadata_left_behind [OF inj conf _ w' w2] w' w2 show ?thesis by blast
qed

subsection \<open>Configuration and socket\<close>

lemma garden_config_New_cases:
  assumes "os_Stat fs path = Inr ()" "ReadFile fs path = Inr b" "config_json fs b = Inr cfg"
  shows "garden_config_New fs path = Inr cfg' \<longleftrightarrow>
    cfg' = cfg \<and> CniPluginDir cfg \<noteq> '''' \<and> CniConfigDir cfg \<noteq> '''' \<and> BindMountDir cfg \<noteq> '''' \<and>
    StateFilePath cfg \<noteq> '''' \<and> cfg_StartPort cfg \<noteq> 0 \<and> TotalPorts cfg \<noteq> 0 \<and> LogPrefix cfg \<noteq> '''' \<and>
    IPTablesLockFile cfg \<noteq> '''' \<and> cfg_ProxyPort cfg \<noteq> 0 \<and> cfg_ProxyUID cfg \<noteq> None"
  using assms unfolding garden_config_New_def by auto

text \<open>A connection that names a known action, in a message that can be read.\<close>

definition wants :: "'m socket_lib \<Rightarrow> connection \<Rightarrow> bool" where
  "wants s conn \<longleftrightarrow> is_ok (accepted conn) \<and> is_ok (readNsFileDescriptor s conn) \<and>
     (case decodeMsg s (payload conn) of Inl _ \<Rightarrow> False
      | Inr msg \<Rightarrow> msg_Handle msg \<noteq> '''' \<and> (Command msg = ''up'' \<or> Command msg = ''down''))"

lemma handleOne_unwanted: "\<not> wants s conn \<Longrightarrow> snd (handleOne m s conn w) = w"
  by (auto simp: wants_def handleOne_def mux_handle_def split: sum.splits)

text \<open>On the socket, connections that cannot be accepted or read, name no handle or an unknown
  action are answered with an error and change nothing: the state after any connections is the state
  after the well-formed ones alone.\<close>

theorem socket_ignores_bad_connections:
  "snd (serve_connections m s conns w) = snd (serve_connections m s (filter (wants s) conns) w)"
proof (induction conns arbitrary: w)
  case (Cons conn conns)
  then show ?case
    using handleOne_unwanted [of s conn m w] by (auto split: prod.splits) (metis snd_conv)+
qed simp

end
