(* ===== verification/Address_Table.thy ===== *)
theory Address_Table
  imports Go_Prelude "HOL-Library.AList"
begin

text \<open>
  \<^verbatim>\<open>service-discovery-controller/addresstable\<close>: the table from host names to addresses with the time of
  the last registration, and the pruning of stale addresses, which first looks for candidates under
  the read lock and then prunes them under the write lock. Times and durations are in nanoseconds;
  the clock is read once per critical section.
\<close>

subsection \<open>Table\<close>

record entry =
  entry_ip :: string
  updateTime :: int

record AddressTable =
  addresses :: "(string \<times> entry list) list"
  stalenessThreshold :: int
  ticking :: bool
  pausedPruning :: bool
  lastResume :: int
  resumePruningDelay :: int
  warm :: bool

text \<open>\<^verbatim>\<open>time.Time{}\<close>, the first of January of the year 1, relative to the Unix epoch; \<^verbatim>\<open>clock.Since\<close>
  saturates at the ends of the 64-bit range.\<close>

definition zero_time :: int where
  "zero_time = - 62135596800000000000"

definition since :: "int \<Rightarrow> int \<Rightarrow> int" where
  "since now t = max (- (2 ^ 63)) (min (2 ^ 63 - 1) (now - t))"

definition NewAddressTable :: "int \<Rightarrow> int \<Rightarrow> AddressTable" where
  "NewAddressTable staleness resumeDelay =
     \<lparr>addresses = [], stalenessThreshold = staleness, ticking = True, pausedPruning = False,
      lastResume = zero_time, resumePruningDelay = resumeDelay, warm = False\<rparr>"

definition isFqdn :: "string \<Rightarrow> bool" where
  "isFqdn s = (if length s = 0 then False else s ! (length s - 1) = CHR ''.'')"

definition fqdn :: "string \<Rightarrow> string" where
  "fqdn s = (if isFqdn s then s else s @ ''.'')"

fun indexOf_from :: "int \<Rightarrow> entry list \<Rightarrow> string \<Rightarrow> int" where
  "indexOf_from idx [] v = - 1"
| "indexOf_from idx (e # es) v = (if entry_ip e = v then idx else indexOf_from (idx + 1) es v)"

definition indexOf :: "entry list \<Rightarrow> string \<Rightarrow> int" where
  "indexOf entries v = indexOf_from 0 entries v"

definition entriesForHostname :: "AddressTable \<Rightarrow> string \<Rightarrow> entry list" where
  "entriesForHostname at hostname = (case map_of (addresses at) hostname of Some existing \<Rightarrow> existing | None \<Rightarrow> [])"

definition entriesToIPs :: "entry list \<Rightarrow> string list" where
  "entriesToIPs entries = map entry_ip entries"

definition Add_one :: "int \<Rightarrow> string \<Rightarrow> string \<Rightarrow> AddressTable \<Rightarrow> AddressTable" where
  "Add_one now v hostname at =
     (let fqHostname = fqdn hostname;
          entries = entriesForHostname at fqHostname;
          entryIndex = indexOf entries v
      in if entryIndex = - 1
         then at\<lparr>addresses := AList.update fqHostname (entries @ [\<lparr>entry_ip = v, updateTime = now\<rparr>]) (addresses at)\<rparr>
         else at\<lparr>addresses := AList.update fqHostname
           (entries[nat entryIndex := (entries ! nat entryIndex)\<lparr>updateTime := now\<rparr>]) (addresses at)\<rparr>)"

definition Add :: "int \<Rightarrow> string list \<Rightarrow> string \<Rightarrow> AddressTable \<Rightarrow> AddressTable" where
  "Add now hostnames v at = fold (Add_one now v) hostnames at"

definition Remove_one :: "string \<Rightarrow> string \<Rightarrow> AddressTable \<Rightarrow> AddressTable" where
  "Remove_one v hostname at =
     (let fqHostname = fqdn hostname;
          entries = entriesForHostname at fqHostname;
          index = indexOf entries v
      in if index > - 1
         then if length entries = 1
              then at\<lparr>addresses := AList.delete fqHostname (addresses at)\<rparr>
              else at\<lparr>addresses := AList.update fqHostname
                (take (nat index) entries @ drop (nat index + 1) entries) (addresses at)\<rparr>
         else at)"

definition Remove :: "string list \<Rightarrow> string \<Rightarrow> AddressTable \<Rightarrow> AddressTable" where
  "Remove hostnames v at = fold (Remove_one v) hostnames at"

definition Lookup :: "AddressTable \<Rightarrow> string \<Rightarrow> string list" where
  "Lookup at hostname = entriesToIPs (entriesForHostname at (fqdn hostname))"

definition GetAllAddresses :: "AddressTable \<Rightarrow> (string \<times> string list) list" where
  "GetAllAddresses at = map (\<lambda>(address, entries). (address, entriesToIPs entries)) (addresses at)"

definition SetWarm :: "AddressTable \<Rightarrow> AddressTable" where
  "SetWarm at = at\<lparr>warm := True\<rparr>"

definition IsWarm :: "AddressTable \<Rightarrow> bool" where
  "IsWarm at = warm at"

definition Shutdown :: "AddressTable \<Rightarrow> AddressTable" where
  "Shutdown at = at\<lparr>ticking := False\<rparr>"

definition PausePruning :: "AddressTable \<Rightarrow> AddressTable" where
  "PausePruning at = at\<lparr>pausedPruning := True\<rparr>"

definition ResumePruning :: "int \<Rightarrow> AddressTable \<Rightarrow> AddressTable" where
  "ResumePruning now at = at\<lparr>lastResume := now, pausedPruning := False\<rparr>"

subsection \<open>Pruning\<close>

definition fresh :: "AddressTable \<Rightarrow> int \<Rightarrow> entry \<Rightarrow> bool" where
  "fresh at now e \<longleftrightarrow> since now (updateTime e) \<le> stalenessThreshold at"

text \<open>The order in which the map of addresses is visited is a parameter.\<close>

definition addressesWithStaleEntries :: "(string list \<Rightarrow> string list) \<Rightarrow> int \<Rightarrow> AddressTable \<Rightarrow> string list" where
  "addressesWithStaleEntries rng now at =
     filter (\<lambda>address. \<exists>e \<in> set (the (map_of (addresses at) address)). since now (updateTime e) > stalenessThreshold at)
       (rng (map fst (addresses at)))"

definition prune_one :: "int \<Rightarrow> string \<Rightarrow> AddressTable \<Rightarrow> AddressTable" where
  "prune_one now staleAddr at = (case map_of (addresses at) staleAddr of
       Some entries \<Rightarrow> at\<lparr>addresses := AList.update staleAddr (filter (fresh at now) entries) (addresses at)\<rparr>
     | None \<Rightarrow> at)"

definition pruneStaleEntries :: "int \<Rightarrow> string list \<Rightarrow> AddressTable \<Rightarrow> AddressTable" where
  "pruneStaleEntries now candidateAddresses at = fold (prune_one now) candidateAddresses at"

definition pruning_allowed :: "int \<Rightarrow> AddressTable \<Rightarrow> bool" where
  "pruning_allowed now at \<longleftrightarrow> \<not> (pausedPruning at \<or> since now (lastResume at) < resumePruningDelay at)"

text \<open>One turn of the pruning goroutine that nothing interrupts.\<close>

definition prune_tick :: "(string list \<Rightarrow> string list) \<Rightarrow> int \<Rightarrow> AddressTable \<Rightarrow> AddressTable" where
  "prune_tick rng now at =
     (if pruning_allowed now at then pruneStaleEntries now (addressesWithStaleEntries rng now at) at else at)"

subsection \<open>Invariant and registrations\<close>

text \<open>Host names are fully qualified and listed once, and no address is listed twice for a host name.\<close>

definition table_ok :: "AddressTable \<Rightarrow> bool" where
  "table_ok at \<longleftrightarrow> distinct (map fst (addresses at)) \<and>
     (\<forall>(h, es) \<in> set (addresses at). isFqdn h \<and> distinct (map entry_ip es))"

text \<open>The time of the last registration of an address that the table holds for a host name.\<close>

definition stamp :: "AddressTable \<Rightarrow> string \<Rightarrow> string \<Rightarrow> int option" where
  "stamp at h v = map_option updateTime (find (\<lambda>e. entry_ip e = v) (entriesForHostname at h))"

lemma isFqdn_fqdn [simp]: "isFqdn (fqdn s)"
  by (simp add: fqdn_def isFqdn_def nth_append)

lemma fqdn_idem [simp]: "fqdn (fqdn s) = fqdn s"
  by (simp add: fqdn_def [of "fqdn s"])

lemma indexOf_from_cases:
  "if v \<in> entry_ip ` set es
   then \<exists>i < length es. indexOf_from idx es v = idx + int i \<and> entry_ip (es ! i) = v
   else indexOf_from idx es v = - 1"
proof (induction es arbitrary: idx)
  case (Cons e es)
  show ?case
  proof (cases "entry_ip e = v")
    case True
    then show ?thesis by (auto intro: exI [of _ 0])
  next
    case False
    show ?thesis
    proof (cases "v \<in> entry_ip ` set es")
      case True
      with Cons.IH [of "idx + 1"] obtain i where
        "i < length es" "indexOf_from (idx + 1) es v = idx + 1 + int i" "entry_ip (es ! i) = v" by auto
      with False True show ?thesis by (auto intro!: exI [of _ "Suc i"])
    next
      case no: False
      with False Cons.IH [of "idx + 1"] show ?thesis by auto
    qed
  qed
qed simp

lemma indexOf_cases:
  obtains (absent) "indexOf es v = - 1" "v \<notin> entry_ip ` set es"
  | (present) i where "indexOf es v = int i" "i < length es" "entry_ip (es ! i) = v"
  using indexOf_from_cases [of v es 0] by (auto simp: indexOf_def split: if_splits)

lemma entries_update:
  "entriesForHostname (at\<lparr>addresses := AList.update h es (addresses at)\<rparr>) h' =
     (if h' = h then es else entriesForHostname at h')"
  by (simp add: entriesForHostname_def update_conv')

lemma entries_delete:
  "entriesForHostname (at\<lparr>addresses := AList.delete h (addresses at)\<rparr>) h' =
     (if h' = h then [] else entriesForHostname at h')"
  by (simp add: entriesForHostname_def delete_conv')

lemma table_ok_entries: "table_ok at \<Longrightarrow> distinct (map entry_ip (entriesForHostname at h))"
  by (auto simp: table_ok_def entriesForHostname_def split: option.splits dest!: map_of_SomeD)

lemma table_ok_update:
  assumes "table_ok at" "isFqdn h" "distinct (map entry_ip es)"
  shows "table_ok (at\<lparr>addresses := AList.update h es (addresses at)\<rparr>)"
proof -
  have "set (AList.update h es al) \<subseteq> insert (h, es) (set al)" for al :: "(string \<times> entry list) list"
    by (induction al) auto
  from this [of "addresses at"] assms show ?thesis
    unfolding table_ok_def by (auto simp: distinct_update)
qed

lemma table_ok_delete: "table_ok at \<Longrightarrow> table_ok (at\<lparr>addresses := AList.delete h (addresses at)\<rparr>)"
  unfolding table_ok_def by (auto simp: AList.delete_eq distinct_map_filter)


text \<open>Looking up by a unique key in a list with one element removed or some filtered out.\<close>

lemma find_remove_unique:
  "distinct (map f (a @ x # b)) \<Longrightarrow>
   find (\<lambda>e. f e = k) (a @ b) = (if k = f x then None else find (\<lambda>e. f e = k) (a @ x # b))"
  by (induction a) (auto simp: find_is_None image_iff)

lemma find_filter_unique:
  "distinct (map f xs) \<Longrightarrow> find (\<lambda>e. f e = k) (filter P xs) =
     (case find (\<lambda>e. f e = k) xs of None \<Rightarrow> None | Some e \<Rightarrow> if P e then Some e else None)"
proof (induction xs)
  case (Cons e es)
  then have "find (\<lambda>x. f x = f e) es = None" by (auto simp: find_is_None image_iff)
  with Cons show ?case by auto
qed simp

lemma Add_one_spec:
  assumes "table_ok at"
  shows "table_ok (Add_one now v hostname at) \<and>
    stamp (Add_one now v hostname at) h w = (if h = fqdn hostname \<and> w = v then Some now else stamp at h w)"
proof -
  define es where "es = entriesForHostname at (fqdn hostname)"
  have d: "distinct (map entry_ip es)" unfolding es_def by (rule table_ok_entries [OF assms])
  show ?thesis
  proof (cases rule: indexOf_cases [of es v])
    case absent
    then have "Add_one now v hostname at =
        at\<lparr>addresses := AList.update (fqdn hostname) (es @ [\<lparr>entry_ip = v, updateTime = now\<rparr>]) (addresses at)\<rparr>"
      by (simp add: Add_one_def es_def [symmetric])
    moreover have "find (\<lambda>e. entry_ip e = v) es = None" using absent by (auto simp: find_is_None)
    ultimately show ?thesis using absent d assms
      by (auto simp: stamp_def entries_update find_append es_def [symmetric] intro!: table_ok_update split: option.splits)
  next
    case (present i)
    define es' where "es' = es[i := (es ! i)\<lparr>updateTime := now\<rparr>]"
    from present have run: "Add_one now v hostname at = at\<lparr>addresses := AList.update (fqdn hostname) es' (addresses at)\<rparr>"
      by (simp add: Add_one_def es_def [symmetric] es'_def)
    have ips: "map entry_ip es' = map entry_ip es"
      using present(2) by (simp add: es'_def map_update) (metis list_update_id nth_map)
    have look: "map_option updateTime (find (\<lambda>e. entry_ip e = w) es') =
        (if w = v then Some now else map_option updateTime (find (\<lambda>e. entry_ip e = w) es))" for w
      using d present(2,3) unfolding es'_def
    proof (induction es arbitrary: i)
      case (Cons e es)
      then show ?case by (cases i) (auto simp: image_iff dest: nth_mem)
    qed simp
    from run assms d ips show ?thesis
      by (auto simp: stamp_def entries_update look es_def [symmetric] intro!: table_ok_update)
  qed
qed


lemma Remove_one_spec:
  assumes "table_ok at"
  shows "table_ok (Remove_one v hostname at) \<and>
    stamp (Remove_one v hostname at) h w = (if h = fqdn hostname \<and> w = v then None else stamp at h w)"
proof -
  define es where "es = entriesForHostname at (fqdn hostname)"
  have d: "distinct (map entry_ip es)" unfolding es_def by (rule table_ok_entries [OF assms])
  show ?thesis
  proof (cases rule: indexOf_cases [of es v])
    case absent
    then have "Remove_one v hostname at = at" by (simp add: Remove_one_def es_def [symmetric])
    moreover have "find (\<lambda>e. entry_ip e = v) es = None" using absent by (auto simp: find_is_None)
    ultimately show ?thesis using assms by (simp add: stamp_def es_def)
  next
    case (present i)
    define es' where "es' = take i es @ drop (Suc i) es"
    have split: "es = take i es @ es ! i # drop (Suc i) es" using present(2) by (simp add: id_take_nth_drop)
    have look: "find (\<lambda>e. entry_ip e = w) es' = (if w = v then None else find (\<lambda>e. entry_ip e = w) es)" for w
      using find_remove_unique [of entry_ip "take i es" "es ! i" "drop (Suc i) es" w] d split present(3)
      by (simp add: es'_def)
    have "distinct (map entry_ip (take i es @ es ! i # drop (Suc i) es))" using d split by simp
    then have d': "distinct (map entry_ip es')" by (simp add: es'_def)
    show ?thesis
    proof (cases "length es = 1")
      case True
      with present have "Remove_one v hostname at = at\<lparr>addresses := AList.delete (fqdn hostname) (addresses at)\<rparr>" "es' = []"
        by (simp_all add: Remove_one_def es_def [symmetric] es'_def)
      with assms look [of w] show ?thesis
        by (auto simp: stamp_def entries_delete es_def [symmetric] table_ok_delete split: if_splits)
    next
      case False
      with present have "Remove_one v hostname at = at\<lparr>addresses := AList.update (fqdn hostname) es' (addresses at)\<rparr>"
        by (simp add: Remove_one_def es_def [symmetric] es'_def)
      with assms d' look show ?thesis
        by (auto simp: stamp_def entries_update es_def [symmetric] intro!: table_ok_update)
    qed
  qed
qed

lemma prune_one_spec:
  assumes "table_ok at"
  shows "table_ok (prune_one now addr at) \<and> stalenessThreshold (prune_one now addr at) = stalenessThreshold at \<and>
    stamp (prune_one now addr at) h w =
      (case stamp at h w of None \<Rightarrow> None
       | Some t \<Rightarrow> if h = addr \<and> since now t > stalenessThreshold at then None else Some t)"
proof (cases "map_of (addresses at) addr")
  case None
  then show ?thesis using assms by (auto simp: prune_one_def stamp_def entriesForHostname_def split: option.splits)
next
  case (Some es)
  then have es: "entriesForHostname at addr = es" by (simp add: entriesForHostname_def)
  have fq: "isFqdn addr" using assms map_of_SomeD [OF Some] by (auto simp: table_ok_def)
  have d: "distinct (map entry_ip es)" using table_ok_entries [OF assms, of addr] es by simp
  have run: "prune_one now addr at = at\<lparr>addresses := AList.update addr (filter (fresh at now) es) (addresses at)\<rparr>"
    using Some by (simp add: prune_one_def)
  have "find (\<lambda>e. entry_ip e = w) (filter (fresh at now) es) =
      (case find (\<lambda>e. entry_ip e = w) es of None \<Rightarrow> None | Some e \<Rightarrow> if fresh at now e then Some e else None)" for w
    by (rule find_filter_unique [OF d])
  then show ?thesis using run assms fq d es
    by (auto simp: stamp_def entries_update fresh_def distinct_map_filter intro!: table_ok_update split: option.splits)
qed


lemma Add_spec:
  assumes "table_ok at"
  shows "table_ok (Add now hs v at) \<and>
    stamp (Add now hs v at) h w = (if h \<in> fqdn ` set hs \<and> w = v then Some now else stamp at h w)"
  using assms unfolding Add_def
proof (induction hs arbitrary: at)
  case (Cons x hs)
  from Add_one_spec [OF Cons.prems] have "table_ok (Add_one now v x at)" by blast
  from Cons.IH [OF this] show ?case using Add_one_spec [OF Cons.prems, of now v x h w] by auto
qed simp

lemma Remove_spec:
  assumes "table_ok at"
  shows "table_ok (Remove hs v at) \<and>
    stamp (Remove hs v at) h w = (if h \<in> fqdn ` set hs \<and> w = v then None else stamp at h w)"
  using assms unfolding Remove_def
proof (induction hs arbitrary: at)
  case (Cons x hs)
  from Remove_one_spec [OF Cons.prems] have "table_ok (Remove_one v x at)" by blast
  from Cons.IH [OF this] show ?case using Remove_one_spec [OF Cons.prems, of v x h w] by auto
qed simp

lemma prune_spec:
  assumes "table_ok at"
  shows "table_ok (pruneStaleEntries now cs at) \<and>
    stalenessThreshold (pruneStaleEntries now cs at) = stalenessThreshold at \<and>
    stamp (pruneStaleEntries now cs at) h w =
      (case stamp at h w of None \<Rightarrow> None
       | Some t \<Rightarrow> if h \<in> set cs \<and> since now t > stalenessThreshold at then None else Some t)"
  using assms unfolding pruneStaleEntries_def
proof (induction cs arbitrary: at)
  case (Cons c cs)
  from prune_one_spec [OF Cons.prems] have "table_ok (prune_one now c at)" by blast
  from Cons.IH [OF this] show ?case
    using prune_one_spec [OF Cons.prems, of now c h w] by (auto split: option.splits if_splits)
qed (auto split: option.splits)

lemma Lookup_stamp: "v \<in> set (Lookup at hostname) \<longleftrightarrow> stamp at (fqdn hostname) v \<noteq> None"
  by (auto simp: Lookup_def entriesToIPs_def stamp_def find_is_None)

lemma Lookup_distinct: "table_ok at \<Longrightarrow> distinct (Lookup at hostname)"
  by (simp add: Lookup_def entriesToIPs_def table_ok_entries)

lemma candidates_stale:
  assumes "is_range rng" "table_ok at" "stamp at h w = Some t" "since now t > stalenessThreshold at"
  shows "h \<in> set (addressesWithStaleEntries rng now at)"
proof -
  from assms(3) obtain es e where es: "map_of (addresses at) h = Some es" "e \<in> set es" "updateTime e = t"
    by (auto simp: stamp_def entriesForHostname_def dest!: find_SomeD split: option.splits)
  then have "h \<in> set (map fst (addresses at))" by (metis domI dom_map_of_conv_image_fst set_map)
  with es assms show ?thesis by (auto simp: addressesWithStaleEntries_def is_range_set [OF assms(1)])
qed


text \<open>One turn of the pruning goroutine that nothing interrupts removes exactly the addresses whose
  last registration is older than the staleness threshold, whatever order the table is visited in,
  and does nothing while pruning is paused or was resumed too recently.\<close>

theorem prune_tick_exact:
  assumes "table_ok at" "is_range rng"
  shows "table_ok (prune_tick rng now at) \<and>
    (\<forall>h v. stamp (prune_tick rng now at) h v =
      (case stamp at h v of None \<Rightarrow> None
       | Some t \<Rightarrow> if pruning_allowed now at \<and> since now t > stalenessThreshold at then None else Some t))"
proof (cases "pruning_allowed now at")
  case True
  note p = prune_spec [OF assms(1), of now "addressesWithStaleEntries rng now at"]
  have "stamp (prune_tick rng now at) h v = (case stamp at h v of None \<Rightarrow> None
      | Some t \<Rightarrow> if since now t > stalenessThreshold at then None else Some t)" for h v
    using p candidates_stale [OF assms(2,1), of h v _ now] True by (auto simp: prune_tick_def split: option.splits)
  with True have "\<forall>h v. stamp (prune_tick rng now at) h v = (case stamp at h v of None \<Rightarrow> None
      | Some t \<Rightarrow> if pruning_allowed now at \<and> since now t > stalenessThreshold at then None else Some t)"
    by (simp split: option.split)
  with True p show ?thesis by (simp add: prune_tick_def)
next
  case False
  with assms show ?thesis by (auto simp: prune_tick_def split: option.splits)
qed

definition demo_table :: AddressTable where
  "demo_table = Add 100 [''a.internal''] ''10.0.0.2'' (Add 10 [''a.internal'', ''b.internal.''] ''10.0.0.1'' (NewAddressTable 60 0))"

lemma table_ok_new: "table_ok (NewAddressTable s d)"
  by (simp add: NewAddressTable_def table_ok_def)

lemma demo_table_ok: "table_ok demo_table"
  unfolding demo_table_def using Add_spec table_ok_new by blast

theorem prune_tick_exact_witness:
  "Lookup demo_table ''a.internal'' = [''10.0.0.1'', ''10.0.0.2''] \<and>
   Lookup (prune_tick rev 120 demo_table) ''a.internal'' = [''10.0.0.2''] \<and>
   stamp (prune_tick rev 120 demo_table) ''a.internal.'' ''10.0.0.1'' = None"
proof -
  have "Lookup demo_table ''a.internal'' = [''10.0.0.1'', ''10.0.0.2'']"
    "Lookup (prune_tick rev 120 demo_table) ''a.internal'' = [''10.0.0.2'']"
    "stamp demo_table ''a.internal.'' ''10.0.0.1'' = Some 10" "pruning_allowed 120 demo_table"
    "since 120 10 > stalenessThreshold demo_table" by code_simp+
  with prune_tick_exact [OF demo_table_ok is_range_rev, of 120] show ?thesis by simp
qed

subsection \<open>Pruning beside registrations\<close>

text \<open>
  The pruning goroutine checks whether it may prune, scans for candidates and prunes them in three
  critical sections, between which registrations, removals, pauses and resumptions happen. \<open>reg\<close>
  is what the callers registered last: the time for every host name and address that was added and
  not removed since. The clock does not run backwards.
\<close>

datatype pruner = Waiting | Checked | Scanned "string list"

inductive table_run :: "int \<Rightarrow> int \<Rightarrow> AddressTable \<Rightarrow> pruner \<Rightarrow> int \<Rightarrow> (string \<Rightarrow> string \<Rightarrow> int option) \<Rightarrow> bool"
  for threshold delay where
  start: "table_run threshold delay (NewAddressTable threshold delay) Waiting now (\<lambda>h v. None)"
| clock: "table_run threshold delay at p now reg \<Longrightarrow> now \<le> now' \<Longrightarrow> table_run threshold delay at p now' reg"
| add: "table_run threshold delay at p now reg \<Longrightarrow> table_run threshold delay (Add now hs v at) p now
    (\<lambda>h w. if h \<in> fqdn ` set hs \<and> w = v then Some now else reg h w)"
| remove: "table_run threshold delay at p now reg \<Longrightarrow> table_run threshold delay (Remove hs v at) p now
    (\<lambda>h w. if h \<in> fqdn ` set hs \<and> w = v then None else reg h w)"
| pause: "table_run threshold delay at p now reg \<Longrightarrow> table_run threshold delay (PausePruning at) p now reg"
| resume: "table_run threshold delay at p now reg \<Longrightarrow> table_run threshold delay (ResumePruning now at) p now reg"
| warm_up: "table_run threshold delay at p now reg \<Longrightarrow> table_run threshold delay (SetWarm at) p now reg"
| shutdown: "table_run threshold delay at p now reg \<Longrightarrow> table_run threshold delay (Shutdown at) p now reg"
| check: "table_run threshold delay at Waiting now reg \<Longrightarrow> ticking at \<Longrightarrow> pruning_allowed now at \<Longrightarrow>
    table_run threshold delay at Checked now reg"
| scan: "table_run threshold delay at Checked now reg \<Longrightarrow> is_range rng \<Longrightarrow>
    table_run threshold delay at (Scanned (addressesWithStaleEntries rng now at)) now reg"
| prune: "table_run threshold delay at (Scanned cs) now reg \<Longrightarrow>
    table_run threshold delay (pruneStaleEntries now cs at) Waiting now reg"

definition agrees :: "int \<Rightarrow> AddressTable \<Rightarrow> int \<Rightarrow> (string \<Rightarrow> string \<Rightarrow> int option) \<Rightarrow> bool" where
  "agrees threshold at now reg \<longleftrightarrow> table_ok at \<and> stalenessThreshold at = threshold \<and>
     (\<forall>h v. stamp at h v = reg h v \<or>
        stamp at h v = None \<and> (\<exists>t. reg h v = Some t \<and> since now t > threshold))"

lemma since_mono: "now \<le> now' \<Longrightarrow> since now t \<le> since now' t"
  by (simp add: since_def max_def min_def)

lemma threshold_kept:
  "stalenessThreshold (Add now hs v at) = stalenessThreshold at"
  "stalenessThreshold (Remove hs v at) = stalenessThreshold at"
  unfolding Add_def Remove_def
  by (induction hs arbitrary: at) (auto simp: Add_one_def Remove_one_def Let_def)

lemma table_run_agrees: "table_run threshold delay at p now reg \<Longrightarrow> agrees threshold at now reg"
proof (induction rule: table_run.induct)
  case (start now)
  then show ?case
    using table_ok_new by (auto simp: agrees_def NewAddressTable_def stamp_def entriesForHostname_def)
next
  case (clock at p now reg now')
  then show ?case unfolding agrees_def by (metis since_mono order.strict_trans2)
next
  case (add at p now reg hs v)
  then show ?case using Add_spec [of at now hs v] unfolding agrees_def threshold_kept by simp
next
  case (remove at p now reg hs v)
  then show ?case using Remove_spec [of at hs v] unfolding agrees_def threshold_kept by simp
next
  case (prune at cs now reg)
  then have IH: "table_ok at" "stalenessThreshold at = threshold" "stamp at h v = reg h v \<or>
      stamp at h v = None \<and> (\<exists>t. reg h v = Some t \<and> since now t > threshold)" for h v
    unfolding agrees_def by auto
  note p = prune_spec [OF IH(1), of now cs]
  have "stamp (pruneStaleEntries now cs at) h v = reg h v \<or>
      stamp (pruneStaleEntries now cs at) h v = None \<and> (\<exists>t. reg h v = Some t \<and> since now t > threshold)" for h v
    using IH(2) IH(3) [of h v] p [of h v] by (cases "reg h v") (auto split: if_splits)
  with IH(2) p show ?case unfolding agrees_def by simp
qed (simp_all add: agrees_def PausePruning_def ResumePruning_def SetWarm_def Shutdown_def table_ok_def stamp_def entriesForHostname_def)


text \<open>C35. Whatever way registrations, removals, pauses and the three steps of pruning interleave, a
  look-up returns only addresses that are registered, each once, and returns every address that was
  registered within the staleness threshold: in particular a registration that arrives between the
  scan and the pruning is kept.\<close>

theorem fresh_registrations_kept:
  assumes "table_run threshold delay at p now reg"
  shows "table_ok at \<and> distinct (Lookup at h) \<and>
    (\<forall>v \<in> set (Lookup at h). reg (fqdn h) v \<noteq> None) \<and>
    (\<forall>v t. reg (fqdn h) v = Some t \<and> since now t \<le> threshold \<longrightarrow> v \<in> set (Lookup at h))"
proof -
  have a: "table_ok at" "stamp at (fqdn h) v = reg (fqdn h) v \<or>
      stamp at (fqdn h) v = None \<and> (\<exists>t. reg (fqdn h) v = Some t \<and> since now t > threshold)" for v
    using table_run_agrees [OF assms] unfolding agrees_def by auto
  have "reg (fqdn h) v \<noteq> None" if "v \<in> set (Lookup at h)" for v
    using that a(2) [of v] unfolding Lookup_stamp by auto
  moreover have "v \<in> set (Lookup at h)" if "reg (fqdn h) v = Some t" "since now t \<le> threshold" for v t
    using that a(2) [of v] unfolding Lookup_stamp by auto
  ultimately show ?thesis using a(1) Lookup_distinct by blast
qed

text \<open>A registration at time 100 that arrives between the scan and the pruning of one at time 10.\<close>

theorem fresh_registrations_kept_witness:
  "\<exists>at reg. table_run 60 0 at Waiting 100 reg \<and> reg ''a.'' ''10.0.0.1'' = Some 100 \<and> ''10.0.0.1'' \<in> set (Lookup at ''a'')"
proof -
  let ?t1 = "Add 10 [''a''] ''10.0.0.1'' (NewAddressTable 60 0)"
  let ?reg = "\<lambda>t f h w. if h \<in> fqdn ` set [''a''] \<and> w = ''10.0.0.1'' then Some t else f h w"
  have "table_run 60 0 ?t1 Waiting 10 (?reg 10 (\<lambda>h v. None))" by (rule add [OF start])
  then have r: "table_run 60 0 ?t1 Waiting 100 (?reg 10 (\<lambda>h v. None))" by (rule clock) simp
  have "pruning_allowed 100 ?t1" "ticking ?t1" by code_simp+
  from scan [OF check [OF r this(2,1)] is_range_id] have
    s: "table_run 60 0 ?t1 (Scanned (addressesWithStaleEntries (\<lambda>ks. ks) 100 ?t1)) 100 (?reg 10 (\<lambda>h v. None))" .
  have run: "table_run 60 0 (pruneStaleEntries 100 (addressesWithStaleEntries (\<lambda>ks. ks) 100 ?t1) (Add 100 [''a''] ''10.0.0.1'' ?t1))
      Waiting 100 (?reg 100 (?reg 10 (\<lambda>h v. None)))" by (rule prune [OF add [OF s]])
  have fq: "fqdn ''a'' = ''a.''" by (simp add: fqdn_def isFqdn_def)
  have reg: "?reg 100 (?reg 10 (\<lambda>h v. None)) ''a.'' ''10.0.0.1'' = Some 100" by (simp add: fq)
  have "since 100 100 \<le> 60" by (simp add: since_def)
  with reg fresh_registrations_kept [OF run, of "''a''", unfolded fq]
  have "''10.0.0.1'' \<in> set (Lookup (pruneStaleEntries 100 (addressesWithStaleEntries (\<lambda>ks. ks) 100 ?t1) (Add 100 [''a''] ''10.0.0.1'' ?t1)) ''a'')"
    by blast
  with run reg show ?thesis by (intro exI conjI)
qed

text \<open>A host name whose addresses were all pruned stays in the table with no address.\<close>

lemma pruned_host_still_listed:
  "(''b.internal.'', []) \<in> set (GetAllAddresses (prune_tick rev 120 demo_table))"
  by code_simp

subsection \<open>The table as an address book\<close>

datatype registration_event = Registered "string list" string | Unregistered "string list" string

text \<open>The addresses whose last event for a host name is a registration, starting from the given ones.\<close>

fun registered :: "registration_event list \<Rightarrow> string \<Rightarrow> string set \<Rightarrow> string set" where
  "registered [] h S = S"
| "registered (Registered hs v # es) h S = registered es h (if fqdn h \<in> fqdn ` set hs then insert v S else S)"
| "registered (Unregistered hs v # es) h S = registered es h (if fqdn h \<in> fqdn ` set hs then S - {v} else S)"

fun apply_event ::
  "(int \<Rightarrow> string list \<Rightarrow> string \<Rightarrow> 't \<Rightarrow> 't) \<Rightarrow> (string list \<Rightarrow> string \<Rightarrow> 't \<Rightarrow> 't) \<Rightarrow> int \<times> registration_event \<Rightarrow> 't \<Rightarrow> 't" where
  "apply_event add remove (now, Registered hs v) t = add now hs v t"
| "apply_event add remove (now, Unregistered hs v) t = remove hs v t"

text \<open>What the subscriber and the server rely on.\<close>

locale address_book =
  fixes add :: "int \<Rightarrow> string list \<Rightarrow> string \<Rightarrow> 't \<Rightarrow> 't"
    and remove :: "string list \<Rightarrow> string \<Rightarrow> 't \<Rightarrow> 't"
    and lookup :: "'t \<Rightarrow> string \<Rightarrow> string list"
    and ok :: "'t \<Rightarrow> bool"
  assumes add_ok: "ok t \<Longrightarrow> ok (add now hs v t)"
    and remove_ok: "ok t \<Longrightarrow> ok (remove hs v t)"
    and lookup_distinct: "ok t \<Longrightarrow> distinct (lookup t h)"
    and lookup_add: "ok t \<Longrightarrow> set (lookup (add now hs v t) h) =
      (if fqdn h \<in> fqdn ` set hs then insert v (set (lookup t h)) else set (lookup t h))"
    and lookup_remove: "ok t \<Longrightarrow> set (lookup (remove hs v t) h) =
      (if fqdn h \<in> fqdn ` set hs then set (lookup t h) - {v} else set (lookup t h))"
begin

lemma apply_events:
  "ok t \<Longrightarrow> ok (fold (apply_event add remove) es t) \<and> distinct (lookup (fold (apply_event add remove) es t) h) \<and>
     set (lookup (fold (apply_event add remove) es t) h) = registered (map snd es) h (set (lookup t h))"
proof (induction es arbitrary: t)
  case Nil
  then show ?case by (simp add: lookup_distinct)
next
  case (Cons e es)
  obtain now x where e: "e = (now, x)" by fastforce
  with Cons show ?case by (cases x) (simp_all add: add_ok remove_ok lookup_add lookup_remove)
qed

end

interpretation book: address_book Add Remove Lookup table_ok
proof
  fix now t hs v h
  assume ok: "table_ok t"
  show "table_ok (Add now hs v t)" "table_ok (Remove hs v t)" using Add_spec [OF ok] Remove_spec [OF ok] by blast+
  show "distinct (Lookup t h)" by (rule Lookup_distinct [OF ok])
  show "set (Lookup (Add now hs v t) h) =
      (if fqdn h \<in> fqdn ` set hs then insert v (set (Lookup t h)) else set (Lookup t h))"
    using Add_spec [OF ok, of now hs v] by (auto simp: set_eq_iff Lookup_stamp)
  show "set (Lookup (Remove hs v t) h) =
      (if fqdn h \<in> fqdn ` set hs then set (Lookup t h) - {v} else set (Lookup t h))"
    using Remove_spec [OF ok, of hs v] by (auto simp: set_eq_iff Lookup_stamp)
qed

end
