(* ===== verification/Service_Discovery.thy ===== *)
theory Service_Discovery
  imports Address_Table Serve_Mux Complex_Main
begin

text \<open>
  \<^verbatim>\<open>service-discovery-controller\<close> around its address table: the NATS subscriber (\<^verbatim>\<open>mbus\<close>), the metrics
  recorders and the HTTP server (\<^verbatim>\<open>routes\<close>). The NATS client carries the outcomes of its next calls;
  what it published, what it subscribed to and whether it was closed is part of the state. JSON is a
  parameter.
\<close>

subsection \<open>Recorders\<close>

record mbus_recorder =
  currentMax :: int
  registerMessagesReceived :: int

definition NewMetricsRecorder :: mbus_recorder where
  "NewMetricsRecorder = \<lparr>currentMax = 0, registerMessagesReceived = 0\<rparr>"

text \<open>Milliseconds as rational numbers: the rounding to \<^verbatim>\<open>float64\<close> is left out.\<close>

definition GetMaxSinceLastInterval :: "mbus_recorder \<Rightarrow> rat \<times> mbus_recorder" where
  "GetMaxSinceLastInterval r = (of_int (currentMax r) / 1000000, r\<lparr>currentMax := 0\<rparr>)"

definition RecordMessageTransitTime :: "int \<Rightarrow> int \<Rightarrow> mbus_recorder \<Rightarrow> mbus_recorder" where
  "RecordMessageTransitTime now unixTimeNS r =
     (if unixTimeNS = 0 then r
      else let diff = since now unixTimeNS in
        if diff > currentMax r then r\<lparr>currentMax := diff\<rparr> else r)"

definition RecordRegisterMessageReceived :: "mbus_recorder \<Rightarrow> mbus_recorder" where
  "RecordRegisterMessageReceived r = r\<lparr>registerMessagesReceived := registerMessagesReceived r + 1\<rparr>"

definition GetRegisterMessagesReceived :: "mbus_recorder \<Rightarrow> rat" where
  "GetRegisterMessagesReceived r = of_int (registerMessagesReceived r)"

definition RecordRequest :: "int \<Rightarrow> int" where
  "RecordRequest requestCount = requestCount + 1"

definition routes_Getter :: "int \<Rightarrow> rat \<times> int" where
  "routes_Getter requestCount = (of_int requestCount, 0)"

subsection \<open>Subscriber\<close>

record ServiceDiscoveryStartMessage =
  Id :: string
  Host :: string
  MinimumRegisterIntervalInSeconds :: int
  PruneThresholdInSeconds :: int

record SubscriberOpts =
  ID :: string
  opts_MinimumRegisterInterval :: int
  opts_PruneThreshold :: int

record RegistryMessage =
  IP :: string
  InfraNames :: "string list"
  EndpointUpdatedAt :: int

record nats =
  nats_faults :: "string option list"
  published :: "(string \<times> string) list"
  subscribed :: "string list"
  flushes :: nat
  closed :: bool

record Subscriber =
  subOpts :: SubscriberOpts
  localIP :: string
  marshal_start :: "ServiceDiscoveryStartMessage \<Rightarrow> string result"
  unmarshal_registry :: "string \<Rightarrow> RegistryMessage result"

record controller =
  table :: AddressTable
  recorder :: mbus_recorder
  natsClient :: "nats option"
  once_done :: bool
  requestCount :: int

definition nats_call :: "(nats \<Rightarrow> nats) \<Rightarrow> nats \<Rightarrow> unit result \<times> nats" where
  "nats_call effect n = (case nats_faults n of
       [] \<Rightarrow> (Inr (), effect n)
     | None # fs \<Rightarrow> (Inr (), effect (n\<lparr>nats_faults := fs\<rparr>))
     | Some e # fs \<Rightarrow> (Inl (DriverError e), n\<lparr>nats_faults := fs\<rparr>))"

definition PublishMsg :: "string \<Rightarrow> string \<Rightarrow> nats \<Rightarrow> unit result \<times> nats" where
  "PublishMsg subject d = nats_call (\<lambda>n. n\<lparr>published := published n @ [(subject, d)]\<rparr>)"

definition Subscribe :: "string \<Rightarrow> nats \<Rightarrow> unit result \<times> nats" where
  "Subscribe subject = nats_call (\<lambda>n. n\<lparr>subscribed := subscribed n @ [subject]\<rparr>)"

definition Flush :: "nats \<Rightarrow> unit result \<times> nats" where
  "Flush = nats_call (\<lambda>n. n\<lparr>flushes := flushes n + 1\<rparr>)"

text \<open>A marshalling error panics.\<close>

definition subscriptionOptionsJSON :: "Subscriber \<Rightarrow> string result" where
  "subscriptionOptionsJSON s = (case marshal_start s
       \<lparr>Id = ID (subOpts s), Host = localIP s,
        MinimumRegisterIntervalInSeconds = opts_MinimumRegisterInterval (subOpts s),
        PruneThresholdInSeconds = opts_PruneThreshold (subOpts s)\<rparr> of
     Inl e \<Rightarrow> Inl (Panic ''Unable to marshal subsription options'') | Inr j \<Rightarrow> Inr j)"

text \<open>A call on the client when there is none dereferences a nil interface.\<close>

definition on_nats :: "(nats \<Rightarrow> 'a result \<times> nats) \<Rightarrow> controller \<Rightarrow> 'a result \<times> controller" where
  "on_nats f c = (case natsClient c of
       None \<Rightarrow> (Inl (Panic ''nil pointer dereference''), c)
     | Some n \<Rightarrow> (case f n of (r, n) \<Rightarrow> (r, c\<lparr>natsClient := Some n\<rparr>)))"

definition sendStartMessage :: "Subscriber \<Rightarrow> controller \<Rightarrow> unit result \<times> controller" where
  "sendStartMessage s c = (case subscriptionOptionsJSON s of
       Inl e \<Rightarrow> (Inl e, c)
     | Inr j \<Rightarrow> (case natsClient c of
         None \<Rightarrow> (Inl (Panic ''nil pointer dereference''), c)
       | Some n \<Rightarrow> (case PublishMsg ''service-discovery.start'' j n of
           (Inl e, n) \<Rightarrow> (Inl (Errorf ''unable to publish a start message: '' e), c\<lparr>natsClient := Some n\<rparr>)
         | (Inr _, n) \<Rightarrow> (Inr (), c\<lparr>natsClient := Some n\<rparr>))))"

definition subscriber_Close :: "controller \<Rightarrow> controller" where
  "subscriber_Close c = (case natsClient c of
     None \<Rightarrow> c | Some n \<Rightarrow> c\<lparr>natsClient := Some (n\<lparr>closed := True\<rparr>)\<rparr>)"

definition setupGreetMsgHandler :: "Subscriber \<Rightarrow> controller \<Rightarrow> unit result \<times> controller" where
  "setupGreetMsgHandler s c = (case subscriptionOptionsJSON s of
       Inl e \<Rightarrow> (Inl e, c)
     | Inr _ \<Rightarrow> (case on_nats (Subscribe ''service-discovery.greet'') c of
         (Inl e, c) \<Rightarrow> (Inl e, c)
       | (Inr _, c) \<Rightarrow> on_nats Flush c))"

definition setupAddressMessageHandler :: "controller \<Rightarrow> unit result \<times> controller" where
  "setupAddressMessageHandler c = (case on_nats (Subscribe ''service-discovery.register'') c of
       (Inl e, c) \<Rightarrow> (Inl e, c)
     | (Inr _, c) \<Rightarrow> on_nats (Subscribe ''service-discovery.unregister'') c)"

text \<open>\<open>conn\<close> is what the connection provider returns. The warm-up timer is an event of its own.\<close>

definition RunOnce :: "Subscriber \<Rightarrow> nats result \<Rightarrow> controller \<Rightarrow> unit result \<times> controller" where
  "RunOnce s conn c =
     (if once_done c then (Inr (), c)
      else let c = c\<lparr>once_done := True\<rparr> in
        case (case conn of
            Inl e \<Rightarrow> (Inl (Errorf ''unable to create nats connection: '' e), c)
          | Inr n \<Rightarrow> (case sendStartMessage s (c\<lparr>natsClient := Some n\<rparr>) of
              (Inl e, c) \<Rightarrow> (Inl e, c)
            | (Inr _, c) \<Rightarrow> (case setupGreetMsgHandler s c of
                (Inl e, c) \<Rightarrow> (Inl e, c)
              | (Inr _, c) \<Rightarrow> setupAddressMessageHandler c))) of
          (Inl e, c) \<Rightarrow> (Inl e, subscriber_Close c)
        | (Inr _, c) \<Rightarrow> (Inr (), c))"

text \<open>\<^verbatim>\<open>Run\<close> until a signal arrives.\<close>

definition subscriber_Run :: "Subscriber \<Rightarrow> nats result \<Rightarrow> controller \<Rightarrow> unit result \<times> controller" where
  "subscriber_Run s conn c = (case RunOnce s conn c of
     (Inl e, c) \<Rightarrow> (Inl e, c) | (Inr _, c) \<Rightarrow> (Inr (), subscriber_Close c))"

definition handle_register :: "Subscriber \<Rightarrow> int \<Rightarrow> string \<Rightarrow> controller \<Rightarrow> controller" where
  "handle_register s now d c = (case unmarshal_registry s d of
       Inl e \<Rightarrow> c
     | Inr msg \<Rightarrow>
         if IP msg = '''' \<or> length (InfraNames msg) = 0 then c
         else c\<lparr>recorder := RecordRegisterMessageReceived (RecordMessageTransitTime now (EndpointUpdatedAt msg) (recorder c)),
           table := Add now (InfraNames msg) (IP msg) (table c)\<rparr>)"

definition handle_unregister :: "Subscriber \<Rightarrow> string \<Rightarrow> controller \<Rightarrow> controller" where
  "handle_unregister s d c = (case unmarshal_registry s d of
       Inl e \<Rightarrow> c
     | Inr msg \<Rightarrow> if length (InfraNames msg) = 0 then c
         else c\<lparr>table := Remove (InfraNames msg) (IP msg) (table c)\<rparr>)"

definition handle_greet :: "Subscriber \<Rightarrow> string \<Rightarrow> controller \<Rightarrow> controller" where
  "handle_greet s reply c = (case subscriptionOptionsJSON s of
     Inl e \<Rightarrow> c | Inr j \<Rightarrow> snd (on_nats (PublishMsg reply j) c))"

definition handle_reconnect :: "Subscriber \<Rightarrow> int \<Rightarrow> controller \<Rightarrow> controller" where
  "handle_reconnect s now c = snd (sendStartMessage s (c\<lparr>table := ResumePruning now (table c)\<rparr>))"

definition handle_disconnect :: "controller \<Rightarrow> controller" where
  "handle_disconnect c = c\<lparr>table := PausePruning (table c)\<rparr>"

datatype nats_event =
  RegisterMsg string | UnregisterMsg string | GreetMsg string | Reconnected | Disconnected | WarmTimer

fun on_event :: "Subscriber \<Rightarrow> int \<times> nats_event \<Rightarrow> controller \<Rightarrow> controller" where
  "on_event s (now, RegisterMsg d) c = handle_register s now d c"
| "on_event s (now, UnregisterMsg d) c = handle_unregister s d c"
| "on_event s (now, GreetMsg reply) c = handle_greet s reply c"
| "on_event s (now, Reconnected) c = handle_reconnect s now c"
| "on_event s (now, Disconnected) c = handle_disconnect c"
| "on_event s (now, WarmTimer) c = c\<lparr>table := SetWarm (table c)\<rparr>"

subsection \<open>Server\<close>

record response =
  status :: int
  body :: string

text \<open>\<^verbatim>\<open>path.Base\<close>.\<close>

definition path_Base :: "string \<Rightarrow> string" where
  "path_Base p = (if p = '''' then ''.''
     else let p = rev (dropWhile (\<lambda>x. x = CHR ''/'') (rev p)) in
       if p = '''' then ''/'' else rev (takeWhile (\<lambda>x. x \<noteq> CHR ''/'') (rev p)))"

text \<open>The two JSON documents: the addresses of a registration (all other fields are empty), and the
  host names with their addresses; and the text of an error.\<close>

record server_json =
  marshal_registration :: "string list \<Rightarrow> string result"
  marshal_routes :: "(string \<times> string list) list \<Rightarrow> string result"
  error_text :: "go_error \<Rightarrow> string"

definition handleRegistrationRequest :: "server_json \<Rightarrow> string \<Rightarrow> controller \<Rightarrow> response \<times> controller" where
  "handleRegistrationRequest js url_path c =
     (let serviceKey = path_Base url_path in
      if \<not> IsWarm (table c) then (\<lparr>status = 500, body = ''address table is not warm'' @ [CHR 0x0A]\<rparr>, c)
      else let ips = Lookup (table c) serviceKey in
        case marshal_registration js ips of
          Inl e \<Rightarrow> (\<lparr>status = 500, body = error_text js e @ [CHR 0x0A]\<rparr>, c)
        | Inr j \<Rightarrow> (\<lparr>status = 200, body = j\<rparr>, c\<lparr>requestCount := RecordRequest (requestCount c)\<rparr>))"

definition handleRoutesRequest ::
  "server_json \<Rightarrow> ((string \<times> string list) list \<Rightarrow> (string \<times> string list) list) \<Rightarrow> controller \<Rightarrow> response" where
  "handleRoutesRequest js rng c = (case marshal_routes js (rng (GetAllAddresses (table c))) of
     Inl e \<Rightarrow> \<lparr>status = 500, body = error_text js e @ [CHR 0x0A]\<rparr> | Inr j \<Rightarrow> \<lparr>status = 200, body = j\<rparr>)"

text \<open>The multiplexer of \<open>Run\<close>. The left case is a redirect to another path.\<close>

datatype sdc_handler = RegistrationHandler | RoutesHandler

definition sdc_mux :: "(string \<times> sdc_handler) list" where
  "sdc_mux = [(''/v1/registration/'', RegistrationHandler), (''/routes'', RoutesHandler)]"

definition sdc_serve :: "server_json \<Rightarrow> ((string \<times> string list) list \<Rightarrow> (string \<times> string list) list) \<Rightarrow> string \<Rightarrow> controller \<Rightarrow>
    (string + response) \<times> controller" where
  "sdc_serve js rng path c = (case mux_route sdc_mux path of
       Handler RegistrationHandler \<Rightarrow> map_prod Inr id (handleRegistrationRequest js path c)
     | Handler RoutesHandler \<Rightarrow> (Inr (handleRoutesRequest js rng c), c)
     | MovedPermanently p \<Rightarrow> (Inl p, c)
     | NotFound \<Rightarrow> (Inr \<lparr>status = 404, body = ''404 page not found'' @ [CHR 0x0A]\<rparr>, c))"

lemma sdc_registration_path:
  assumes "CHR ''/'' \<notin> set name" "name \<noteq> ''''" "name \<noteq> ''.''" "name \<noteq> ''..''"
  shows "mux_route sdc_mux (''/v1/registration/'' @ name) = Handler RegistrationHandler"
proof -
  have "split_on (CHR ''/'') (''/v1/registration/'' @ name) = ['''', ''v1'', ''registration'', name]"
    using assms(1) by (simp add: split_no_sep)
  then have "clean_comps True (''/v1/registration/'' @ name) = [''v1'', ''registration'', name]"
    using assms by (simp add: clean_comps_def clean_step_def)
  moreover have "\<not> has_suffix (''/v1/registration/'' @ name) ''/''"
    using assms(1,2) by (auto simp: has_suffix_last) (metis last_in_set)
  ultimately have clean: "cleanPath (''/v1/registration/'' @ name) = ''/v1/registration/'' @ name"
    by (simp add: cleanPath_def filepath_Clean_def is_rooted_def)
  have "name @ ''/'' \<noteq> ''''" by simp
  then show ?thesis using clean assms(2)
    by (simp add: mux_route_def sdc_mux_def mux_match_def pathMatch_def subtree_def has_suffix_def)
qed


subsection \<open>Properties\<close>

text \<open>The registration or removal that an event stands for; malformed messages stand for none.\<close>

fun event_of :: "Subscriber \<Rightarrow> int \<times> nats_event \<Rightarrow> (int \<times> registration_event) option" where
  "event_of s (now, RegisterMsg d) = (case unmarshal_registry s d of
       Inl e \<Rightarrow> None
     | Inr msg \<Rightarrow> if IP msg = '''' \<or> InfraNames msg = [] then None else Some (now, Registered (InfraNames msg) (IP msg)))"
| "event_of s (now, UnregisterMsg d) = (case unmarshal_registry s d of
       Inl e \<Rightarrow> None
     | Inr msg \<Rightarrow> if InfraNames msg = [] then None else Some (now, Unregistered (InfraNames msg) (IP msg)))"
| "event_of s (now, _) = None"

lemma on_nats_table: "table (snd (on_nats f c)) = table c"
  by (auto simp: on_nats_def split: option.splits prod.splits)

lemma sendStartMessage_table: "table (snd (sendStartMessage s c)) = table c"
  by (auto simp: sendStartMessage_def split: sum.splits prod.splits option.splits)

text \<open>The table fields that a look-up and the invariant read.\<close>

definition same_addresses :: "AddressTable \<Rightarrow> AddressTable \<Rightarrow> bool" where
  "same_addresses a b \<longleftrightarrow> addresses a = addresses b"

lemma on_event_table:
  "same_addresses (table (on_event s e c))
     (case event_of s e of None \<Rightarrow> table c | Some x \<Rightarrow> apply_event Add Remove x (table c))"
proof (cases "(s, e, c)" rule: on_event.cases)
  case (1 s now d c)
  then show ?thesis by (auto simp: handle_register_def same_addresses_def split: sum.splits)
next
  case (2 s now d c)
  then show ?thesis by (auto simp: handle_unregister_def same_addresses_def split: sum.splits)
qed (auto simp: handle_greet_def handle_reconnect_def handle_disconnect_def on_nats_table sendStartMessage_table
    same_addresses_def ResumePruning_def PausePruning_def SetWarm_def split: sum.splits)


lemma registered_Cons: "registered (e # es) h S = registered es h (registered [e] h S)"
  by (cases e) simp_all

lemma same_addresses_lookup: "same_addresses a b \<Longrightarrow> Lookup a h = Lookup b h \<and> table_ok a = table_ok b"
  by (simp add: same_addresses_def Lookup_def entriesForHostname_def table_ok_def)

lemma on_event_lookup:
  assumes "table_ok (table c)"
  shows "table_ok (table (on_event s e c)) \<and> set (Lookup (table (on_event s e c)) h) =
    (case event_of s e of None \<Rightarrow> set (Lookup (table c) h)
     | Some x \<Rightarrow> registered [snd x] h (set (Lookup (table c) h)))"
proof (cases "event_of s e")
  case None
  then show ?thesis using same_addresses_lookup [OF on_event_table, of s e c h] assms by simp
next
  case (Some x)
  then show ?thesis
    using same_addresses_lookup [OF on_event_table, of s e c h] book.apply_events [OF assms, of "[x]" h] by simp
qed

lemma messages_lookup:
  assumes "table_ok (table c)"
  shows "table_ok (table (fold (on_event s) es c)) \<and> distinct (Lookup (table (fold (on_event s) es c)) h) \<and>
    set (Lookup (table (fold (on_event s) es c)) h) =
      registered (map snd (List.map_filter (event_of s) es)) h (set (Lookup (table c) h))"
  using assms
proof (induction es arbitrary: c)
  case Nil
  then show ?case by (simp add: book.lookup_distinct List.map_filter_simps)
next
  case (Cons e es)
  note step = on_event_lookup [OF Cons.prems, of s e h]
  then have "table_ok (table (on_event s e c))" by blast
  from Cons.IH [OF this] step show ?case
    using registered_Cons [of "snd (the (event_of s e))" "map snd (List.map_filter (event_of s) es)" h]
    by (cases "event_of s e") (simp_all add: List.map_filter_simps)
qed

text \<open>C36. After any sequence of NATS events, a look-up lists, once each, exactly the addresses whose last
  well-formed message for the host name, with or without its final dot, registered them; malformed
  messages, greetings, reconnections and the warm-up change no look-up.\<close>

theorem messages_determine_lookup:
  assumes "table_ok (table c)"
  shows "table_ok (table (fold (on_event s) es c)) \<and> distinct (Lookup (table (fold (on_event s) es c)) h) \<and>
    set (Lookup (table (fold (on_event s) es c)) h) =
      registered (map snd (List.map_filter (event_of s) es)) h (set (Lookup (table c) h))"
  using assms by (rule messages_lookup)

definition demo_subscriber :: Subscriber where
  "demo_subscriber = \<lparr>subOpts = \<lparr>ID = ''0-u'', opts_MinimumRegisterInterval = 60, opts_PruneThreshold = 120\<rparr>,
     localIP = ''10.0.0.9'', marshal_start = (\<lambda>m. Inr (Id m)),
     unmarshal_registry = (\<lambda>d. if d = ''x'' then Inl (JsonError ''x'') else
       Inr \<lparr>IP = d, InfraNames = [''a.internal''], EndpointUpdatedAt = 5\<rparr>)\<rparr>"

definition demo_controller :: controller where
  "demo_controller = \<lparr>table = NewAddressTable 120 60, recorder = NewMetricsRecorder, natsClient = None,
     once_done = False, requestCount = 0\<rparr>"

definition demo_events :: "(int \<times> nats_event) list" where
  "demo_events = [(10, RegisterMsg ''10.0.0.1''), (11, RegisterMsg ''x''), (12, RegisterMsg ''10.0.0.2''), (13, Disconnected),
     (14, UnregisterMsg ''10.0.0.1''), (15, WarmTimer)]"

lemma demo_controller_ok: "table_ok (table demo_controller)"
  by (simp add: demo_controller_def table_ok_new)

theorem messages_determine_lookup_witness:
  "set (Lookup (table (fold (on_event demo_subscriber) demo_events demo_controller)) ''a.internal.'') = {''10.0.0.2''}"
proof -
  have "set (Lookup (table demo_controller) ''a.internal.'') = {}"
    "registered (map snd (List.map_filter (event_of demo_subscriber) demo_events)) ''a.internal.'' {} = {''10.0.0.2''}"
    by code_simp+
  with messages_determine_lookup [OF demo_controller_ok, of demo_subscriber demo_events "''a.internal.''"]
  show ?thesis by simp
qed

lemma nats_call_cases:
  assumes "nats_call eff n = (r, n')"
  obtains (ok) "r = Inr ()" "n' = eff (n\<lparr>nats_faults := drop 1 (nats_faults n)\<rparr>)"
  | (fault) e where "r = Inl (DriverError e)" "n' = n\<lparr>nats_faults := drop 1 (nats_faults n)\<rparr>"
proof (cases "nats_faults n")
  case Nil
  then have same: "n\<lparr>nats_faults := drop 1 (nats_faults n)\<rparr> = n" by (cases n) simp
  show thesis
  proof (rule ok)
    show "r = Inr ()" using Nil assms by (simp add: nats_call_def)
    show "n' = eff (n\<lparr>nats_faults := drop 1 (nats_faults n)\<rparr>)"
      unfolding same using Nil assms by (simp add: nats_call_def)
  qed
next
  case (Cons f fs)
  with assms show thesis by (cases f) (auto simp: nats_call_def intro: ok fault)
qed


text \<open>The calls of the start-up, in order.\<close>

definition startup_calls :: "string \<Rightarrow> (nats \<Rightarrow> unit result \<times> nats) list" where
  "startup_calls j = [PublishMsg ''service-discovery.start'' j, Subscribe ''service-discovery.greet'', Flush,
     Subscribe ''service-discovery.register'', Subscribe ''service-discovery.unregister'']"

fun run_calls :: "(nats \<Rightarrow> unit result \<times> nats) list \<Rightarrow> nats \<Rightarrow> bool \<times> nats" where
  "run_calls [] n = (True, n)"
| "run_calls (f # fs) n = (case f n of (Inl e, n) \<Rightarrow> (False, n) | (Inr _, n) \<Rightarrow> run_calls fs n)"

lemma RunOnce_calls:
  assumes "once_done c = False" "subscriptionOptionsJSON s = Inr j"
  shows "run_calls (startup_calls j) n = (True, n') \<Longrightarrow>
      RunOnce s (Inr n) c = (Inr (), c\<lparr>once_done := True, natsClient := Some n'\<rparr>)"
    and "run_calls (startup_calls j) n = (False, n') \<Longrightarrow>
      \<exists>e. RunOnce s (Inr n) c = (Inl e, c\<lparr>once_done := True, natsClient := Some (n'\<lparr>closed := True\<rparr>)\<rparr>)"
proof -
  obtain r1 n1 where 1: "PublishMsg ''service-discovery.start'' j n = (r1, n1)" by fastforce
  obtain r2 n2 where 2: "Subscribe ''service-discovery.greet'' n1 = (r2, n2)" by fastforce
  obtain r3 n3 where 3: "Flush n2 = (r3, n3)" by fastforce
  obtain r4 n4 where 4: "Subscribe ''service-discovery.register'' n3 = (r4, n4)" by fastforce
  obtain r5 n5 where 5: "Subscribe ''service-discovery.unregister'' n4 = (r5, n5)" by fastforce
  note defs = RunOnce_def sendStartMessage_def setupGreetMsgHandler_def setupAddressMessageHandler_def on_nats_def
    subscriber_Close_def startup_calls_def Let_def
  consider (a) e where "r1 = Inl e" | (b) e where "r1 = Inr ()" "r2 = Inl e"
    | (c) e where "r1 = Inr ()" "r2 = Inr ()" "r3 = Inl e"
    | (d) e where "r1 = Inr ()" "r2 = Inr ()" "r3 = Inr ()" "r4 = Inl e"
    | (e) e where "r1 = Inr ()" "r2 = Inr ()" "r3 = Inr ()" "r4 = Inr ()" "r5 = Inl e"
    | (f) "r1 = Inr ()" "r2 = Inr ()" "r3 = Inr ()" "r4 = Inr ()" "r5 = Inr ()"
    by (metis obj_sumE old.unit.exhaust)
  note cases = this
  show "run_calls (startup_calls j) n = (True, n') \<Longrightarrow>
      RunOnce s (Inr n) c = (Inr (), c\<lparr>once_done := True, natsClient := Some n'\<rparr>)"
    using assms 1 2 3 4 5 by (cases rule: cases) (simp_all add: defs)
  show "run_calls (startup_calls j) n = (False, n') \<Longrightarrow>
      \<exists>e. RunOnce s (Inr n) c = (Inl e, c\<lparr>once_done := True, natsClient := Some (n'\<lparr>closed := True\<rparr>)\<rparr>)"
    using assms 1 2 3 4 5 by (cases rule: cases) (simp_all add: defs)
qed

lemma nats_ok:
  "PublishMsg subj d n = (Inr u, n') \<Longrightarrow>
     published n' = published n @ [(subj, d)] \<and> subscribed n' = subscribed n \<and> closed n' = closed n"
  "Subscribe subj n = (Inr u, n') \<Longrightarrow>
     published n' = published n \<and> subscribed n' = subscribed n @ [subj] \<and> closed n' = closed n"
  "Flush n = (Inr u, n') \<Longrightarrow> published n' = published n \<and> subscribed n' = subscribed n \<and> closed n' = closed n"
  unfolding PublishMsg_def Subscribe_def Flush_def by (elim nats_call_cases; simp)+

lemma startup_log:
  assumes "run_calls (startup_calls j) n = (True, n')"
  shows "published n' = published n @ [(''service-discovery.start'', j)] \<and>
    subscribed n' = subscribed n @ [''service-discovery.greet'', ''service-discovery.register'', ''service-discovery.unregister''] \<and>
    closed n' = closed n"
  using assms by (auto simp: startup_calls_def split: prod.splits sum.splits dest!: nats_ok)

text \<open>A start of the subscriber either publishes one start message and subscribes to greetings,
  registrations and removals, in this order, on an open connection, or reports an error and closes
  the connection; it leaves the table alone, and every later start does nothing and reports success.\<close>

theorem RunOnce_protocol:
  assumes "once_done c = False" "subscriptionOptionsJSON s = Inr j" "RunOnce s (Inr n) c = (r, c')"
  shows "table c' = table c \<and> RunOnce s conn c' = (Inr (), c') \<and>
    (\<exists>n'. natsClient c' = Some n' \<and>
      (if is_ok r
       then published n' = published n @ [(''service-discovery.start'', j)] \<and> closed n' = closed n \<and>
         subscribed n' = subscribed n @ [''service-discovery.greet'', ''service-discovery.register'', ''service-discovery.unregister'']
       else closed n'))"
proof -
  obtain ok n' where run: "run_calls (startup_calls j) n = (ok, n')" by fastforce
  show ?thesis
  proof (cases ok)
    case True
    with RunOnce_calls(1) [OF assms(1,2)] run assms(3)
    have "r = Inr ()" "c' = c\<lparr>once_done := True, natsClient := Some n'\<rparr>" by auto
    with startup_log [of j n n'] run True show ?thesis by (simp add: RunOnce_def)
  next
    case False
    with RunOnce_calls(2) [OF assms(1,2)] run assms(3)
    obtain e where "r = Inl e" "c' = c\<lparr>once_done := True, natsClient := Some (n'\<lparr>closed := True\<rparr>)\<rparr>" by fastforce
    then show ?thesis by (simp add: RunOnce_def)
  qed
qed

theorem RunOnce_protocol_witness:
  "\<exists>r c' n'. RunOnce demo_subscriber (Inr \<lparr>nats_faults = [None, None, Some ''lost''], published = [], subscribed = [],
      flushes = 0, closed = False\<rparr>) demo_controller = (r, c') \<and> \<not> is_ok r \<and> natsClient c' = Some n' \<and> closed n'"
proof -
  let ?n = "\<lparr>nats_faults = [None, None, Some ''lost''], published = [], subscribed = [], flushes = 0, closed = False\<rparr>"
  let ?run = "RunOnce demo_subscriber (Inr ?n) demo_controller"
  have j: "subscriptionOptionsJSON demo_subscriber = Inr ''0-u''" "once_done demo_controller = False"
    by (simp_all add: subscriptionOptionsJSON_def demo_subscriber_def demo_controller_def)
  have bad: "\<not> is_ok (fst ?run)" by code_simp
  from RunOnce_protocol [OF j(2,1), of ?n "fst ?run" "snd ?run"] bad show ?thesis
    by (metis prod.collapse)
qed

end
