(* ===== verification/DNS_Adapter.thy ===== *)
theory DNS_Adapter
  imports Service_Discovery
begin

text \<open>
  \<^verbatim>\<open>bosh-dns-adapter\<close>: the HTTP handler that answers DNS queries (\<^verbatim>\<open>main.go\<close>) and its client of the
  service discovery controller (\<^verbatim>\<open>sdcclient\<close>). The HTTP transport, JSON and the random numbers are
  parameters; the last section connects the client to the controller's own server.
\<close>

subsection \<open>Client of the controller\<close>

text \<open>\<^verbatim>\<open>vals[n-1], vals[randIndex] = vals[randIndex], vals[n-1]\<close> for \<open>n\<close> from the length down to 1;
  \<open>intn n\<close> is what \<^verbatim>\<open>r.Intn(n)\<close> returns.\<close>

fun shuffle :: "(nat \<Rightarrow> nat) \<Rightarrow> nat \<Rightarrow> string list \<Rightarrow> string list" where
  "shuffle intn 0 vals = vals"
| "shuffle intn (Suc n) vals =
     shuffle intn n (vals[n := vals ! intn (Suc n), intn (Suc n) := vals ! n])"

text \<open>A response as the client sees it: the status, and the body or an error when reading it. \<open>'w\<close> is
  the state of whatever answers. \<open>Inr None\<close>: the body decodes to a nil pointer.\<close>

record ('w) sdc_client =
  serverURL :: string
  http_Get :: "string \<Rightarrow> 'w \<Rightarrow> (int \<times> string result) result \<times> 'w"
  unmarshal_hosts :: "string \<Rightarrow> string list option result"
  Intn :: "nat \<Rightarrow> nat"

text \<open>The loop of at most \<open>k\<close> attempts; the response of the last one.\<close>

fun get_retry :: "('w \<Rightarrow> (int \<times> string result) result \<times> 'w) \<Rightarrow> nat \<Rightarrow> (int \<times> string result) \<Rightarrow> 'w \<Rightarrow> (int \<times> string result) result \<times> 'w" where
  "get_retry get 0 resp w = (Inr resp, w)"
| "get_retry get (Suc k) resp w = (case get w of
       (Inl e, w) \<Rightarrow> (Inl e, w)
     | (Inr (code, b), w) \<Rightarrow> if code = 200 then (Inr (code, b), w) else get_retry get k (code, b) w)"

definition IPs :: "'w sdc_client \<Rightarrow> string \<Rightarrow> 'w \<Rightarrow> string list result \<times> 'w" where
  "IPs s infrastructureName w =
     (let requestUrl = serverURL s @ ''/v1/registration/'' @ infrastructureName in
      case get_retry (http_Get s requestUrl) 4 (0, Inr '''') w of
        (Inl e, w) \<Rightarrow> (Inl e, w)
      | (Inr (code, b), w) \<Rightarrow>
          if code \<noteq> 200 then (Inl (ErrText ''Received non successful response from server''), w)
          else (case b of
              Inl e \<Rightarrow> (Inl e, w)
            | Inr bytes \<Rightarrow> (case unmarshal_hosts s bytes of
                Inl e \<Rightarrow> (Inl e, w)
              | Inr None \<Rightarrow> (Inl (Panic ''nil pointer dereference''), w)
              | Inr (Some ips) \<Rightarrow> (Inr (shuffle (Intn s) (length ips) ips), w))))"

subsection \<open>Answers\<close>

record Answer =
  ans_Name :: string
  RRType :: int
  TTL :: int
  ans_Data :: string

definition RCodeSuccess :: int where "RCodeSuccess = 0"
definition RCodeServerFailure :: int where "RCodeServerFailure = 2"
definition TypeA :: int where "TypeA = 1"

definition nl :: "nat \<Rightarrow> string \<Rightarrow> string" where
  "nl tabs s = [CHR 0x0A] @ replicate tabs (CHR 0x09) @ s"

definition dq :: "string \<Rightarrow> string" where
  "dq s = [CHR 0x22] @ s @ [CHR 0x22]"

definition response_text :: "int \<Rightarrow> string \<Rightarrow> string \<Rightarrow> string \<Rightarrow> string" where
  "response_text dnsResponseStatus requestedInfraName dnsType answers =
     ''{'' @ nl 2 (dq ''Status'' @ '': '' @ itoa dnsResponseStatus @ '','')
     @ nl 2 (dq ''TC'' @ '': false,'') @ nl 2 (dq ''RD'' @ '': false,'') @ nl 2 (dq ''RA'' @ '': false,'')
     @ nl 2 (dq ''AD'' @ '': false,'') @ nl 2 (dq ''CD'' @ '': false,'')
     @ nl 2 (dq ''Question'' @ '':'') @ nl 2 ''['' @ nl 3 ''{''
     @ nl 4 (dq ''name'' @ '': '' @ dq requestedInfraName @ '','') @ nl 4 (dq ''type'' @ '': '' @ dnsType)
     @ nl 3 ''}'' @ nl 2 ''],'' @ nl 2 (dq ''Answer'' @ '': '' @ answers @ '','')
     @ nl 2 (dq ''Additional'' @ '': [ ],'') @ nl 2 (dq ''edns_client_subnet'' @ '': '' @ dq ''0.0.0.0/0'')
     @ nl 1 ''}''"

definition dns_answers :: "string \<Rightarrow> string list \<Rightarrow> Answer list" where
  "dns_answers requestedInfraName ips =
     map (\<lambda>v. \<lparr>ans_Name = requestedInfraName, RRType = TypeA, TTL = 0, ans_Data = v\<rparr>) ips"

definition buildResponseBody :: "(Answer list \<Rightarrow> string result) \<Rightarrow> int \<Rightarrow> string \<Rightarrow> string \<Rightarrow> string list \<Rightarrow> string result" where
  "buildResponseBody marshal dnsResponseStatus requestedInfraName dnsType ips =
     (case marshal (dns_answers requestedInfraName ips) of
        Inl e \<Rightarrow> Inl e
      | Inr answers \<Rightarrow> Inr (response_text dnsResponseStatus requestedInfraName dnsType answers))"

text \<open>When the body cannot be built nothing is written.\<close>

definition writeResponse ::
  "(Answer list \<Rightarrow> string result) \<Rightarrow> int \<Rightarrow> int \<Rightarrow> string \<Rightarrow> string \<Rightarrow> string list \<Rightarrow> response" where
  "writeResponse marshal code dnsResponseStatus requestedInfraName dnsType ips =
     \<lparr>status = code, body = (case buildResponseBody marshal dnsResponseStatus requestedInfraName dnsType ips of
        Inl e \<Rightarrow> '''' | Inr b \<Rightarrow> b)\<rparr>"

definition writeErrorResponse :: "(go_error \<Rightarrow> string) \<Rightarrow> go_error \<Rightarrow> response" where
  "writeErrorResponse text e = \<lparr>status = 500, body = text e\<rparr>"

definition getQueryParam :: "url_form \<Rightarrow> string \<Rightarrow> string \<Rightarrow> string" where
  "getQueryParam query key defaultValue =
     (let queryValue = (case map_of query key of None \<Rightarrow> '''' | Some [] \<Rightarrow> '''' | Some (v # _) \<Rightarrow> v) in
      if queryValue = '''' then defaultValue else queryValue)"

record adapter_json =
  marshal_answers :: "Answer list \<Rightarrow> string result"
  adapter_error_text :: "go_error \<Rightarrow> string"

text \<open>The response, the increment of the counter \<^verbatim>\<open>DNSRequestFailures\<close>, and the state behind the client.\<close>

definition serve_dns :: "adapter_json \<Rightarrow> 'w sdc_client \<Rightarrow> url_form \<Rightarrow> 'w \<Rightarrow> (response \<times> nat) \<times> 'w" where
  "serve_dns js client query w =
     (let dnsType = getQueryParam query ''type'' ''1''; name = getQueryParam query ''name'' '''' in
      if dnsType \<noteq> ''1'' then ((writeResponse (marshal_answers js) 200 RCodeSuccess name dnsType [], 0), w)
      else if name = '''' then ((writeResponse (marshal_answers js) 400 RCodeServerFailure name dnsType [], 0), w)
      else (case IPs client name w of
          (Inl e, w) \<Rightarrow>
            ((writeErrorResponse (adapter_error_text js) (Errorf ''Error querying Service Discover Controller: '' e), 1), w)
        | (Inr ips, w) \<Rightarrow> ((writeResponse (marshal_answers js) 200 RCodeSuccess name dnsType ips, 0), w)))"

subsection \<open>From registration to answer\<close>

text \<open>A network on which a request reaches the controller's server and its body is read in full. The HTTP
  client follows redirects, at most ten.\<close>

fun follow :: "server_json \<Rightarrow> nat \<Rightarrow> string \<Rightarrow> controller \<Rightarrow> (int \<times> string result) result \<times> controller" where
  "follow js 0 path c = (Inl (ErrText ''stopped after 10 redirects''), c)"
| "follow js (Suc n) path c = (case sdc_serve js (\<lambda>m. m) path c of
     (Inl p, c) \<Rightarrow> follow js n p c | (Inr resp, c) \<Rightarrow> (Inr (status resp, Inr (body resp)), c))"

definition controller_Get :: "server_json \<Rightarrow> string \<Rightarrow> string \<Rightarrow> controller \<Rightarrow> (int \<times> string result) result \<times> controller" where
  "controller_Get js base url c = follow js 10 (drop (length base) url) c"

definition connected_client ::
  "server_json \<Rightarrow> string \<Rightarrow> (string \<Rightarrow> string list option result) \<Rightarrow> (nat \<Rightarrow> nat) \<Rightarrow> controller sdc_client" where
  "connected_client js base unmarshal intn =
     \<lparr>serverURL = base, http_Get = controller_Get js base, unmarshal_hosts = unmarshal, Intn = intn\<rparr>"

lemma mset_swap: "i < length xs \<Longrightarrow> j < length xs \<Longrightarrow> mset (xs[i := xs ! j, j := xs ! i]) = mset xs"
  by (cases "i = j") (simp_all add: mset_update multiset_eq_iff nth_list_update)

lemma mset_shuffle:
  assumes "\<forall>n > 0. intn n < n" "n \<le> length vals"
  shows "mset (shuffle intn n vals) = mset vals"
  using assms(2)
proof (induction n arbitrary: vals)
  case (Suc n)
  let ?i = "intn (Suc n)"
  have i: "?i < length vals" "n < length vals" using assms(1) Suc.prems by (auto intro: order.strict_trans2)
  have "mset (shuffle intn (Suc n) vals) = mset (vals[n := vals ! ?i, ?i := vals ! n])"
    using Suc.IH [of "vals[n := vals ! ?i, ?i := vals ! n]"] Suc.prems by simp
  also have "\<dots> = mset vals" by (rule mset_swap) (use i in auto)
  finally show ?case .
qed simp


lemma path_Base_last:
  assumes "name \<noteq> ''''" "CHR ''/'' \<notin> set name"
  shows "path_Base (p @ ''/'' @ name) = name"
proof -
  have "hd (rev name) \<noteq> CHR ''/''" using assms by (metis hd_in_set rev_is_Nil_conv set_rev)
  then have "dropWhile (\<lambda>x. x = CHR ''/'') (rev (p @ ''/'' @ name)) = rev (p @ ''/'' @ name)"
    using assms(1) by (cases "rev name") auto
  moreover have "takeWhile (\<lambda>x. x \<noteq> CHR ''/'') (rev name @ CHR ''/'' # rev p) = rev name"
    using assms(2) by (subst takeWhile_append2) auto
  ultimately show ?thesis using assms(1) by (simp add: path_Base_def Let_def)
qed

text \<open>A name that is one component of a path, and not one that \<^verbatim>\<open>path.Clean\<close> removes.\<close>

definition plain_name :: "string \<Rightarrow> bool" where
  "plain_name name \<longleftrightarrow> name \<notin> {'''', ''.'', ''..''} \<and> CHR ''/'' \<notin> set name"

lemma controller_Get_name:
  assumes "plain_name name"
  shows "controller_Get js base (base @ ''/v1/registration/'' @ name) c =
    (if \<not> warm (table c) then (Inr (500, Inr (''address table is not warm'' @ [CHR 0x0A])), c)
     else case marshal_registration js (Lookup (table c) name) of
         Inl e \<Rightarrow> (Inr (500, Inr (error_text js e @ [CHR 0x0A])), c)
       | Inr j \<Rightarrow> (Inr (200, Inr j), c\<lparr>requestCount := requestCount c + 1\<rparr>))"
proof -
  have n: "name \<noteq> ''''" "CHR ''/'' \<notin> set name" "name \<noteq> ''.''" "name \<noteq> ''..''" using assms by (auto simp: plain_name_def)
  define path where "path = ''/v1/registration/'' @ name"
  have "sdc_serve js (\<lambda>m. m) path c = map_prod Inr id (handleRegistrationRequest js path c)"
    using sdc_registration_path [OF n(2,1,3,4)] unfolding path_def sdc_serve_def by simp
  moreover have "path_Base path = name" using path_Base_last [OF n(1,2), of "''/v1/registration''"] by (simp add: path_def)
  moreover have "controller_Get js base (base @ path) c = (case sdc_serve js (\<lambda>m. m) path c of
      (Inl p, c) \<Rightarrow> follow js 9 p c | (Inr resp, c) \<Rightarrow> (Inr (status resp, Inr (body resp)), c))"
    using follow.simps(2) [of js 9 path c] by (simp add: controller_Get_def)
  ultimately show ?thesis unfolding path_def [symmetric]
    by (simp add: handleRegistrationRequest_def IsWarm_def RecordRequest_def Let_def split: sum.splits)
qed

lemma IPs_warm:
  assumes "plain_name name" "warm (table c)"
    "marshal_registration js (Lookup (table c) name) = Inr j" "unmarshal j = Inr (Some (Lookup (table c) name))"
  shows "IPs (connected_client js base unmarshal intn) name c =
    (Inr (shuffle intn (length (Lookup (table c) name)) (Lookup (table c) name)), c\<lparr>requestCount := requestCount c + 1\<rparr>)"
  using assms controller_Get_name [OF assms(1), of js base c]
  by (simp add: IPs_def connected_client_def numeral_eq_Suc Let_def)

lemma IPs_cold:
  assumes "plain_name name" "\<not> warm (table c)"
  shows "IPs (connected_client js base unmarshal intn) name c =
    (Inl (ErrText ''Received non successful response from server''), c)"
  using assms controller_Get_name [OF assms(1), of js base c]
  by (simp add: IPs_def connected_client_def numeral_eq_Suc Let_def)


end
