(* ===== verification/Discovery_Process.thy ===== *)
theory Discovery_Process
  imports DNS_Adapter
begin

text \<open>
  The processes \<^verbatim>\<open>service-discovery-controller\<close> and \<^verbatim>\<open>bosh-dns-adapter\<close>: their configuration, the addresses of
  the NATS servers, TLS settings and start-up. JSON, validation, certificates, sockets, UUIDs and
  metrics are parameters; times are in nanoseconds.
\<close>

subsection \<open>Configuration of the controller\<close>

record NatsConfig =
  nats_Host :: string
  nats_Port :: int
  nats_User :: string
  nats_Pass :: string

record sdc_Config =
  Address :: string
  sdc_Port :: string
  Nats :: "NatsConfig list"
  Index :: string
  ServerCert :: string
  ServerKey :: string
  CACert :: string
  MetronPort :: int
  LogLevelAddress :: string
  LogLevelPort :: int
  StalenessThresholdSeconds :: int
  PruningIntervalSeconds :: int
  MetricsEmitSeconds :: int
  ResumePruningDelaySeconds :: int
  WarmDurationSeconds :: int

definition NewConfig :: "(string \<Rightarrow> 'c result) \<Rightarrow> ('c \<Rightarrow> unit result) \<Rightarrow> string \<Rightarrow> 'c result" where
  "NewConfig unmarshal validate configJSON = (case unmarshal configJSON of
       Inl e \<Rightarrow> Inl (Errorf ''unmarshal config: '' e)
     | Inr conf \<Rightarrow> (case validate conf of Inl e \<Rightarrow> Inl (Errorf ''invalid config: '' e) | Inr _ \<Rightarrow> Inr conf))"

text \<open>\<^verbatim>\<open>url.URL.String\<close> for a URL with a user, a password and a host: which bytes stay as they are in the user
  information and in the host.\<close>

definition percent :: "(char \<Rightarrow> bool) \<Rightarrow> string \<Rightarrow> string" where
  "percent keep s = concat (map (\<lambda>c. if keep c then [c] else CHR ''%'' # format_hex 2 (of_char c)) s)"

definition keep_user :: "char \<Rightarrow> bool" where
  "keep_user c \<longleftrightarrow> unreserved c \<or> c \<in> set ''$&+,;=''"

definition keep_host :: "char \<Rightarrow> bool" where
  "keep_host c \<longleftrightarrow> unreserved c \<or> c \<in> set ''!$&()*+,;=:[]<>'' \<or> c = CHR 0x22 \<or> c = CHR 0x27"

definition nats_url :: "NatsConfig \<Rightarrow> string" where
  "nats_url info = ''nats://'' @ percent keep_user (nats_User info) @ '':'' @ percent keep_user (nats_Pass info) @ ''@'' @
     percent keep_host (nats_Host info @ '':'' @ itoa (nats_Port info))"

definition NatsServers :: "sdc_Config \<Rightarrow> string list" where
  "NatsServers c = map nats_url (Nats c)"

subsection \<open>Start-up of the controller\<close>

record ('k, 'p) sdc_platform =
  sd_ReadFile :: "string \<Rightarrow> string result"
  sd_unmarshal :: "string \<Rightarrow> sdc_Config result"
  sd_validate :: "sdc_Config \<Rightarrow> unit result"
  sd_dropsonde :: "string \<Rightarrow> string \<Rightarrow> unit result"
  sd_uuid :: "string result"
  sd_ResolveUDPAddr :: "string \<Rightarrow> unit result"
  sd_DialUDP :: "string result"
  sd_SplitHostPort :: "string \<Rightarrow> string result"
  sd_marshal_start :: "ServiceDiscoveryStartMessage \<Rightarrow> string result"
  sd_unmarshal_registry :: "string \<Rightarrow> RegistryMessage result"
  sd_LoadX509KeyPair :: "string \<Rightarrow> string \<Rightarrow> 'k result"
  sd_pem :: "string \<Rightarrow> 'p"

text \<open>\<^verbatim>\<open>LocalIP\<close>: the local address of a UDP socket to a fixed address.\<close>

definition LocalIP :: "('k, 'p) sdc_platform \<Rightarrow> string result" where
  "LocalIP P = (case sd_ResolveUDPAddr P ''1.2.3.4:1'' of
       Inl e \<Rightarrow> Inl e
     | Inr _ \<Rightarrow> (case sd_DialUDP P of Inl e \<Rightarrow> Inl e | Inr localAddr \<Rightarrow> sd_SplitHostPort P localAddr))"

definition second :: int where
  "second = 1000000000"

definition buildAddressTable :: "sdc_Config \<Rightarrow> AddressTable" where
  "buildAddressTable conf = NewAddressTable (StalenessThresholdSeconds conf * second) (ResumePruningDelaySeconds conf * second)"

definition readConfig :: "('k, 'p) sdc_platform \<Rightarrow> string \<Rightarrow> sdc_Config result" where
  "readConfig P configPath = (case sd_ReadFile P configPath of
     Inl e \<Rightarrow> Inl e | Inr bytes \<Rightarrow> NewConfig (sd_unmarshal P) (sd_validate P) bytes)"

text \<open>The subscriber, the URL of its connection provider and the time until it is warm.\<close>

definition buildSubscriber :: "('k, 'p) sdc_platform \<Rightarrow> sdc_Config \<Rightarrow> (Subscriber \<times> string \<times> int) result" where
  "buildSubscriber P conf = (case sd_uuid P of
       Inl e \<Rightarrow> Inl e
     | Inr uuid \<Rightarrow> (case LocalIP P of
         Inl e \<Rightarrow> Inl e
       | Inr ip \<Rightarrow> Inr (\<lparr>subOpts = \<lparr>ID = Index conf @ ''-'' @ uuid,
             opts_MinimumRegisterInterval = ResumePruningDelaySeconds conf, opts_PruneThreshold = 120\<rparr>,
           localIP = ip, marshal_start = sd_marshal_start P, unmarshal_registry = sd_unmarshal_registry P\<rparr>,
           join_with '','' (NatsServers conf), WarmDurationSeconds conf * second)))"

text \<open>The settings of the server: the client certificates of the pool are required and verified. The
  error of reading or loading is returned as it is.\<close>

definition buildTLSServerConfig :: "('k, 'p) sdc_platform \<Rightarrow> sdc_Config \<Rightarrow> ('k \<times> 'p) result" where
  "buildTLSServerConfig P conf = (case sd_ReadFile P (CACert conf) of
       Inl e \<Rightarrow> Inl e
     | Inr caCert \<Rightarrow> (case sd_LoadX509KeyPair P (ServerCert conf) (ServerKey conf) of
         Inl e \<Rightarrow> Inl e | Inr cert \<Rightarrow> Inr (cert, sd_pem P caCert)))"

text \<open>\<^verbatim>\<open>Server.Run\<close>: it fails before it listens, or ends with the error of the listener or with a signal.\<close>

datatype server_end = Server_exited "go_error option" | Server_signalled

definition sd_Server_Run :: "('k, 'p) sdc_platform \<Rightarrow> sdc_Config \<Rightarrow> server_end \<Rightarrow> go_error option" where
  "sd_Server_Run P conf ended = (case buildTLSServerConfig P conf of
       Inl e \<Rightarrow> Some e
     | Inr _ \<Rightarrow> (case ended of Server_exited e \<Rightarrow> e | Server_signalled \<Rightarrow> None))"

record sdc_process =
  sp_subscriber :: Subscriber
  sp_nats_url :: string
  sp_warm_after :: int
  sp_controller :: controller

definition sdc_mainWithError :: "('k, 'p) sdc_platform \<Rightarrow> string \<Rightarrow> sdc_process result" where
  "sdc_mainWithError P configPath = (case readConfig P configPath of
       Inl e \<Rightarrow> Inl e
     | Inr conf \<Rightarrow>
         (let tab = buildAddressTable conf in
          case sd_dropsonde P (''127.0.0.1:'' @ itoa (MetronPort conf)) ''service-discovery-controller'' of
            Inl e \<Rightarrow> Inl e
          | Inr _ \<Rightarrow> (case buildSubscriber P conf of
              Inl e \<Rightarrow> Inl e
            | Inr (s, url, duration) \<Rightarrow> Inr \<lparr>sp_subscriber = s, sp_nats_url = url, sp_warm_after = duration,
                sp_controller = \<lparr>table = tab, recorder = NewMetricsRecorder, natsClient = None, once_done = False, requestCount = 0\<rparr>\<rparr>)))"

subsection \<open>The DNS adapter\<close>

record dns_Config =
  dns_Address :: string
  dns_Port :: string
  ServiceDiscoveryControllerAddress :: string
  ServiceDiscoveryControllerPort :: string
  ClientCert :: string
  ClientKey :: string
  dns_CACert :: string
  dns_MetronPort :: int
  dns_MetricsEmitSeconds :: int
  dns_LogLevelAddress :: string
  dns_LogLevelPort :: int

definition dns_NewConfig :: "(string \<Rightarrow> dns_Config result) \<Rightarrow> (dns_Config \<Rightarrow> unit result) \<Rightarrow> string \<Rightarrow> dns_Config result" where
  "dns_NewConfig unmarshal validate configJSON = (case unmarshal configJSON of
       Inl e \<Rightarrow> Inl e
     | Inr conf \<Rightarrow> (case validate conf of Inl e \<Rightarrow> Inl (Errorf ''invalid config: '' e) | Inr _ \<Rightarrow> Inr conf))"

record ('k, 'p, 'w) dns_platform =
  dns_ReadFile :: "string \<Rightarrow> string result"
  dns_unmarshal :: "string \<Rightarrow> dns_Config result"
  dns_validate :: "dns_Config \<Rightarrow> unit result"
  dns_Listen :: "string \<Rightarrow> unit result"
  dns_dropsonde :: "string \<Rightarrow> string \<Rightarrow> unit result"
  dns_pem :: "string \<Rightarrow> 'p option"
  dns_LoadX509KeyPair :: "string \<Rightarrow> string \<Rightarrow> 'k result"
  dns_Get :: "'k \<Rightarrow> 'p \<Rightarrow> string \<Rightarrow> 'w \<Rightarrow> (int \<times> string result) result \<times> 'w"
  dns_unmarshal_hosts :: "string \<Rightarrow> string list option result"
  dns_Intn :: "nat \<Rightarrow> nat"

text \<open>The HTTP client is the function of the key pair and the certificate pool.\<close>

definition NewServiceDiscoveryClient ::
  "('k, 'p, 'w) dns_platform \<Rightarrow> string \<Rightarrow> string \<Rightarrow> string \<Rightarrow> string \<Rightarrow> 'w sdc_client result" where
  "NewServiceDiscoveryClient P serverUrl caPath clientCertPath clientKeyPath = (case dns_ReadFile P caPath of
       Inl e \<Rightarrow> Inl (Errorf ''read CA file: '' e)
     | Inr caPemBytes \<Rightarrow> (case dns_pem P caPemBytes of
         None \<Rightarrow> Inl (ErrText ''load CA file into cert pool'')
       | Some pool \<Rightarrow> (case dns_LoadX509KeyPair P clientCertPath clientKeyPath of
           Inl e \<Rightarrow> Inl (Errorf ''load client key pair: '' e)
         | Inr cert \<Rightarrow> Inr \<lparr>serverURL = serverUrl, http_Get = dns_Get P cert pool, unmarshal_hosts = dns_unmarshal_hosts P,
             Intn = dns_Intn P\<rparr>)))"

text \<open>The start of \<^verbatim>\<open>main\<close>: the status with which it exits, or the client of its handler.\<close>

definition dns_start :: "('k, 'p, 'w) dns_platform \<Rightarrow> string \<Rightarrow> int + 'w sdc_client" where
  "dns_start P configPath = (case dns_ReadFile P configPath of
       Inl _ \<Rightarrow> Inl 2
     | Inr bytes \<Rightarrow> (case dns_NewConfig (dns_unmarshal P) (dns_validate P) bytes of
         Inl _ \<Rightarrow> Inl 2
       | Inr conf \<Rightarrow> (case dns_Listen P (dns_Address conf @ '':'' @ dns_Port conf) of
           Inl _ \<Rightarrow> Inl 1
         | Inr _ \<Rightarrow> (case dns_dropsonde P (''127.0.0.1:'' @ itoa (dns_MetronPort conf)) ''bosh-dns-adapter'' of
             Inl _ \<Rightarrow> Inl 1
           | Inr _ \<Rightarrow> (case NewServiceDiscoveryClient P
                 (''https://'' @ ServiceDiscoveryControllerAddress conf @ '':'' @ ServiceDiscoveryControllerPort conf)
                 (dns_CACert conf) (ClientCert conf) (ClientKey conf) of
               Inl _ \<Rightarrow> Inl 1 | Inr client \<Rightarrow> Inr client)))))"

subsection \<open>Properties\<close>

lemma digit_not_comma: "d < 16 \<Longrightarrow> digit_char d \<noteq> CHR '',''"
proof
  assume "d < 16" "digit_char d = CHR '',''"
  then have "(of_char (digit_char d) :: nat) = of_char (CHR '','')" by simp
  with \<open>d < 16\<close> show False by (simp add: digit_char_def split: if_splits)
qed

lemma digits_no_comma: "2 \<le> b \<Longrightarrow> b \<le> 16 \<Longrightarrow> CHR '','' \<notin> set (digits_base b n)"
proof (induction b n rule: digits_base.induct)
  case (1 b n)
  have "n mod b < 16" using 1(2,3) by (meson less_le_trans mod_less_divisor order_less_le_trans pos2)
  with 1 show ?case
    using digit_not_comma [of n] digit_not_comma [of "n mod b"] by (auto simp: digits_base.simps [of b n])
qed

lemma itoa_no_comma: "CHR '','' \<notin> set (itoa i)"
  by (simp add: itoa_def digits_no_comma)

lemma hex_no_comma: "CHR '','' \<notin> set (format_hex w n)"
  by (simp add: format_hex_def pad_zero_def digits_no_comma)

lemma comma_percent: "keep (CHR '','') \<Longrightarrow> CHR '','' \<in> set (percent keep s) \<longleftrightarrow> CHR '','' \<in> set s"
  by (auto simp: percent_def hex_no_comma split: if_splits)

lemma comma_nats_url:
  "CHR '','' \<in> set (nats_url info) \<longleftrightarrow> CHR '','' \<in> set (nats_User info @ nats_Pass info @ nats_Host info)"
  by (auto simp: nats_url_def comma_percent keep_user_def keep_host_def itoa_no_comma)

lemma count_join:
  "ws \<noteq> [] \<Longrightarrow> Suc (count_list (join_with [d] ws) d) = length ws + sum_list (map (\<lambda>w. count_list w d) ws)"
proof (induction ws)
  case (Cons w ws)
  then show ?case by (cases "ws = []") (auto simp: join_with_Cons)
qed simp

lemma split_join_iff:
  assumes "ws \<noteq> []"
  shows "split_on d (join_with [d] ws) = ws \<longleftrightarrow> (\<forall>w \<in> set ws. d \<notin> set w)"
proof
  assume "split_on d (join_with [d] ws) = ws"
  then have "length ws = Suc (count_list (join_with [d] ws) d)" by (metis length_split_on)
  then show "\<forall>w \<in> set ws. d \<notin> set w" unfolding count_join [OF assms] by (simp add: count_list_0_iff)
qed (rule split_join [OF assms])

text \<open>The client of NATS splits the joined addresses at the commas. It gets back the addresses of the
  configuration exactly when no user, password or host contains a comma: commas are not escaped.\<close>

theorem nats_servers_separated:
  assumes "Nats c \<noteq> []"
  shows "split_on (CHR '','') (join_with '','' (NatsServers c)) = NatsServers c \<longleftrightarrow>
    (\<forall>info \<in> set (Nats c). CHR '','' \<notin> set (nats_User info @ nats_Pass info @ nats_Host info))"
  using assms split_join_iff [of "NatsServers c" "CHR '',''"] by (simp add: NatsServers_def comma_nats_url)

text \<open>A controller that has just started is cold and knows no address.\<close>

theorem starts_cold:
  assumes "sdc_mainWithError P path = Inr p"
  shows "\<not> IsWarm (table (sp_controller p)) \<and> Lookup (table (sp_controller p)) h = [] \<and>
    GetAllAddresses (table (sp_controller p)) = [] \<and> natsClient (sp_controller p) = None"
  using assms
  by (auto simp: sdc_mainWithError_def buildAddressTable_def NewAddressTable_def IsWarm_def Lookup_def GetAllAddresses_def
      entriesForHostname_def entriesToIPs_def Let_def split: sum.splits)

end
