(* ===== verification/Route_Populator.thy ===== *)
theory Route_Populator
  imports Go_Prelude "HOL-Library.Signed_Division"
begin

text \<open>
  \<^verbatim>\<open>route_populator\<close>: a load generator that registers a range of routes over NATS, split over several
  goroutines. Connections and JSON are parameters; the goroutines take turns, in any order, at their
  first publication, at their heartbeats and at reading the closed channel. Delays are left out.
\<close>

subsection \<open>Publisher\<close>

record Job =
  PublishingEndpoint :: string
  BackendHost :: string
  BackendPort :: int
  AppDomain :: string
  AppName :: string
  StartRange :: int
  EndRange :: int

definition validationError :: "string \<Rightarrow> go_error" where
  "validationError err = ErrText (''Invalid job properties: '' @ err)"

definition quote_name :: "string \<Rightarrow> string" where
  "quote_name s = [CHR 0x22] @ s @ [CHR 0x22]"

definition job_validate :: "Job \<Rightarrow> unit result" where
  "job_validate j =
     (if PublishingEndpoint j = '''' then Inl (validationError (''Missing '' @ quote_name ''AppDomain''))
      else if BackendHost j = '''' then Inl (validationError (''Missing '' @ quote_name ''BackendHost''))
      else if BackendPort j = 0 then Inl (validationError (''Missing '' @ quote_name ''BackendPort''))
      else if AppDomain j = '''' then Inl (validationError (''Missing '' @ quote_name ''AppDomain''))
      else if AppName j = '''' then Inl (validationError (''Missing '' @ quote_name ''AppName''))
      else if EndRange j \<le> StartRange j then
        Inl (validationError (''Invalid route '' @ quote_name ''StartRange'' @ '' and '' @ quote_name ''EndRange''))
      else Inr ())"

record RouteData =
  rd_Host :: string
  rd_Port :: int
  URIs :: "string list"

text \<open>A connection with the outcomes of its next publications and what was published on it.\<close>

record pub_conn =
  pub_faults :: "string option list"
  pub_log :: "(string \<times> string) list"
  pub_closed :: bool

record Publisher =
  pub_job :: Job
  pub_data :: "string list"

definition NewPublisher :: "Job \<Rightarrow> Publisher" where
  "NewPublisher job = \<lparr>pub_job = job, pub_data = []\<rparr>"

definition route_uri :: "Job \<Rightarrow> int \<Rightarrow> string" where
  "route_uri j i = AppName j @ ''-'' @ itoa i @ ''.'' @ AppDomain j"

fun marshal_routes_loop :: "(RouteData \<Rightarrow> string result) \<Rightarrow> Job \<Rightarrow> int list \<Rightarrow> string list result" where
  "marshal_routes_loop marshal j [] = Inr []"
| "marshal_routes_loop marshal j (i # is) =
     (case marshal \<lparr>rd_Host = BackendHost j, rd_Port = BackendPort j, URIs = [route_uri j i]\<rparr> of
        Inl e \<Rightarrow> Inl e
      | Inr d \<Rightarrow> (case marshal_routes_loop marshal j is of Inl e \<Rightarrow> Inl e | Inr ds \<Rightarrow> Inr (d # ds)))"

definition Initialize ::
  "(RouteData \<Rightarrow> string result) \<Rightarrow> (string \<Rightarrow> 'c result) \<Rightarrow> Publisher \<Rightarrow> (Publisher \<times> 'c) result" where
  "Initialize marshal connect p = (case job_validate (pub_job p) of
       Inl e \<Rightarrow> Inl e
     | Inr _ \<Rightarrow> (case connect (PublishingEndpoint (pub_job p)) of
         Inl e \<Rightarrow> Inl e
       | Inr conn \<Rightarrow> (case marshal_routes_loop marshal (pub_job p) [StartRange (pub_job p) .. EndRange (pub_job p) - 1] of
           Inl e \<Rightarrow> Inl e
         | Inr ds \<Rightarrow> Inr (p\<lparr>pub_data := pub_data p @ ds\<rparr>, conn))))"

definition Publish :: "string \<Rightarrow> string \<Rightarrow> pub_conn \<Rightarrow> unit result \<times> pub_conn" where
  "Publish subj d c = (case pub_faults c of
       [] \<Rightarrow> (Inr (), c\<lparr>pub_log := pub_log c @ [(subj, d)]\<rparr>)
     | None # fs \<Rightarrow> (Inr (), c\<lparr>pub_faults := fs, pub_log := pub_log c @ [(subj, d)]\<rparr>)
     | Some e # fs \<Rightarrow> (Inl (DriverError e), c\<lparr>pub_faults := fs\<rparr>))"

text \<open>Indexing past the end of the data panics.\<close>

fun publish_loop :: "string list \<Rightarrow> nat list \<Rightarrow> pub_conn \<Rightarrow> unit result \<times> pub_conn" where
  "publish_loop ds [] c = (Inr (), c)"
| "publish_loop ds (i # is) c =
     (if i \<ge> length ds then (Inl (Panic ''index out of range''), c)
      else case Publish ''router.register'' (ds ! i) c of
          (Inl e, c) \<Rightarrow> (Inl e, c)
        | (Inr _, c) \<Rightarrow> (case Publish ''service-discovery.register'' (ds ! i) c of
            (Inl e, c) \<Rightarrow> (Inl e, c)
          | (Inr _, c) \<Rightarrow> publish_loop ds is c))"

text \<open>The log line at the end prints the first message.\<close>

definition PublishRouteRegistrations :: "Publisher \<Rightarrow> pub_conn \<Rightarrow> unit result \<times> pub_conn" where
  "PublishRouteRegistrations p c =
     (case publish_loop (pub_data p) [0 ..< nat (EndRange (pub_job p) - StartRange (pub_job p))] c of
        (Inl e, c) \<Rightarrow> (Inl e, c)
      | (Inr _, c) \<Rightarrow> if pub_data p = [] then (Inl (Panic ''index out of range''), c) else (Inr (), c))"

definition Finish :: "pub_conn \<Rightarrow> pub_conn" where
  "Finish c = c\<lparr>pub_closed := True\<rparr>"

subsection \<open>Runner\<close>

text \<open>The loop of \<^verbatim>\<open>PartitionRange\<close>; with a step of zero or less it does not end (\<open>None\<close>). Division and
  remainder truncate towards zero.\<close>

partial_function (option) partition_loop :: "int \<Rightarrow> int \<Rightarrow> int \<Rightarrow> int list option" where
  "partition_loop i stop step = (if i \<le> stop then
     Option.bind (partition_loop (i + step) stop step) (\<lambda>is. Some (i # is)) else Some [])"

definition PartitionRange :: "int \<Rightarrow> int \<Rightarrow> int \<Rightarrow> int list result option" where
  "PartitionRange start stop partitionSize =
     (let rangeSize = stop - start in
      if partitionSize = rangeSize then Some (Inr [start, stop])
      else case partition_loop start stop partitionSize of
          None \<Rightarrow> None
        | Some res \<Rightarrow>
            if partitionSize = 0 then Some (Inl (Panic ''integer divide by zero''))
            else if rangeSize smod partitionSize > 0 then
              (if res = [] then Some (Inl (Panic ''index out of range''))
               else Some (Inr (res[length res - 1 := stop])))
            else Some (Inr res))"

record Runner =
  r_stopped :: bool
  r_job :: Job
  numGoRoutines :: int
  errsChan :: "go_error list"
  quitClosed :: bool

definition NewRunner :: "Job \<Rightarrow> int \<Rightarrow> Runner" where
  "NewRunner j n = \<lparr>r_stopped = False, r_job = j, numGoRoutines = n, errsChan = [], quitClosed = False\<rparr>"

definition runner_Stop :: "Runner \<Rightarrow> Runner" where
  "runner_Stop r = (if r_stopped r = False then r\<lparr>r_stopped := True, quitClosed := True\<rparr> else r)"

text \<open>What \<^verbatim>\<open>Start\<close> spawns: goroutine \<open>id\<close> has the job from \<open>ranges[id]\<close> to \<open>ranges[id + 1]\<close>, and panics
  when the partition has no such entry. The outer \<open>None\<close> stands for a partition that does not end.\<close>

definition goroutine_job :: "Job \<Rightarrow> int list \<Rightarrow> nat \<Rightarrow> Job result" where
  "goroutine_job job ranges i =
     (if Suc i \<ge> length ranges then Inl (Panic ''index out of range'')
      else Inr (job\<lparr>StartRange := ranges ! i, EndRange := ranges ! Suc i\<rparr>))"

definition Start :: "Runner \<Rightarrow> Job result list result option" where
  "Start r =
     (if r_stopped r then Some (Inl (ErrText ''Cannot restart a runner.''))
      else if numGoRoutines r = 0 then Some (Inl (Panic ''integer divide by zero''))
      else let numRoutes = EndRange (r_job r) - StartRange (r_job r); rangeSize = numRoutes sdiv numGoRoutines r in
        (case PartitionRange (StartRange (r_job r)) (EndRange (r_job r)) rangeSize of
           None \<Rightarrow> None
         | Some (Inl e) \<Rightarrow> Some (Inl e)
         | Some (Inr ranges) \<Rightarrow>
             Some (Inr (map (goroutine_job (r_job r) ranges) [0 ..< nat (numGoRoutines r)]))))"

datatype goroutine = Spawned Job | Publishing Publisher pub_conn | Returned

text \<open>A goroutine that fails sends its error, stops the runner and returns.\<close>

definition give_up :: "string \<Rightarrow> go_error \<Rightarrow> Runner \<Rightarrow> Runner \<times> goroutine" where
  "give_up doing e r = (runner_Stop (r\<lparr>errsChan := errsChan r @ [Errorf doing e]\<rparr>), Returned)"

definition publish_turn :: "Publisher \<Rightarrow> pub_conn \<Rightarrow> Runner \<Rightarrow> Runner \<times> goroutine" where
  "publish_turn p c r = (case PublishRouteRegistrations p c of
     (Inl e, c) \<Rightarrow> give_up ''publishing: '' e r | (Inr _, c) \<Rightarrow> (r, Publishing p c))"

definition begin_turn ::
  "(RouteData \<Rightarrow> string result) \<Rightarrow> (string \<Rightarrow> pub_conn result) \<Rightarrow> Job \<Rightarrow> Runner \<Rightarrow> Runner \<times> goroutine" where
  "begin_turn marshal connect job r = (case Initialize marshal connect (NewPublisher job) of
       Inl e \<Rightarrow> give_up ''initializing connection: '' e r
     | Inr (p, c) \<Rightarrow> publish_turn p c r)"

text \<open>The turns: a goroutine begins, its heartbeat interval elapses, it reads from the closed channel,
  or the signal handler stops the runner.\<close>

inductive runner_step ::
  "(RouteData \<Rightarrow> string result) \<Rightarrow> (string \<Rightarrow> pub_conn result) \<Rightarrow> Runner \<times> goroutine list \<Rightarrow> Runner \<times> goroutine list \<Rightarrow> bool"
  for marshal connect where
  Begin: "i < length gs \<Longrightarrow> gs ! i = Spawned job \<Longrightarrow> begin_turn marshal connect job r = (r', g) \<Longrightarrow>
    runner_step marshal connect (r, gs) (r', gs[i := g])"
| Beat: "i < length gs \<Longrightarrow> gs ! i = Publishing p c \<Longrightarrow> publish_turn p c r = (r', g) \<Longrightarrow>
    runner_step marshal connect (r, gs) (r', gs[i := g])"
| Quit: "i < length gs \<Longrightarrow> gs ! i = Publishing p c \<Longrightarrow> quitClosed r \<Longrightarrow>
    runner_step marshal connect (r, gs) (r, gs[i := Returned])"
| Signal: "runner_step marshal connect (r, gs) (runner_Stop r, gs)"

text \<open>\<^verbatim>\<open>Wait\<close> returns once every goroutine has; the outer \<open>None\<close> stands for waiting.\<close>

definition Wait :: "Runner \<Rightarrow> goroutine list \<Rightarrow> unit result option" where
  "Wait r gs = (if list_all (\<lambda>g. g = Returned) gs
     then Some (case errsChan r of e # _ \<Rightarrow> Inl e | [] \<Rightarrow> Inr ()) else None)"

subsection \<open>Main program\<close>

text \<open>The complaints about the flags; any of them ends the program with status 1.\<close>

record populator_flags =
  natsEndpoint :: string
  f_backendHost :: string
  f_backendPort :: int
  f_appDomain :: string
  f_appName :: string
  f_numRoutes :: int
  f_heartbeatInterval :: int
  f_publishDelayString :: string

definition checkRequiredFields :: "(string \<Rightarrow> string + int) \<Rightarrow> populator_flags \<Rightarrow> string list" where
  "checkRequiredFields ParseDuration f =
     (if natsEndpoint f = '''' then [''-nats must be provided''] else []) @
     (if f_backendHost f = '''' then [''-backendHost must be provided''] else []) @
     (if f_backendPort f \<le> 0 then [''-backendPort must be provided''] else []) @
     (if f_appDomain f = '''' then [''-appDomain must be provided''] else []) @
     (if f_appName f = '''' then [''-appName must be provided''] else []) @
     (if f_numRoutes f \<le> 0 then [''-numRoutes must be provided''] else []) @
     (if f_heartbeatInterval f \<le> 0 then [''-heartbeatInterval must be greater than 0''] else []) @
     (case ParseDuration (f_publishDelayString f) of
        Inl e \<Rightarrow> [''-publishDelay is an invalid string: '' @ e] | Inr _ \<Rightarrow> [])"

definition flags_job :: "populator_flags \<Rightarrow> Job" where
  "flags_job f = \<lparr>PublishingEndpoint = natsEndpoint f, BackendHost = f_backendHost f, BackendPort = f_backendPort f,
     AppDomain = f_appDomain f, AppName = f_appName f, StartRange = 0, EndRange = f_numRoutes f\<rparr>"

definition populator_runner :: "int \<Rightarrow> populator_flags \<Rightarrow> Runner" where
  "populator_runner numCPU f = NewRunner (flags_job f) (if f_numRoutes f < 1000 then 1 else numCPU)"
subsection \<open>The ranges of the goroutines\<close>

lemma partition_loop_arith:
  assumes "stop < i + int m * step" "\<And>k. k < m \<Longrightarrow> i + int k * step \<le> stop"
  shows "partition_loop i stop step = Some (map (\<lambda>k. i + int k * step) [0 ..< m])"
  using assms
proof (induction m arbitrary: i)
  case 0
  then show ?case by (simp add: partition_loop.simps)
next
  case (Suc m)
  have "partition_loop (i + step) stop step = Some (map (\<lambda>k. i + step + int k * step) [0 ..< m])"
  proof (rule Suc.IH)
    show "stop < i + step + int m * step" using Suc.prems(1) by (simp add: algebra_simps)
    show "i + step + int k * step \<le> stop" if "k < m" for k
      using Suc.prems(2) [of "Suc k"] that by (simp add: algebra_simps)
  qed
  moreover have "i \<le> stop" using Suc.prems(2) [of 0] by simp
  ultimately show ?case
    by (subst partition_loop.simps)
      (simp add: upt_conv_Cons map_Suc_upt [symmetric] o_def algebra_simps del: upt_Suc)
qed

text \<open>A step of zero never ends: no unfolding of the loop returns.\<close>

lemma partition_loop_zero:
  assumes "i \<le> stop"
  shows "partition_loop i stop 0 = None"
proof -
  have "step = 0 \<longrightarrow> stop < j" if "partition_loop j stop step = Some xs" for j step xs
    using that
    by (rule partition_loop.raw_induct [rotated]) (fastforce split: if_splits simp: bind_eq_Some_conv)
  with assms show ?thesis by (cases "partition_loop i stop 0") (auto simp: not_less [symmetric])
qed

lemma PartitionRange_shape:
  assumes "0 < q" "q < stop - start"
  shows "PartitionRange start stop q = Some (Inr ((map (\<lambda>k. start + int k * q) [0 ..< nat ((stop - start) div q)]) @
    [if (stop - start) mod q > 0 then stop else start + (stop - start) div q * q]))"
proof -
  let ?m = "nat ((stop - start) div q)"
  have m: "int ?m = (stop - start) div q" using assms by (simp add: pos_imp_zdiv_nonneg_iff)
  have dm: "(stop - start) div q * q + (stop - start) mod q = stop - start" by simp
  have "partition_loop start stop q = Some (map (\<lambda>k. start + int k * q) [0 ..< Suc ?m])"
  proof (rule partition_loop_arith)
    show "stop < start + int (Suc ?m) * q"
      unfolding of_nat_Suc m distrib_right using dm pos_mod_bound [OF assms(1), of "stop - start"] by linarith
    show "start + int k * q \<le> stop" if "k < Suc ?m" for k
    proof -
      have "int k * q \<le> int ?m * q" using that assms(1) by (intro mult_right_mono) auto
      with dm m pos_mod_sign [OF assms(1), of "stop - start"] show ?thesis by (smt (verit))
    qed
  qed
  moreover have "(stop - start) smod q = (stop - start) mod q"
    using assms by (simp add: smod_int_alt_def sgn_if)
  ultimately show ?thesis using assms m by (auto simp: PartitionRange_def Let_def list_update_append)
qed

lemma PartitionRange_whole: "PartitionRange start stop (stop - start) = Some (Inr [start, stop])"
  by (simp add: PartitionRange_def)

lemma upto_append: "i \<le> j \<Longrightarrow> j \<le> k \<Longrightarrow> [i .. j - 1] @ [j .. k - 1] = [i .. k - (1::int)]"
  by (cases "j = k") (simp_all add: upto_split1 [of i j "k - 1"])

text \<open>Consecutive stretches between the entries of an ascending list make up one range.\<close>

lemma ascending_from_0: "(\<And>i. i < n \<Longrightarrow> rs ! i \<le> rs ! Suc i) \<Longrightarrow> rs ! 0 \<le> (rs ! n :: 'a::preorder)"
  by (induction n) (auto intro: order_trans)

lemma concat_stretches:
  assumes "\<And>i. i < n \<Longrightarrow> rs ! i \<le> rs ! Suc i"
  shows "concat (map (\<lambda>i. [rs ! i .. rs ! Suc i - 1]) [0 ..< n]) = [rs ! 0 .. rs ! n - (1::int)]"
  using assms by (induction n) (simp_all add: upto_append ascending_from_0)

definition job_routes :: "Job \<Rightarrow> int list" where
  "job_routes j = [StartRange j .. EndRange j - 1]"

lemma goroutine_jobs_cover:
  assumes "g < length rs" "\<And>i. i < g \<Longrightarrow> rs ! i \<le> rs ! Suc i"
  shows "\<exists>jobs. map (goroutine_job job rs) [0 ..< g] = map Inr jobs \<and> length jobs = g \<and>
    (\<forall>j \<in> set jobs. \<exists>a b. j = job\<lparr>StartRange := a, EndRange := b\<rparr>) \<and>
    concat (map job_routes jobs) = [rs ! 0 .. rs ! g - 1]"
proof -
  let ?jobs = "map (\<lambda>i. job\<lparr>StartRange := rs ! i, EndRange := rs ! Suc i\<rparr>) [0 ..< g]"
  have "map (goroutine_job job rs) [0 ..< g] = map Inr ?jobs" using assms(1) by (simp add: goroutine_job_def)
  moreover have "concat (map job_routes ?jobs) = [rs ! 0 .. rs ! g - 1]"
    using concat_stretches [OF assms(2)] by (simp add: job_routes_def o_def)
  ultimately show ?thesis by (intro exI [of _ ?jobs]) auto
qed

text \<open>The entries of the partition into stretches of \<open>n div g\<close>, and which of them is entry \<open>g\<close>.\<close>

lemma partition_entries:
  assumes "0 < g" "g \<le> stop - start"
  obtains rs where "PartitionRange start stop ((stop - start) div g) = Some (Inr rs)" "nat g < length rs"
    "\<And>i. i < nat g \<Longrightarrow> rs ! i \<le> rs ! Suc i" "rs ! 0 = start"
    "rs ! nat g = (if (stop - start) mod g < (stop - start) div g then stop else start + g * ((stop - start) div g))"
proof (cases "g = 1")
  case True
  with assms show ?thesis by (intro that [of "[start, stop]"]) (auto simp: PartitionRange_whole)
next
  case False
  define n where "n = stop - start"
  define q where "q = n div g"
  define m where "m = nat (n div q)"
  let ?l = "if n mod q > 0 then stop else start + n div q * q"
  let ?rs = "map (\<lambda>k. start + int k * q) [0 ..< m] @ [?l]"
  have "0 < n" "0 < q" using assms by (auto simp: n_def q_def pos_imp_zdiv_pos_iff)
  have "q < n" using False assms \<open>0 < n\<close> by (auto simp: q_def intro: int_div_less_self)
  have gq: "g * q + n mod g = n" by (simp add: q_def)
  have mq: "int m * q + n mod q = n" "int m = n div q"
    using \<open>0 < n\<close> \<open>0 < q\<close> by (auto simp: m_def pos_imp_zdiv_nonneg_iff)
  have "g * q \<le> n" using gq assms pos_mod_sign [of g n] by linarith
  then have "g \<le> int m" using zdiv_mono1 [of "g * q" n q] \<open>0 < q\<close> by (simp add: mq)
  have l: "?l = stop"
    using mq(1) pos_mod_sign [OF \<open>0 < q\<close>, of n] n_def unfolding mq(2) [symmetric] by (simp split: if_split)
  have full: "int m = g \<longleftrightarrow> n mod g < q"
  proof
    assume "int m = g"
    with mq(1) gq pos_mod_bound [OF \<open>0 < q\<close>, of n] show "n mod g < q" by simp
  next
    assume *: "n mod g < q"
    have "n div q = (g * q + n mod g) div q" by (simp add: gq)
    also have "\<dots> = g" using * \<open>0 < q\<close> assms by (simp add: div_pos_pos_trivial)
    finally show "int m = g" by (simp add: mq)
  qed
  have entry: "?rs ! i = (if i < m then start + int i * q else ?l)" if "i \<le> m" for i
    using that by (auto simp: nth_append)
  have below: "start + int i * q \<le> ?l" if "i \<le> m" for i
  proof -
    have "int i * q \<le> int m * q" using that \<open>0 < q\<close> by (intro mult_right_mono) auto
    with mq(1) pos_mod_sign [OF \<open>0 < q\<close>, of n] n_def show ?thesis unfolding l by linarith
  qed
  show ?thesis
  proof (rule that [of ?rs])
    show "PartitionRange start stop ((stop - start) div g) = Some (Inr ?rs)"
      using PartitionRange_shape [of q stop start] \<open>0 < q\<close> \<open>q < n\<close> by (simp add: n_def q_def m_def)
    show "?rs ! i \<le> ?rs ! Suc i" if "i < nat g" for i
      using that \<open>g \<le> int m\<close> \<open>0 < q\<close> below [of i] by (subst (1 2) entry) (auto simp: algebra_simps)
    show "?rs ! nat g = (if (stop - start) mod g < (stop - start) div g then stop
        else start + g * ((stop - start) div g))"
      using full l \<open>g \<le> int m\<close> assms by (subst entry) (auto simp: q_def n_def)
  qed (use \<open>g \<le> int m\<close> assms in \<open>auto simp: nth_append\<close>)
qed
lemma Start_ranges:
  assumes "\<not> r_stopped r" "0 < numGoRoutines r" "StartRange (r_job r) < EndRange (r_job r)"
  shows "Start r = (case PartitionRange (StartRange (r_job r)) (EndRange (r_job r))
      ((EndRange (r_job r) - StartRange (r_job r)) div numGoRoutines r) of
      None \<Rightarrow> None | Some (Inl e) \<Rightarrow> Some (Inl e)
    | Some (Inr rs) \<Rightarrow> Some (Inr (map (goroutine_job (r_job r) rs) [0 ..< nat (numGoRoutines r)])))"
  using assms by (simp add: Start_def Let_def signed_divide_int_def sgn_if)

text \<open>C38. The goroutines of the route populator publish disjoint consecutive ranges of its routes. With
  \<open>n\<close> routes and \<open>g\<close> goroutines they cover all routes exactly when \<open>n mod g < n div g\<close>; otherwise
  the last \<open>n mod g\<close> routes are never registered (1000 routes on 64 processors lose 40). With more
  goroutines than routes the partition has step 0 and the loop does not end.\<close>

theorem routes_covered:
  assumes "\<not> r_stopped r" "0 < numGoRoutines r" "StartRange (r_job r) < EndRange (r_job r)"
  defines "n \<equiv> EndRange (r_job r) - StartRange (r_job r)" and "g \<equiv> numGoRoutines r"
  shows "if n < g then Start r = None
    else \<exists>jobs. Start r = Some (Inr (map Inr jobs)) \<and> length jobs = nat g \<and>
      (\<forall>j \<in> set jobs. \<exists>a b. j = (r_job r)\<lparr>StartRange := a, EndRange := b\<rparr>) \<and>
      concat (map job_routes jobs) =
        (if n mod g < n div g then job_routes (r_job r)
         else [StartRange (r_job r) .. EndRange (r_job r) - n mod g - 1])"
proof (cases "n < g")
  case True
  then have "n div g = 0" "n \<noteq> 0" using assms by (auto simp: n_def g_def)
  with True assms show ?thesis
    by (simp add: Start_ranges PartitionRange_def partition_loop_zero n_def g_def)
next
  case False
  then obtain rs where rs: "PartitionRange (StartRange (r_job r)) (EndRange (r_job r)) (n div g) = Some (Inr rs)"
    "nat g < length rs" "\<And>i. i < nat g \<Longrightarrow> rs ! i \<le> rs ! Suc i" "rs ! 0 = StartRange (r_job r)"
    "rs ! nat g = (if n mod g < n div g then EndRange (r_job r) else StartRange (r_job r) + g * (n div g))"
    using assms(2) partition_entries [of g "EndRange (r_job r)" "StartRange (r_job r)", folded n_def]
    by (metis g_def not_less)
  have "StartRange (r_job r) + g * (n div g) = EndRange (r_job r) - n mod g"
    using mult_div_mod_eq [of g n] unfolding n_def by linarith
  with goroutine_jobs_cover [OF rs(2,3), of "r_job r"] rs(4,5) show ?thesis
    using False rs(1) Start_ranges [OF assms(1,2,3)] by (simp add: job_routes_def n_def g_def split: if_splits)
qed

definition demo_job :: "int \<Rightarrow> Job" where
  "demo_job n = flags_job \<lparr>natsEndpoint = ''nats://x'', f_backendHost = ''10.0.0.1'', f_backendPort = 80, f_appDomain = ''d'',
     f_appName = ''a'', f_numRoutes = n, f_heartbeatInterval = 60, f_publishDelayString = ''50us''\<rparr>"

theorem routes_covered_witness:
  "\<exists>jobs. Start (NewRunner (demo_job 1000) 64) = Some (Inr (map Inr jobs)) \<and> concat (map job_routes jobs) = [0 .. 959]"
  using routes_covered [of "NewRunner (demo_job 1000) 64"]
  by (auto simp: NewRunner_def demo_job_def flags_job_def)

subsection \<open>The error channel\<close>

definition returned_count :: "goroutine list \<Rightarrow> nat" where
  "returned_count gs = length (filter (\<lambda>g. g = Returned) gs)"

definition runner_inv :: "Runner \<times> goroutine list \<Rightarrow> bool" where
  "runner_inv s = (case s of (r, gs) \<Rightarrow> length (errsChan r) \<le> returned_count gs \<and> quitClosed r = r_stopped r \<and>
     (0 < returned_count gs \<longrightarrow> r_stopped r))"

lemma returned_count_update:
  assumes "i < length gs" "gs ! i \<noteq> Returned"
  shows "returned_count (gs[i := g]) = returned_count gs + (if g = Returned then 1 else 0)"
proof -
  have gs: "gs = take i gs @ gs ! i # drop (Suc i) gs" using assms(1) by (simp add: id_take_nth_drop)
  show ?thesis unfolding returned_count_def
    by (subst (2) gs) (use assms in \<open>simp add: upd_conv_take_nth_drop\<close>)
qed

lemma publish_turn_cases:
  assumes "publish_turn p c r = (r', g)"
  obtains c' where "r' = r" "g = Publishing p c'" | e where "give_up ''publishing: '' e r = (r', g)"
  using assms by (auto simp: publish_turn_def split: prod.splits sum.splits)

lemma begin_turn_cases:
  assumes "begin_turn marshal connect job r = (r', g)"
  obtains p c where "r' = r" "g = Publishing p c" | doing e where "give_up doing e r = (r', g)"
  using assms unfolding begin_turn_def by (auto split: sum.splits elim!: publish_turn_cases)

lemma give_up_inv:
  assumes "runner_inv (r, gs)" "i < length gs" "gs ! i \<noteq> Returned" "give_up doing e r = (r', g)"
  shows "runner_inv (r', gs[i := g])"
  using assms by (auto simp: runner_inv_def give_up_def runner_Stop_def returned_count_update)

lemma keep_going_inv:
  assumes "runner_inv (r, gs)" "i < length gs" "gs ! i \<noteq> Returned"
  shows "runner_inv (r, gs[i := Publishing p c])"
  using assms by (simp add: runner_inv_def returned_count_update)

lemma runner_step_inv:
  assumes "runner_step marshal connect s s'" "runner_inv s"
  shows "runner_inv s' \<and> length (snd s') = length (snd s)"
  using assms
proof (induction rule: runner_step.induct)
  case (Begin i gs job r r' g)
  from Begin(3) show ?case
    using Begin by (cases rule: begin_turn_cases) (simp_all add: keep_going_inv give_up_inv)
next
  case (Beat i gs p c r r' g)
  from Beat(3) show ?case
    using Beat by (cases rule: publish_turn_cases) (simp_all add: keep_going_inv give_up_inv)
qed (auto simp: runner_inv_def returned_count_update runner_Stop_def)

text \<open>In every interleaving of the goroutines the errors on the channel fit its capacity, so that no
  goroutine blocks while it reports one; \<^verbatim>\<open>Wait\<close> returns no error only when there is none to return,
  and a runner of which some goroutine has returned has been stopped.\<close>

theorem errors_fit_channel:
  assumes "(runner_step marshal connect)\<^sup>*\<^sup>* (NewRunner job (int (length jobs)), map Spawned jobs) (r, gs)"
  shows "length (errsChan r) \<le> length jobs \<and> (Wait r gs = Some (Inr ()) \<longrightarrow> errsChan r = []) \<and>
    (Returned \<in> set gs \<longrightarrow> r_stopped r \<and> quitClosed r)"
proof -
  have "runner_inv (r, gs) \<and> length gs = length jobs"
    using assms
  proof (induction rule: rtranclp_induct2)
    case refl
    then show ?case by (simp add: runner_inv_def NewRunner_def returned_count_def)
  next
    case (step r gs r' gs')
    with runner_step_inv [OF step(2)] show ?case by simp
  qed
  moreover have "returned_count gs \<le> length gs" by (simp add: returned_count_def)
  moreover have "0 < returned_count gs" if "Returned \<in> set gs"
    using that by (auto simp: returned_count_def length_greater_0_conv filter_empty_conv)
  ultimately show ?thesis by (auto simp: runner_inv_def Wait_def split: list.splits if_splits)
qed

end
