(* ===== verification/CF_Pusher.thy ===== *)
theory CF_Pusher
  imports Go_Prelude "HOL-Library.Signed_Division" "HOL-Library.Multiset"
begin

text \<open>
  \<^verbatim>\<open>cf-pusher\<close>: pushes the applications of a scaling test with the \<^verbatim>\<open>cf\<close> command and checks that they run.
  Running a command, JSON, YAML and temporary files are parameters; \<open>'w\<close> is the state behind them.
  The pools of goroutines bounded by a semaphore channel are modelled by the turns the main
  goroutine and the workers take. Printing is left out.
\<close>

subsection \<open>Commands\<close>

text \<open>What becomes of a started command: it cannot be started, it exits, or it runs into the timeout of
  two minutes and is killed. The texts are what it wrote to standard output and standard error.\<close>

datatype cmd_outcome =
    StartFailed go_error
  | Exited string string "string option"
  | TimedOut string string "string option"

record 'w shell =
  command :: "string \<Rightarrow> string list \<Rightarrow> 'w \<Rightarrow> cmd_outcome \<times> 'w"
  CombinedOutput :: "string \<Rightarrow> string list \<Rightarrow> 'w \<Rightarrow> (string \<times> go_error option) \<times> 'w"

definition newline :: char where
  "newline = CHR 0x0A"

definition CmdErr_Error :: "string \<Rightarrow> string \<Rightarrow> string \<Rightarrow> string" where
  "CmdErr_Error Out Err Message =
     Message @ '':'' @ [newline, newline] @ ''Out:'' @ [newline] @ Out @ [newline, newline] @ ''Err:'' @ Err @ [newline]"

definition outcome_result :: "cmd_outcome \<Rightarrow> unit result" where
  "outcome_result r = (case r of
       StartFailed e \<Rightarrow> Inl e
     | TimedOut out err (Some e) \<Rightarrow> Inl (ErrText (CmdErr_Error out err (''command timed out and could not be killed: '' @ e)))
     | TimedOut out err None \<Rightarrow> Inl (ErrText (CmdErr_Error out err ''command timed out''))
     | Exited out err (Some e) \<Rightarrow> Inl (ErrText (CmdErr_Error out err e))
     | Exited out err None \<Rightarrow> Inr ())"

definition runCommandWithTimeout :: "'w shell \<Rightarrow> string \<Rightarrow> string list \<Rightarrow> 'w \<Rightarrow> unit result \<times> 'w" where
  "runCommandWithTimeout sh path args w = (case command sh path args w of (r, w) \<Rightarrow> (outcome_result r, w))"

subsection \<open>Command line adapter\<close>

record ASG_rule =
  asg_Destination :: string
  asg_Ports :: string
  asg_Protocol :: string

record AppStatus =
  st_GUID :: string
  st_Name :: string
  RunningInstances :: int
  Instances :: int
  st_State :: string

text \<open>JSON: the total of a list of applications, the rules of each listed security group, and the status of
  an application.\<close>

record cf_json =
  unmarshal_total :: "string \<Rightarrow> int result"
  unmarshal_asgs :: "string \<Rightarrow> ASG_rule list list result"
  marshal_rules :: "ASG_rule list \<Rightarrow> string result"
  unmarshal_status :: "string \<Rightarrow> AppStatus result"

record 'w Adapter =
  CfCliPath :: string
  sh :: "'w shell"
  js :: cf_json

type_synonym 'w action = "'w \<Rightarrow> unit result \<times> 'w"

definition cf :: "'w Adapter \<Rightarrow> string list \<Rightarrow> 'w action" where
  "cf a args = runCommandWithTimeout (sh a) (CfCliPath a) args"

definition plain_cf :: "'w Adapter \<Rightarrow> string list \<Rightarrow> 'w action" where
  "plain_cf a args = runCommandWithTimeout (sh a) ''cf'' args"

definition CreateOrg :: "'w Adapter \<Rightarrow> string \<Rightarrow> 'w action" where
  "CreateOrg a name = cf a [''create-org'', name]"

definition DeleteOrg :: "'w Adapter \<Rightarrow> string \<Rightarrow> 'w action" where
  "DeleteOrg a name = cf a [''delete-org'', ''-f'', name]"

definition CreateSpace :: "'w Adapter \<Rightarrow> string \<Rightarrow> string \<Rightarrow> 'w action" where
  "CreateSpace a spaceName orgName = cf a [''create-space'', spaceName, ''-o'', orgName]"

definition TargetOrg :: "'w Adapter \<Rightarrow> string \<Rightarrow> 'w action" where
  "TargetOrg a name = cf a [''target'', ''-o'', name]"

definition TargetSpace :: "'w Adapter \<Rightarrow> string \<Rightarrow> 'w action" where
  "TargetSpace a name = cf a [''target'', ''-s'', name]"

definition SetApiWithSsl :: "'w Adapter \<Rightarrow> string \<Rightarrow> 'w action" where
  "SetApiWithSsl a api = cf a [''api'', api]"

definition SetApiWithoutSsl :: "'w Adapter \<Rightarrow> string \<Rightarrow> 'w action" where
  "SetApiWithoutSsl a api = cf a [''api'', api, ''--skip-ssl-validation'']"

definition Auth :: "'w Adapter \<Rightarrow> string \<Rightarrow> string \<Rightarrow> 'w action" where
  "Auth a user password = cf a [''auth'', user, password]"

definition cf_Delete :: "'w Adapter \<Rightarrow> string \<Rightarrow> 'w action" where
  "cf_Delete a appName = cf a [''delete'', ''-f'', appName]"

definition Scale :: "'w Adapter \<Rightarrow> string \<Rightarrow> int \<Rightarrow> 'w action" where
  "Scale a name n = cf a [''scale'', name, ''-i'', itoa n]"

text \<open>The error of a command whose output is taken is returned beside the output.\<close>

definition cf_output :: "'w Adapter \<Rightarrow> string list \<Rightarrow> 'w \<Rightarrow> (string \<times> go_error option) \<times> 'w" where
  "cf_output a args = CombinedOutput (sh a) (CfCliPath a) args"

definition cf_Push :: "'w Adapter \<Rightarrow> string \<Rightarrow> string \<Rightarrow> string \<Rightarrow> 'w action" where
  "cf_Push a name directory manifestFile w =
     (case cf_output a [''push'', name, ''-p'', directory, ''-f'', manifestFile] w of
        ((_, Some e), w) \<Rightarrow> (Inl e, w) | ((_, None), w) \<Rightarrow> (Inr (), w))"

text \<open>Space in the ASCII range, which is all that \<^verbatim>\<open>cf\<close> prints around a guid.\<close>

definition is_space :: "char \<Rightarrow> bool" where
  "is_space c \<longleftrightarrow> c \<in> {CHR 0x09, CHR 0x0A, CHR 0x0B, CHR 0x0C, CHR 0x0D, CHR 0x20}"

definition TrimSpace :: "string \<Rightarrow> string" where
  "TrimSpace s = rev (dropWhile is_space (rev (dropWhile is_space s)))"

definition output_text :: "(string \<times> go_error option) \<times> 'w \<Rightarrow> string result \<times> 'w" where
  "output_text r = (case r of ((_, Some e), w) \<Rightarrow> (Inl e, w) | ((out, None), w) \<Rightarrow> (Inr out, w))"

definition AppGuid :: "'w Adapter \<Rightarrow> string \<Rightarrow> 'w \<Rightarrow> string result \<times> 'w" where
  "AppGuid a name w = (case output_text (cf_output a [''app'', name, ''--guid''] w) of
     (r, w) \<Rightarrow> (map_sum id TrimSpace r, w))"

definition OrgGuid :: "'w Adapter \<Rightarrow> string \<Rightarrow> 'w \<Rightarrow> string result \<times> 'w" where
  "OrgGuid a name w = (case output_text (cf_output a [''org'', name, ''--guid''] w) of
     (r, w) \<Rightarrow> (map_sum id TrimSpace r, w))"

definition Curl :: "'w Adapter \<Rightarrow> string \<Rightarrow> string \<Rightarrow> string \<Rightarrow> 'w \<Rightarrow> (string \<times> go_error option) \<times> 'w" where
  "Curl a meth path inputFile =
     (if inputFile \<noteq> '''' then cf_output a [''curl'', ''-X'', meth, ''-d'', ''@'' @ inputFile, path]
      else cf_output a [''curl'', ''-X'', meth, path])"

text \<open>A text that does not parse hides the error of the command.\<close>

definition AppCount :: "'w Adapter \<Rightarrow> string \<Rightarrow> 'w \<Rightarrow> int result \<times> 'w" where
  "AppCount a orgGuid w = (case cf_output a [''curl'', ''/v2/apps?q=organization_guid%20IN%20'' @ orgGuid] w of
     ((out, err), w) \<Rightarrow> (case unmarshal_total (js a) out of
        Inl e \<Rightarrow> (Inl e, w)
      | Inr n \<Rightarrow> (case err of Some e \<Rightarrow> (Inl e, w) | None \<Rightarrow> (Inr n, w))))"

definition CheckApp :: "'w Adapter \<Rightarrow> string \<Rightarrow> 'w \<Rightarrow> string result \<times> 'w" where
  "CheckApp a guid w = output_text (cf_output a [''curl'', ''/v2/apps/'' @ guid @ ''/summary''] w)"

definition AddNetworkPolicy :: "'w Adapter \<Rightarrow> string \<Rightarrow> string \<Rightarrow> int \<Rightarrow> string \<Rightarrow> 'w action" where
  "AddNetworkPolicy a sourceApp destApp port protocol = plain_cf a
     [''add-network-policy'', sourceApp, ''--destination-app'', destApp, ''--port'', itoa port @ ''-'' @ itoa port,
      ''--protocol'', ''tcp'']"

definition RemoveNetworkPolicy :: "'w Adapter \<Rightarrow> string \<Rightarrow> string \<Rightarrow> int \<Rightarrow> string \<Rightarrow> 'w action" where
  "RemoveNetworkPolicy a sourceApp destApp port protocol = plain_cf a
     [''remove-network-policy'', sourceApp, ''--destination-app'', destApp, ''--port'', itoa port @ ''-'' @ itoa port,
      ''--protocol'', ''tcp'']"

record Quota =
  q_Name :: string
  Memory :: string
  InstanceMemory :: int
  q_Routes :: int
  ServiceInstances :: int
  AppInstances :: int
  RoutePorts :: int

definition CreateQuota :: "'w Adapter \<Rightarrow> Quota \<Rightarrow> 'w action" where
  "CreateQuota a q = plain_cf a
     [''create-quota'', q_Name q, ''-m'', Memory q, ''-i'', itoa (InstanceMemory q), ''-r'', itoa (q_Routes q),
      ''-s'', itoa (ServiceInstances q), ''-a'', itoa (AppInstances q), ''--reserved-route-ports'', itoa (RoutePorts q)]"

definition SetQuota :: "'w Adapter \<Rightarrow> string \<Rightarrow> string \<Rightarrow> 'w action" where
  "SetQuota a org quota = plain_cf a [''set-quota'', org, quota]"

definition CreateSecurityGroup :: "'w Adapter \<Rightarrow> string \<Rightarrow> string \<Rightarrow> 'w action" where
  "CreateSecurityGroup a name path = plain_cf a [''create-security-group'', name, path]"

definition SecurityGroup :: "'w Adapter \<Rightarrow> string \<Rightarrow> 'w \<Rightarrow> string result \<times> 'w" where
  "SecurityGroup a name w = (case cf_output a [''curl'', ''/v2/security_groups?q=name%3A'' @ name] w of
     ((out, err), w) \<Rightarrow> (case unmarshal_asgs (js a) out of
        Inl e \<Rightarrow> (Inl e, w)
      | Inr [] \<Rightarrow> (Inl (ErrText (''no asgs with the name '' @ name)), w)
      | Inr (rules # _) \<Rightarrow> (marshal_rules (js a) rules, w)))"

definition BindSecurityGroup :: "'w Adapter \<Rightarrow> string \<Rightarrow> string \<Rightarrow> string \<Rightarrow> 'w action" where
  "BindSecurityGroup a name org space = plain_cf a [''bind-security-group'', name, org, space]"

definition UnbindSecurityGroup :: "'w Adapter \<Rightarrow> string \<Rightarrow> string \<Rightarrow> string \<Rightarrow> 'w action" where
  "UnbindSecurityGroup a name org space = plain_cf a [''unbind-security-group'', name, org, space]"

definition DeleteSecurityGroup :: "'w Adapter \<Rightarrow> string \<Rightarrow> 'w action" where
  "DeleteSecurityGroup a name = plain_cf a [''delete-security-group'', ''-f'', name]"

definition DeleteQuota :: "'w Adapter \<Rightarrow> string \<Rightarrow> 'w action" where
  "DeleteQuota a quota = plain_cf a [''delete-quota'', quota, ''-f'']"

subsection \<open>Pools of goroutines\<close>

text \<open>
  The idiom of \<^verbatim>\<open>AppPusher.Push\<close> and \<^verbatim>\<open>AppChecker.CheckApps\<close>: the main goroutine puts a token into the channel
  \<^verbatim>\<open>sem\<close> before it spawns a worker, the worker takes one out when it is done, and the main goroutine fills
  the channel before it closes the channel of errors and takes the first error from it. A worker is
  \<open>Active\<close> until it has run its last step and sent its error, then \<open>Leaving\<close> until it has taken its
  token; \<open>body\<close> runs one step of a worker, to its next state or to its end.
\<close>

datatype 'g worker = Active 'g | Leaving

record ('g, 'w) pool =
  todo :: "'g list"
  workers :: "'g worker list"
  filled :: nat
  errs :: "go_error list"
  closed :: bool
  world :: 'w

datatype turn = Main_turn | Worker_turn nat

type_synonym ('g, 'w) stage = "'g \<Rightarrow> 'w \<Rightarrow> ('g + go_error option) \<times> 'w"

text \<open>A turn of a goroutine that is blocked, or of one that does not exist, changes nothing.\<close>

definition main_turn :: "nat \<Rightarrow> ('g, 'w) pool \<Rightarrow> ('g, 'w) pool" where
  "main_turn cap s = (case todo s of
       g # gs \<Rightarrow> if length (workers s) + filled s < cap then s\<lparr>todo := gs, workers := workers s @ [Active g]\<rparr> else s
     | [] \<Rightarrow>
         if filled s < cap then (if length (workers s) + filled s < cap then s\<lparr>filled := Suc (filled s)\<rparr> else s)
         else s\<lparr>closed := True\<rparr>)"

definition remove_at :: "nat \<Rightarrow> 'a list \<Rightarrow> 'a list" where
  "remove_at i xs = take i xs @ drop (Suc i) xs"

definition worker_turn :: "('g, 'w) stage \<Rightarrow> nat \<Rightarrow> ('g, 'w) pool \<Rightarrow> ('g, 'w) pool" where
  "worker_turn body i s =
     (if i < length (workers s) then
        (case workers s ! i of
           Active g \<Rightarrow> (case body g (world s) of
               (Inl g', w) \<Rightarrow> s\<lparr>workers := (workers s)[i := Active g'], world := w\<rparr>
             | (Inr err, w) \<Rightarrow> s\<lparr>workers := (workers s)[i := Leaving], world := w,
                   errs := errs s @ (case err of None \<Rightarrow> [] | Some e \<Rightarrow> [e])\<rparr>)
         | Leaving \<Rightarrow> s\<lparr>workers := remove_at i (workers s)\<rparr>)
      else s)"

fun pool_turn :: "nat \<Rightarrow> ('g, 'w) stage \<Rightarrow> turn \<Rightarrow> ('g, 'w) pool \<Rightarrow> ('g, 'w) pool" where
  "pool_turn cap body Main_turn s = main_turn cap s"
| "pool_turn cap body (Worker_turn i) s = worker_turn body i s"

definition pool_run :: "nat \<Rightarrow> ('g, 'w) stage \<Rightarrow> turn list \<Rightarrow> ('g, 'w) pool \<Rightarrow> ('g, 'w) pool" where
  "pool_run cap body ts s = fold (pool_turn cap body) ts s"

definition pool_init :: "'g list \<Rightarrow> 'w \<Rightarrow> ('g, 'w) pool" where
  "pool_init gs w = \<lparr>todo = gs, workers = [], filled = 0, errs = [], closed = False, world = w\<rparr>"

text \<open>The result after the turns \<open>ts\<close>: nothing while the main goroutine has not closed the channel.\<close>

definition pool_result :: "int \<Rightarrow> ('g, 'w) stage \<Rightarrow> 'g list \<Rightarrow> turn list \<Rightarrow> 'w \<Rightarrow> unit result option \<times> 'w" where
  "pool_result Concurrency body gs ts w =
     (if Concurrency < 0 then (Some (Inl (Panic ''makechan: size out of range'')), w)
      else let s = pool_run (nat Concurrency) body ts (pool_init gs w) in
        (if closed s then Some (case errs s of e # _ \<Rightarrow> Inl e | [] \<Rightarrow> Inr ()) else None, world s))"

subsection \<open>Commands of the program\<close>

record ApiConnector =
  Api :: string
  AdminUser :: string
  AdminPassword :: string
  SkipSSLValidation :: bool

text \<open>A call whose error is wrapped, followed by the rest.\<close>

definition and_then :: "string \<Rightarrow> 'w action \<Rightarrow> 'w action \<Rightarrow> 'w action" where
  "and_then doing act rest w = (case act w of (Inl e, w) \<Rightarrow> (Inl (Errorf doing e), w) | (Inr _, w) \<Rightarrow> rest w)"

definition finish :: "'w action" where
  "finish w = (Inr (), w)"

definition Connect :: "'w Adapter \<Rightarrow> ApiConnector \<Rightarrow> 'w action" where
  "Connect a c =
     (let auth = and_then ''authenticating: '' (Auth a (AdminUser c) (AdminPassword c)) finish in
      if SkipSSLValidation c then and_then ''setting api without ssl: '' (SetApiWithoutSsl a (Api c)) auth
      else and_then ''setting api with ssl: '' (SetApiWithSsl a (Api c)) auth)"

definition compareASGs :: "(string \<Rightarrow> 'j option) \<Rightarrow> string \<Rightarrow> string \<Rightarrow> bool result" where
  "compareASGs unmarshal actualJSON expectedJSON = (case unmarshal actualJSON of
       None \<Rightarrow> Inl (ErrText (''actual ASG is not valid JSON: '' @ actualJSON))
     | Some actual \<Rightarrow> (case unmarshal expectedJSON of
         None \<Rightarrow> Inl (ErrText (''expected ASG is not valid JSON: '' @ expectedJSON))
       | Some expected \<Rightarrow> Inr (actual = expected)))"

definition CheckASG :: "'w Adapter \<Rightarrow> (string \<Rightarrow> 'j option) \<Rightarrow> string \<Rightarrow> string \<Rightarrow> 'w action" where
  "CheckASG a unmarshal name expectedBody w = (case SecurityGroup a name w of
       (Inl e, w) \<Rightarrow> (Inl (Errorf ''getting security group: '' e), w)
     | (Inr actualBody, w) \<Rightarrow> (case compareASGs unmarshal actualBody expectedBody of
         Inl e \<Rightarrow> (Inl e, w)
       | Inr match \<Rightarrow> (if \<not> match then Inl (ErrText ''security group mismatch'') else Inr (), w)))"

definition InstallASG :: "'w Adapter \<Rightarrow> string \<Rightarrow> string \<Rightarrow> string \<Rightarrow> string \<Rightarrow> 'w action" where
  "InstallASG a asgName asgFilePath orgName spaceName =
     and_then ''deleting security group: '' (DeleteSecurityGroup a asgName)
     (and_then ''creating security group: '' (CreateSecurityGroup a asgName asgFilePath)
     (and_then ''binding security group: '' (BindSecurityGroup a asgName orgName spaceName) finish))"

definition CheckOrgExists :: "'w Adapter \<Rightarrow> string \<Rightarrow> 'w \<Rightarrow> bool \<times> 'w" where
  "CheckOrgExists a org w = (case TargetOrg a org w of (Inl _, w) \<Rightarrow> (False, w) | (Inr _, w) \<Rightarrow> (True, w))"

definition OrgDeleter_Delete :: "'w Adapter \<Rightarrow> string \<Rightarrow> Quota \<Rightarrow> 'w action" where
  "OrgDeleter_Delete a org quota = and_then ''deleting org: '' (DeleteOrg a org)
     (and_then ''deleting quota: '' (DeleteQuota a (q_Name quota)) finish)"

definition OrgSpaceCreator_Create :: "'w Adapter \<Rightarrow> string \<Rightarrow> string \<Rightarrow> Quota \<Rightarrow> 'w action" where
  "OrgSpaceCreator_Create a org space quota =
     and_then ''creating org: '' (CreateOrg a org)
     (and_then ''targeting org: '' (TargetOrg a org)
     (and_then ''creating space: '' (CreateSpace a space org)
     (and_then ''targeting space: '' (TargetSpace a space)
     (and_then ''creating quota: '' (CreateQuota a quota)
     (and_then ''setting quota: '' (SetQuota a org (q_Name quota)) finish)))))"

text \<open>Applications are named. The workers of the pusher ask for the guid, then for the summary, then push.\<close>

record AppPusher =
  Applications :: "string list"
  pusher_Concurrency :: int
  ManifestPath :: string
  Directory :: string
  SkipIfPresent :: bool
  DesiredRunningInstances :: int

datatype push_stage = Should_push string | Push_summary string string | Push_now string

text \<open>\<open>shouldPushApp\<close> with its two calls apart; an error on the way means that the application is pushed.\<close>

fun push_body :: "'w Adapter \<Rightarrow> AppPusher \<Rightarrow> (push_stage, 'w) stage" where
  "push_body a p (Should_push name) w =
     (if SkipIfPresent p then (case AppGuid a name w of
          (Inl _, w) \<Rightarrow> (Inl (Push_now name), w) | (Inr guid, w) \<Rightarrow> (Inl (Push_summary name guid), w))
      else (Inl (Push_now name), w))"
| "push_body a p (Push_summary name guid) w = (case CheckApp a guid w of
       (Inl _, w) \<Rightarrow> (Inl (Push_now name), w)
     | (Inr appBytes, w) \<Rightarrow> (case unmarshal_status (js a) appBytes of
         Inl _ \<Rightarrow> (Inl (Push_now name), w)
       | Inr s \<Rightarrow> if RunningInstances s < DesiredRunningInstances p then (Inl (Push_now name), w)
           else (Inr None, w)))"
| "push_body a p (Push_now name) w = (case cf_Push a name (Directory p) (ManifestPath p) w of
       (Inl e, w) \<Rightarrow> (Inr (Some e), w) | (Inr _, w) \<Rightarrow> (Inr None, w))"

definition Push :: "'w Adapter \<Rightarrow> AppPusher \<Rightarrow> turn list \<Rightarrow> 'w \<Rightarrow> unit result option \<times> 'w" where
  "Push a p ts w = pool_result (pusher_Concurrency p) (push_body a p) (map Should_push (Applications p)) ts w"

record AppChecker =
  checker_Org :: string
  checker_Applications :: "string list"
  checker_Concurrency :: int

datatype check_stage = Check_guid string | Check_status string string

definition checking_app :: "string \<Rightarrow> string" where
  "checking_app name = ''checking app '' @ name @ '': ''"

definition check_status :: "(string \<rightharpoonup> int) \<Rightarrow> string \<Rightarrow> AppStatus \<Rightarrow> go_error option" where
  "check_status appSpec name s =
     (if Instances s = 0 then Some (ErrText (checking_app name @ ''no instances are running''))
      else if RunningInstances s \<noteq> Instances s then Some (ErrText (checking_app name @ ''not all instances are running''))
      else case appSpec name of
          Some desired \<Rightarrow>
            if desired \<noteq> RunningInstances s then Some (ErrText (checking_app name @ ''not running desired instances, running: '' @
                itoa (RunningInstances s) @ '' desired: '' @ itoa desired))
            else None
        | None \<Rightarrow> Some (ErrText (checking_app name @ ''not found in app spec'')))"

fun check_body :: "'w Adapter \<Rightarrow> (string \<rightharpoonup> int) \<Rightarrow> (check_stage, 'w) stage" where
  "check_body a appSpec (Check_guid name) w = (case AppGuid a name w of
       (Inl e, w) \<Rightarrow> (Inr (Some (Errorf (''checking app guid '' @ name @ '': '') e)), w)
     | (Inr guid, w) \<Rightarrow> (Inl (Check_status name guid), w))"
| "check_body a appSpec (Check_status name guid) w = (case CheckApp a guid w of
       (Inl e, w) \<Rightarrow> (Inr (Some (Errorf (checking_app name) e)), w)
     | (Inr res, w) \<Rightarrow> (case unmarshal_status (js a) res of
         Inl e \<Rightarrow> (Inr (Some e), w)
       | Inr s \<Rightarrow> (Inr (check_status appSpec name s), w)))"

definition CheckApps :: "'w Adapter \<Rightarrow> AppChecker \<Rightarrow> (string \<rightharpoonup> int) \<Rightarrow> turn list \<Rightarrow> 'w \<Rightarrow> unit result option \<times> 'w" where
  "CheckApps a c appSpec ts w = (case OrgGuid a (checker_Org c) w of
       (Inl e, w) \<Rightarrow> (Some (Inl (Errorf (''checking org guid '' @ checker_Org c @ '': '') e)), w)
     | (Inr orgGuid, w) \<Rightarrow> (case AppCount a orgGuid w of
         (Inl e, w) \<Rightarrow> (Some (Inl (Errorf ''checking app counts: '' e)), w)
       | (Inr appCount, w) \<Rightarrow>
           if appCount \<noteq> int (length (checker_Applications c)) then
             (Some (Inl (ErrText (''app count '' @ itoa appCount @ '' does not match '' @
                itoa (int (length (checker_Applications c)))))), w)
           else pool_result (checker_Concurrency c) (check_body a appSpec) (map Check_guid (checker_Applications c)) ts w))"

subsection \<open>Main program\<close>

definition asg_rule_text :: "int \<Rightarrow> string" where
  "asg_rule_text i = (let q = [CHR 0x22] in
     ''{'' @ q @ ''protocol'' @ q @ '': '' @ q @ ''tcp'' @ q @ '', '' @ q @ ''destination'' @ q @ '': '' @ q @
     ''169.254.'' @ itoa (i sdiv 254) @ ''.'' @ itoa (i smod 254) @ q @ '', '' @ q @ ''ports'' @ q @ '': '' @ q @ ''80'' @ q @ '' }'')"

definition BuildASG :: "int \<Rightarrow> string" where
  "BuildASG n = ''['' @ concat (map (\<lambda>i. asg_rule_text i @ '','') [1 .. n - 1]) @ asg_rule_text n @ '']''"

record 'w temp_files =
  TempFile :: "'w \<Rightarrow> string result \<times> 'w"
  WriteFile :: "string \<Rightarrow> string \<Rightarrow> 'w \<Rightarrow> unit result \<times> 'w"
  CloseFile :: "string \<Rightarrow> 'w \<Rightarrow> unit result \<times> 'w"

definition CreateASGFile :: "'w temp_files \<Rightarrow> string \<Rightarrow> 'w \<Rightarrow> string result \<times> 'w" where
  "CreateASGFile fs asg w = (case TempFile fs w of
       (Inl e, w) \<Rightarrow> (Inl e, w)
     | (Inr path, w) \<Rightarrow> (case WriteFile fs path asg w of (Inl e, w) \<Rightarrow> (Inl e, w) | (Inr _, w) \<Rightarrow> (Inr path, w)))"

datatype manifest_env = TickEnvironment string string int int int | ProxyEnvironment string

record manifest_app =
  m_Name :: string
  m_Memory :: string
  DiskQuota :: string
  BuildPack :: string
  m_Instances :: int
  Env :: manifest_env

definition Generate ::
  "'w temp_files \<Rightarrow> (manifest_app list \<Rightarrow> string result) \<Rightarrow> manifest_app list \<Rightarrow> 'w \<Rightarrow> string result \<times> 'w" where
  "Generate fs yaml_Marshal m w = (case TempFile fs w of
       (Inl e, w) \<Rightarrow> (Inl e, w)
     | (Inr path, w) \<Rightarrow> (case yaml_Marshal m of
         Inl e \<Rightarrow> (Inl e, w)
       | Inr text \<Rightarrow> (case WriteFile fs path text w of
           (Inl e, w) \<Rightarrow> (Inl e, w)
         | (Inr _, w) \<Rightarrow> (case CloseFile fs path w of (Inl e, w) \<Rightarrow> (Inl e, w) | (Inr _, w) \<Rightarrow> (Inr path, w)))))"

text \<open>The fields of the configuration that the program reads.\<close>

record pusher_config =
  ASGSize :: int
  pc_AdminPassword :: string
  pc_AdminUser :: string
  pc_Api :: string
  pc_AppInstances :: int
  AppRegistryTTLSeconds :: int
  pc_Applications :: int
  AppsDomain :: string
  Concurrency :: int
  ExtraListenPorts :: int
  Prefix :: string
  ProxyApplications :: int
  ProxyInstances :: int
  pc_SkipSSLValidation :: bool

record ScaleGroup =
  sg_Org :: string
  Space :: string
  TickApps :: "string list"
  TickInstances :: int
  Registry :: string
  ProxyApps :: "string list"
  sg_ProxyInstances :: int

definition pusher_prefix :: "pusher_config \<Rightarrow> string" where
  "pusher_prefix c = (if Prefix c = '''' then ''scale-'' else Prefix c)"

definition app_names :: "string \<Rightarrow> string \<Rightarrow> int \<Rightarrow> string list" where
  "app_names prefix kind n = map (\<lambda>i. prefix @ kind @ ''-'' @ itoa i) [0 .. n - 1]"

definition scaleGroup :: "pusher_config \<Rightarrow> ScaleGroup" where
  "scaleGroup c = (let prefix = pusher_prefix c in
     \<lparr>sg_Org = prefix @ ''org'', Space = prefix @ ''space'', TickApps = app_names prefix ''tick'' (pc_Applications c),
      TickInstances = pc_AppInstances c, Registry = prefix @ ''registry'',
      ProxyApps = app_names prefix ''proxy'' (ProxyApplications c), sg_ProxyInstances = ProxyInstances c\<rparr>)"

definition pusher_quota :: "pusher_config \<Rightarrow> Quota" where
  "pusher_quota c = \<lparr>q_Name = pusher_prefix c @ ''quota'', Memory = ''1000G'', InstanceMemory = - 1, q_Routes = 20000,
     ServiceInstances = 100, AppInstances = - 1, RoutePorts = - 1\<rparr>"

definition tickAppManifest :: "pusher_config \<Rightarrow> manifest_app list" where
  "tickAppManifest c = [\<lparr>m_Name = ''tick'', m_Memory = ''32M'', DiskQuota = ''32M'', BuildPack = ''go_buildpack'',
     m_Instances = TickInstances (scaleGroup c),
     Env = TickEnvironment ''example-apps/tick'' (''http://'' @ Registry (scaleGroup c) @ ''.'' @ AppsDomain c)
       (AppRegistryTTLSeconds c) 7000 (ExtraListenPorts c)\<rparr>]"

definition proxyAppManifest :: "pusher_config \<Rightarrow> manifest_app list" where
  "proxyAppManifest c = [\<lparr>m_Name = ''proxy'', m_Memory = ''32M'', DiskQuota = ''32M'', BuildPack = ''go_buildpack'',
     m_Instances = sg_ProxyInstances (scaleGroup c), Env = ProxyEnvironment ''example-apps/proxy''\<rparr>]"

definition pusher_checker :: "pusher_config \<Rightarrow> AppChecker" where
  "pusher_checker c = \<lparr>checker_Org = sg_Org (scaleGroup c),
     checker_Applications = ProxyApps (scaleGroup c) @ [Registry (scaleGroup c)] @ TickApps (scaleGroup c),
     checker_Concurrency = Concurrency c\<rparr>"

definition app_pusher :: "pusher_config \<Rightarrow> string list \<Rightarrow> string \<Rightarrow> string \<Rightarrow> int \<Rightarrow> AppPusher" where
  "app_pusher c names manifest dir n = \<lparr>Applications = names, pusher_Concurrency = Concurrency c, ManifestPath = manifest,
     Directory = dir, SkipIfPresent = True, DesiredRunningInstances = n\<rparr>"

definition expect :: "int \<Rightarrow> string list \<Rightarrow> (string \<rightharpoonup> int) \<Rightarrow> (string \<rightharpoonup> int)" where
  "expect k names m = fold (\<lambda>n m. m(n \<mapsto> k)) names m"

definition expectedApps :: "pusher_config \<Rightarrow> string \<rightharpoonup> int" where
  "expectedApps c = expect (ProxyInstances c) (app_names (pusher_prefix c) ''proxy'' (ProxyApplications c))
     (expect (pc_AppInstances c) (app_names (pusher_prefix c) ''tick'' (pc_Applications c))
       [pusher_prefix c @ ''registry'' \<mapsto> 1])"

text \<open>The final checks: up to five retries. \<open>ts i\<close> are the turns of the goroutines of check \<open>i\<close>; the result is
  nothing while a pool has not come to its end.\<close>

function check_retries ::
  "'w Adapter \<Rightarrow> AppChecker \<Rightarrow> (string \<rightharpoonup> int) \<Rightarrow> (nat \<Rightarrow> turn list) \<Rightarrow> nat \<Rightarrow> 'w \<Rightarrow> unit result option \<times> 'w" where
  "check_retries a c spec ts i w = (case CheckApps a c spec (ts i) w of
       (None, w) \<Rightarrow> (None, w)
     | (Some (Inr _), w) \<Rightarrow> (Some (Inr ()), w)
     | (Some (Inl _), w) \<Rightarrow> if i \<ge> 5 then (Some (Inl (ErrText ''max retries exceeded'')), w)
         else check_retries a c spec ts (Suc i) w)"
  by pat_completeness auto
termination
  by (relation "measure (\<lambda>(a, c, spec, ts, i, w). 5 - i)") auto

text \<open>The three pools of pushes; their errors are only logged.\<close>

fun push_all :: "'w Adapter \<Rightarrow> (AppPusher \<times> turn list) list \<Rightarrow> 'w \<Rightarrow> unit option \<times> 'w" where
  "push_all a [] w = (Some (), w)"
| "push_all a ((p, ts) # ps) w = (case Push a p ts w of (None, w) \<Rightarrow> (None, w) | (Some _, w) \<Rightarrow> push_all a ps w)"

definition fatal :: "string \<Rightarrow> go_error \<Rightarrow> go_error" where
  "fatal doing e = Errorf doing e"

definition prepare_org ::
  "'w Adapter \<Rightarrow> (string \<Rightarrow> 'j option) \<Rightarrow> pusher_config \<Rightarrow> string \<Rightarrow> 'w action" where
  "prepare_org a unmarshal c asgFile w = (let g = scaleGroup c; asgName = pusher_prefix c @ ''asg'' in
     case CheckOrgExists a (sg_Org g) w of (found, w) \<Rightarrow>
     (case (if found then (Inr (), w) else OrgSpaceCreator_Create a (sg_Org g) (Space g) (pusher_quota c) w) of
        (Inl e, w) \<Rightarrow> (Inl (fatal ''creating org and space: '' e), w)
      | (Inr _, w) \<Rightarrow> (case CheckASG a unmarshal asgName (BuildASG (ASGSize c)) w of
          (Inr _, w) \<Rightarrow> (Inr (), w)
        | (Inl _, w) \<Rightarrow> (case InstallASG a asgName asgFile (sg_Org g) (Space g) w of
            (Inl e, w) \<Rightarrow> (Inl (fatal ''install asg: '' e), w)
          | (Inr _, w) \<Rightarrow> (Inr (), w)))))"

record 'w pusher_env =
  pe_adapter :: "'w Adapter"
  pe_files :: "'w temp_files"
  pe_yaml :: "manifest_app list \<Rightarrow> string result"
  pe_push_turns :: "turn list \<times> turn list \<times> turn list"
  pe_check_turns :: "nat \<Rightarrow> turn list"

text \<open>From the configuration on: \<open>Inl\<close> the message of \<^verbatim>\<open>log.Fatal\<close>, \<open>Inr\<close> the group that is printed.\<close>

definition push_and_check :: "'w pusher_env \<Rightarrow> pusher_config \<Rightarrow> string \<Rightarrow> string \<Rightarrow> string \<Rightarrow> 'w \<Rightarrow> ScaleGroup result option \<times> 'w" where
  "push_and_check E c appsDir tickManifest proxyManifest w =
     (let a = pe_adapter E; g = scaleGroup c; dir = filepath_Join appsDir; (ts1, ts2, ts3) = pe_push_turns E in
      case push_all a
        [(app_pusher c [Registry g] (filepath_Join (dir ''registry'') ''manifest.yml'') (dir ''registry'') 1, ts1),
         (app_pusher c (TickApps g) tickManifest (dir ''tick'') (TickInstances g), ts2),
         (app_pusher c (ProxyApps g) proxyManifest (dir ''proxy'') (sg_ProxyInstances g), ts3)] w of
        (None, w) \<Rightarrow> (None, w)
      | (Some _, w) \<Rightarrow> (case check_retries a (pusher_checker c) (expectedApps c) (pe_check_turns E) 0 w of
          (None, w) \<Rightarrow> (None, w)
        | (Some (Inl e), w) \<Rightarrow> (Some (Inl e), w)
        | (Some (Inr _), w) \<Rightarrow> (Some (Inr g), w)))"

definition pusher_main ::
  "'w pusher_env \<Rightarrow> (string \<Rightarrow> 'j option) \<Rightarrow> pusher_config \<Rightarrow> string \<Rightarrow> 'w \<Rightarrow> ScaleGroup result option \<times> 'w" where
  "pusher_main E unmarshal c appsDir w = (let a = pe_adapter E; g = scaleGroup c in
     if appsDir = '''' then (Some (Inl (ErrText ''APPS_DIR not set'')), w)
     else case Generate (pe_files E) (pe_yaml E) (tickAppManifest c) w of
       (Inl e, w) \<Rightarrow> (Some (Inl (fatal ''generate manifest: '' e)), w)
     | (Inr tickManifest, w) \<Rightarrow> (case Generate (pe_files E) (pe_yaml E) (proxyAppManifest c) w of
         (Inl e, w) \<Rightarrow> (Some (Inl (fatal ''generate manifest: '' e)), w)
       | (Inr proxyManifest, w) \<Rightarrow>
           (case Connect a \<lparr>Api = pc_Api c, AdminUser = pc_AdminUser c, AdminPassword = pc_AdminPassword c,
               SkipSSLValidation = pc_SkipSSLValidation c\<rparr> w of
              (Inl e, w) \<Rightarrow> (Some (Inl (fatal ''connecting to api: '' e)), w)
            | (Inr _, w) \<Rightarrow>
                (case TargetOrg a (sg_Org g) w of (_, w) \<Rightarrow> case TargetSpace a (Space g) w of (_, w) \<Rightarrow>
                 (case CreateASGFile (pe_files E) (BuildASG (ASGSize c)) w of
                    (Inl e, w) \<Rightarrow> (Some (Inl (fatal ''creating asg file: '' e)), w)
                  | (Inr asgFile, w) \<Rightarrow> (case prepare_org a unmarshal c asgFile w of
                      (Inl e, w) \<Rightarrow> (Some (Inl e), w)
                    | (Inr _, w) \<Rightarrow> push_and_check E c appsDir tickManifest proxyManifest w))))))"

subsection \<open>Pools close, and only when every worker is done\<close>

definition pool_ok :: "nat \<Rightarrow> ('g, 'w) pool \<Rightarrow> bool" where
  "pool_ok cap s \<longleftrightarrow> length (workers s) + filled s \<le> cap \<and> (0 < filled s \<longrightarrow> todo s = []) \<and>
     (closed s \<longrightarrow> todo s = [] \<and> filled s = cap)"

lemma pool_ok_init: "pool_ok cap (pool_init gs w)"
  by (simp add: pool_ok_def pool_init_def)

lemma length_remove_at [simp]: "i < length xs \<Longrightarrow> length (remove_at i xs) = length xs - 1"
  by (simp add: remove_at_def)

lemma pool_ok_turn:
  assumes "pool_ok cap s"
  shows "pool_ok cap (pool_turn cap body t s)"
proof (cases t)
  case Main_turn
  with assms show ?thesis by (auto simp: pool_ok_def main_turn_def split: list.split)
next
  case (Worker_turn i)
  with assms show ?thesis
    by (auto simp: pool_ok_def worker_turn_def split: worker.split prod.split sum.split)
qed

lemma pool_run_Nil [simp]: "pool_run cap body [] s = s"
  and pool_run_Cons [simp]: "pool_run cap body (t # ts) s = pool_run cap body ts (pool_turn cap body t s)"
  and pool_run_append [simp]: "pool_run cap body (ts @ us) s = pool_run cap body us (pool_run cap body ts s)"
  by (simp_all add: pool_run_def)

lemma pool_ok_run: "pool_ok cap s \<Longrightarrow> pool_ok cap (pool_run cap body ts s)"
  by (induction ts arbitrary: s) (simp_all add: pool_ok_turn)

lemma closed_workers: "pool_ok cap s \<Longrightarrow> closed s \<Longrightarrow> workers s = [] \<and> todo s = []"
  by (auto simp: pool_ok_def)

fun worker_weight :: "('g \<Rightarrow> nat) \<Rightarrow> 'g worker \<Rightarrow> nat" where
  "worker_weight rank (Active g) = rank g + 2"
| "worker_weight rank Leaving = 1"

definition pool_weight :: "nat \<Rightarrow> ('g \<Rightarrow> nat) \<Rightarrow> ('g, 'w) pool \<Rightarrow> nat" where
  "pool_weight cap rank s = sum_list (map (\<lambda>g. rank g + 3) (todo s)) + sum_list (map (worker_weight rank) (workers s)) +
     (cap - filled s) + (if closed s then 0 else 1)"

lemma sum_list_remove_at:
  "i < length xs \<Longrightarrow> sum_list (map f xs) = f (xs ! i) + sum_list (map f (remove_at i xs) :: 'a::comm_monoid_add list)"
  by (subst id_take_nth_drop [of i xs]) (simp_all add: remove_at_def ac_simps)

lemma sum_list_update:
  "i < length xs \<Longrightarrow> sum_list (map f (xs[i := y])) + f (xs ! i) = sum_list (map f xs :: 'a::comm_monoid_add list) + f y"
  by (subst (3) id_take_nth_drop [of i xs]) (simp_all add: upd_conv_take_nth_drop ac_simps)

text \<open>The errors a pool has and will have, when \<open>verdict\<close> tells how each worker ends.\<close>

fun worker_errors :: "('g \<Rightarrow> go_error option) \<Rightarrow> 'g worker \<Rightarrow> go_error multiset" where
  "worker_errors verdict (Active g) = (case verdict g of None \<Rightarrow> {#} | Some e \<Rightarrow> {#e#})"
| "worker_errors verdict Leaving = {#}"

definition pool_errors :: "('g \<Rightarrow> go_error option) \<Rightarrow> ('g, 'w) pool \<Rightarrow> go_error multiset" where
  "pool_errors verdict s = mset (errs s) + sum_list (map (\<lambda>g. worker_errors verdict (Active g)) (todo s)) +
     sum_list (map (worker_errors verdict) (workers s))"

text \<open>A round of turns is fair when the main goroutine and every worker gets one.\<close>

definition fair_round :: "nat \<Rightarrow> turn list \<Rightarrow> bool" where
  "fair_round cap r \<longleftrightarrow> Main_turn \<in> set r \<and> (\<forall>i < cap. Worker_turn i \<in> set r)"

lemma pool_eqD:
  "s\<lparr>todo := gs, workers := ws\<rparr> = s \<Longrightarrow> todo s = gs" "s\<lparr>filled := n\<rparr> = s \<Longrightarrow> filled s = n"
  "s\<lparr>closed := True\<rparr> = s \<Longrightarrow> closed s" "s\<lparr>workers := ws\<rparr> = s \<Longrightarrow> workers s = ws"
  "s\<lparr>workers := ws, world := w\<rparr> = s \<Longrightarrow> workers s = ws"
  "s\<lparr>workers := ws, world := w, errs := es\<rparr> = s \<Longrightarrow> workers s = ws"
  by (drule arg_cong [of _ _ todo], simp, drule arg_cong [of _ _ filled], simp, drule arg_cong [of _ _ closed], simp,
      (drule arg_cong [of _ _ workers], simp)+)

text \<open>The contract of a worker: each of its steps brings it closer to its end.\<close>

locale staged_workers =
  fixes body :: "('g, 'w) stage" and rank :: "'g \<Rightarrow> nat"
  assumes rank_less: "body g w = (Inl g', w') \<Longrightarrow> rank g' < rank g"
begin

lemma turn_weight:
  assumes "pool_ok cap s" "pool_turn cap body t s \<noteq> s"
  shows "pool_weight cap rank (pool_turn cap body t s) < pool_weight cap rank s"
proof (cases t)
  case Main_turn
  with assms show ?thesis
    by (cases "todo s") (auto simp: main_turn_def pool_weight_def pool_ok_def split: if_splits)
next
  case (Worker_turn i)
  with assms have i: "i < length (workers s)" by (auto simp: worker_turn_def split: if_splits)
  show ?thesis
  proof (cases "workers s ! i")
    case (Active g)
    obtain r w' where r: "body g (world s) = (r, w')" by fastforce
    show ?thesis
    proof (cases r)
      case (Inl g')
      with r rank_less have "rank g' < rank g" by blast
      with Inl Active Worker_turn i r sum_list_update [OF i, of "worker_weight rank" "Active g'"]
      show ?thesis by (simp add: worker_turn_def pool_weight_def)
    next
      case (Inr e)
      with Active Worker_turn i r sum_list_update [OF i, of "worker_weight rank" Leaving]
      show ?thesis by (simp add: worker_turn_def pool_weight_def)
    qed
  next
    case Leaving
    then show ?thesis
      using Worker_turn i sum_list_remove_at [OF i, of "worker_weight rank"]
      by (simp add: worker_turn_def pool_weight_def)
  qed
qed

text \<open>There is no deadlock: an open pool has a turn for the main goroutine or for its first worker.\<close>

lemma no_deadlock:
  assumes "pool_ok cap s" "0 < cap" "pool_turn cap body Main_turn s = s" "pool_turn cap body (Worker_turn 0) s = s"
  shows "closed s"
proof (cases "workers s")
  case Nil
  show ?thesis
    using Nil assms(1-3)
    by (cases "todo s") (auto simp: main_turn_def pool_ok_def split: if_splits dest!: pool_eqD)
next
  case (Cons x xs)
  have False
  proof (cases x)
    case (Active g)
    with Cons assms(4) rank_less [of g "world s"] show False
      by (auto simp: worker_turn_def split: prod.splits sum.splits dest!: pool_eqD)
  next
    case Leaving
    with Cons assms(4) show False by (auto simp: worker_turn_def remove_at_def dest!: pool_eqD)
  qed
  then show ?thesis ..
qed

text \<open>Hence every fair round makes progress until the pool is closed.\<close>

lemma run_weight: "pool_ok cap s \<Longrightarrow> pool_weight cap rank (pool_run cap body ts s) \<le> pool_weight cap rank s"
proof (induction ts arbitrary: s)
  case (Cons t ts)
  have "pool_weight cap rank (pool_turn cap body t s) \<le> pool_weight cap rank s"
    using turn_weight [OF Cons.prems, of t] by (cases "pool_turn cap body t s = s") auto
  with Cons.IH [OF pool_ok_turn [OF Cons.prems], of body t] show ?case by simp
qed simp

lemma idle_turns:
  assumes "pool_ok cap s" "pool_weight cap rank s \<le> pool_weight cap rank (pool_run cap body ts s)" "t \<in> set ts"
  shows "pool_turn cap body t s = s"
  using assms
proof (induction ts arbitrary: s)
  case (Cons u ts)
  have "pool_weight cap rank s \<le> pool_weight cap rank (pool_turn cap body u s)"
    using run_weight [OF pool_ok_turn [OF Cons.prems(1)], of ts body u] Cons.prems(2) by simp
  then have "pool_turn cap body u s = s" using turn_weight [OF Cons.prems(1), of u] by force
  with Cons show ?case by auto
qed simp

lemma round_progress:
  assumes "pool_ok cap s" "0 < cap" "fair_round cap r"
  shows "closed s \<or> pool_weight cap rank (pool_run cap body r s) < pool_weight cap rank s"
  using idle_turns [OF assms(1), of r] no_deadlock [OF assms(1,2)] assms(2,3)
  unfolding fair_round_def by (meson not_less)

lemma closed_stays: "pool_ok cap s \<Longrightarrow> closed s \<Longrightarrow> pool_run cap body ts s = s"
proof (induction ts)
  case (Cons t ts)
  have "pool_turn cap body t s = s"
    using Cons.prems by (cases t) (auto simp: pool_ok_def main_turn_def worker_turn_def)
  with Cons show ?case by simp
qed simp

lemma rounds_close:
  assumes "pool_ok cap s" "0 < cap" "\<forall>r \<in> set rs. fair_round cap r" "pool_weight cap rank s \<le> length rs"
  shows "closed (pool_run cap body (concat rs) s)"
  using assms
proof (induction rs arbitrary: s)
  case Nil
  then show ?case by (auto simp: pool_weight_def split: if_splits)
next
  case (Cons r rs)
  show ?case
  proof (cases "closed s")
    case True
    with closed_stays [OF Cons.prems(1)] show ?thesis by simp
  next
    case False
    with round_progress [OF Cons.prems(1,2)] Cons.prems(3,4)
    have "pool_weight cap rank (pool_run cap body r s) \<le> length rs" by fastforce
    with Cons pool_ok_run [OF Cons.prems(1)] show ?thesis by simp
  qed
qed

text \<open>A pool of workers whose ends do not depend on the order of their steps collects the errors of all
  of them, in some order.\<close>

lemma turn_collects:
  assumes "\<And>g w g' w'. P w \<Longrightarrow> body g w = (Inl g', w') \<Longrightarrow> P w' \<and> verdict g' = verdict g"
    and "\<And>g w e w'. P w \<Longrightarrow> body g w = (Inr e, w') \<Longrightarrow> P w' \<and> e = verdict g"
    and "P (world s)"
  shows "P (world (pool_turn cap body t s)) \<and> pool_errors verdict (pool_turn cap body t s) = pool_errors verdict s"
proof (cases t)
  case Main_turn
  with assms(3) show ?thesis by (cases "todo s") (auto simp: main_turn_def pool_errors_def)
next
  case (Worker_turn i)
  show ?thesis
  proof (cases "i < length (workers s)")
    case i: True
    note upd = sum_list_update [OF i, of "worker_errors verdict"]
    show ?thesis
    proof (cases "workers s ! i")
      case (Active g)
      obtain r w' where r: "body g (world s) = (r, w')" by fastforce
      show ?thesis
      proof (cases r)
        case (Inl g')
        with r assms(1,3) have "P w'" "verdict g' = verdict g" by blast+
        with Inl Active Worker_turn i r upd [of "Active g'"] show ?thesis
          by (simp add: worker_turn_def pool_errors_def)
      next
        case (Inr e)
        with r assms(2,3) have "P w'" "e = verdict g" by blast+
        with Inr Active Worker_turn i r upd [of Leaving] show ?thesis
          by (cases "verdict g") (simp_all add: worker_turn_def pool_errors_def ac_simps)
      qed
    next
      case Leaving
      with assms(3) Worker_turn i sum_list_remove_at [OF i, of "worker_errors verdict"] show ?thesis
        by (simp add: worker_turn_def pool_errors_def)
    qed
  qed (use Worker_turn assms(3) in \<open>simp add: worker_turn_def\<close>)
qed

lemma run_collects:
  assumes "\<And>g w g' w'. P w \<Longrightarrow> body g w = (Inl g', w') \<Longrightarrow> P w' \<and> verdict g' = verdict g"
    and "\<And>g w e w'. P w \<Longrightarrow> body g w = (Inr e, w') \<Longrightarrow> P w' \<and> e = verdict g"
    and "P (world s)"
  shows "P (world (pool_run cap body ts s)) \<and> pool_errors verdict (pool_run cap body ts s) = pool_errors verdict s"
  using assms(3)
proof (induction ts arbitrary: s)
  case (Cons t ts)
  from turn_collects [of P verdict, OF assms(1,2) Cons.prems] Cons.IH [of "pool_turn cap body t s"]
  show ?case by simp
qed simp

end

text \<open>The workers of the pusher take at most three steps and those of the checker two.\<close>

fun push_rank :: "push_stage \<Rightarrow> nat" where
  "push_rank (Should_push n) = 2"
| "push_rank (Push_summary n g) = 1"
| "push_rank (Push_now n) = 0"

fun check_rank :: "check_stage \<Rightarrow> nat" where
  "check_rank (Check_guid n) = 1"
| "check_rank (Check_status n g) = 0"

interpretation pushers: staged_workers "push_body a p" push_rank for a p
proof
  show "push_rank g' < push_rank g" if "push_body a p g w = (Inl g', w')" for g w g' w'
    using that by (cases g) (auto split: if_splits prod.splits sum.splits)
qed

interpretation checkers: staged_workers "check_body a spec" check_rank for a spec
proof
  show "check_rank g' < check_rank g" if "check_body a spec g w = (Inl g', w')" for g w g' w'
    using that by (cases g) (auto split: prod.splits sum.splits)
qed

lemma pool_weight_init:
  "(\<And>g. g \<in> set gs \<Longrightarrow> rank g = k) \<Longrightarrow> pool_weight cap rank (pool_init gs w) = (k + 3) * length gs + cap + 1"
  by (induction gs) (auto simp: pool_weight_def pool_init_def algebra_simps)

subsection \<open>What a check of the applications finds\<close>

text \<open>A platform on which the commands that only ask leave everything as it is.\<close>

definition asking :: "string list \<Rightarrow> bool" where
  "asking args \<longleftrightarrow> (\<exists>n. args = [''app'', n, ''--guid''] \<or> args = [''org'', n, ''--guid''] \<or> args = [''curl'', n])"

definition reads_only :: "'w Adapter \<Rightarrow> bool" where
  "reads_only a \<longleftrightarrow> (\<forall>args w. asking args \<longrightarrow> snd (cf_output a args w) = w)"

text \<open>An application runs as specified: all its instances run, and they are as many as asked for.\<close>

definition runs_as_specified :: "'w Adapter \<Rightarrow> (string \<rightharpoonup> int) \<Rightarrow> 'w \<Rightarrow> string \<Rightarrow> bool" where
  "runs_as_specified a spec w name \<longleftrightarrow> (\<exists>guid out s. fst (AppGuid a name w) = Inr guid \<and>
     fst (CheckApp a guid w) = Inr out \<and> unmarshal_status (js a) out = Inr s \<and> Instances s \<noteq> 0 \<and>
     RunningInstances s = Instances s \<and> spec name = Some (RunningInstances s))"

definition status_verdict :: "'w Adapter \<Rightarrow> (string \<rightharpoonup> int) \<Rightarrow> 'w \<Rightarrow> string \<Rightarrow> string \<Rightarrow> go_error option" where
  "status_verdict a spec w name guid = (case fst (CheckApp a guid w) of
       Inl e \<Rightarrow> Some (Errorf (checking_app name) e)
     | Inr out \<Rightarrow> (case unmarshal_status (js a) out of Inl e \<Rightarrow> Some e | Inr s \<Rightarrow> check_status spec name s))"

fun check_verdict :: "'w Adapter \<Rightarrow> (string \<rightharpoonup> int) \<Rightarrow> 'w \<Rightarrow> check_stage \<Rightarrow> go_error option" where
  "check_verdict a spec w (Check_status name guid) = status_verdict a spec w name guid"
| "check_verdict a spec w (Check_guid name) = (case fst (AppGuid a name w) of
       Inl e \<Rightarrow> Some (Errorf (''checking app guid '' @ name @ '': '') e)
     | Inr guid \<Rightarrow> status_verdict a spec w name guid)"

lemma reads_only_output:
  assumes "reads_only a" "asking args"
  obtains out err where "cf_output a args w = ((out, err), w)"
  using assms unfolding reads_only_def by (metis prod.collapse)

lemma reads_only_calls:
  assumes "reads_only a"
  shows "snd (AppGuid a n w) = w" "snd (CheckApp a n w) = w" "snd (OrgGuid a n w) = w" "snd (AppCount a n w) = w"
proof -
  show "snd (AppGuid a n w) = w"
    by (rule reads_only_output [OF assms, of "[''app'', n, ''--guid'']" w])
      (simp_all add: asking_def AppGuid_def output_text_def split: option.split)
  show "snd (CheckApp a n w) = w"
    by (rule reads_only_output [OF assms, of "[''curl'', ''/v2/apps/'' @ n @ ''/summary'']" w])
      (simp_all add: asking_def CheckApp_def output_text_def split: option.split)
  show "snd (OrgGuid a n w) = w"
    by (rule reads_only_output [OF assms, of "[''org'', n, ''--guid'']" w])
      (simp_all add: asking_def OrgGuid_def output_text_def split: option.split)
  show "snd (AppCount a n w) = w"
    by (rule reads_only_output [OF assms, of "[''curl'', ''/v2/apps?q=organization_guid%20IN%20'' @ n]" w])
      (simp_all add: asking_def AppCount_def split: option.split sum.split)
qed

lemma check_verdict_None: "check_verdict a spec w (Check_guid name) = None \<longleftrightarrow> runs_as_specified a spec w name"
  by (auto simp: runs_as_specified_def status_verdict_def check_status_def split: sum.splits option.splits if_splits)

lemma check_pool_errors:
  assumes "reads_only a"
  shows "world (pool_run cap (check_body a spec) ts (pool_init (map Check_guid names) w)) = w \<and>
    pool_errors (check_verdict a spec w) (pool_run cap (check_body a spec) ts (pool_init (map Check_guid names) w)) =
      sum_list (map (\<lambda>n. worker_errors (check_verdict a spec w) (Active (Check_guid n))) names)"
proof -
  have fsts: "fst (AppGuid a n w) = r" "w' = w" if "AppGuid a n w = (r, w')" for n r w'
    using that reads_only_calls(1) [OF assms, of n w] by auto
  have fsts': "fst (CheckApp a n w) = r" "w' = w" if "CheckApp a n w = (r, w')" for n r w'
    using that reads_only_calls(2) [OF assms, of n w] by auto
  have step: "u' = w \<and> check_verdict a spec w g' = check_verdict a spec w g"
    if "u = w" "check_body a spec g u = (Inl g', u')" for u g g' u'
    using that by (cases g) (auto split: prod.splits sum.splits dest: fsts fsts')
  have ends: "u' = w \<and> e = check_verdict a spec w g"
    if "u = w" "check_body a spec g u = (Inr e, u')" for u g e u'
    using that by (cases g) (auto simp: status_verdict_def split: prod.splits sum.splits dest: fsts fsts')
  have init: "world (pool_init (map Check_guid names) w) = w" by (simp add: pool_init_def)
  have "pool_errors (check_verdict a spec w) (pool_init (map Check_guid names) w) =
      sum_list (map (\<lambda>n. worker_errors (check_verdict a spec w) (Active (Check_guid n))) names)"
    by (simp add: pool_init_def pool_errors_def o_def)
  then show ?thesis
    using checkers.run_collects [where P = "\<lambda>u. u = w" and a = a and spec = spec and verdict = "check_verdict a spec w"
        and s = "pool_init (map Check_guid names) w" and cap = cap and ts = ts, OF step ends init]
    by (simp only:)
qed

lemma pool_errors_closed:
  assumes "pool_ok cap s" "closed s"
  shows "pool_errors verdict s = mset (errs s)"
  using closed_workers [OF assms] by (simp add: pool_errors_def)

lemma worker_errors_empty:
  "sum_list (map (\<lambda>n. worker_errors v (Active (f n))) ns) = {#} \<longleftrightarrow> (\<forall>n \<in> set ns. v (f n) = None)"
  by (induction ns) (auto split: option.split)

text \<open>A check that ends is exact, whatever the schedule; and it ends under every fair one.\<close>

lemma check_pool_exact:
  assumes "reads_only a" "0 \<le> c" "pool_result c (check_body a spec) (map Check_guid names) ts w = (Some res, w')"
  shows "w' = w \<and> (is_ok res \<longleftrightarrow> (\<forall>n \<in> set names. runs_as_specified a spec w n))"
proof -
  let ?s = "pool_run (nat c) (check_body a spec) ts (pool_init (map Check_guid names) w)"
  have ok: "pool_ok (nat c) ?s" by (rule pool_ok_run [OF pool_ok_init])
  from assms(2,3) have res: "closed ?s" "res = (case errs ?s of e # _ \<Rightarrow> Inl e | [] \<Rightarrow> Inr ())" "w' = world ?s"
    by (auto simp: pool_result_def Let_def split: if_splits)
  from check_pool_errors [OF assms(1), of "nat c" spec ts names w]
  have "world ?s = w" "errs ?s = [] \<longleftrightarrow> (\<forall>n \<in> set names. runs_as_specified a spec w n)"
    using pool_errors_closed [OF ok res(1)] worker_errors_empty [of "check_verdict a spec w" Check_guid names]
    by (simp_all add: check_verdict_None del: check_verdict.simps worker_errors.simps) (metis mset_zero_iff)
  then show ?thesis using res by (auto split: list.splits)
qed

lemma check_pool_ends:
  assumes "0 < c" "\<forall>r \<in> set rs. fair_round (nat c) r" "4 * length names + nat c + 1 \<le> length rs"
  obtains res w' where "pool_result c (check_body a spec) (map Check_guid names) (concat rs) w = (Some res, w')"
proof -
  have "closed (pool_run (nat c) (check_body a spec) (concat rs) (pool_init (map Check_guid names) w))"
  proof (rule checkers.rounds_close [OF pool_ok_init _ assms(2)])
    show "pool_weight (nat c) check_rank (pool_init (map Check_guid names) w) \<le> length rs"
      using assms(3) by (subst pool_weight_init [of _ _ 1]) auto
  qed (use assms(1) in simp)
  with assms(1) that show ?thesis by (simp add: pool_result_def Let_def)
qed

lemma CheckApps_cases:
  assumes "reads_only a"
  obtains e where "CheckApps a c spec ts w = (Some (Inl e), w)"
      "\<not> (\<exists>guid. fst (OrgGuid a (checker_Org c) w) = Inr guid \<and>
         fst (AppCount a guid w) = Inr (int (length (checker_Applications c))))"
  | guid where "fst (OrgGuid a (checker_Org c) w) = Inr guid"
      "fst (AppCount a guid w) = Inr (int (length (checker_Applications c)))"
      "CheckApps a c spec ts w =
         pool_result (checker_Concurrency c) (check_body a spec) (map Check_guid (checker_Applications c)) ts w"
proof -
  obtain r where r: "OrgGuid a (checker_Org c) w = (r, w)"
    using reads_only_calls(3) [OF assms(1)] by (metis prod.collapse)
  show ?thesis
  proof (cases r)
    case (Inl e)
    with r that(1) show ?thesis by (simp add: CheckApps_def)
  next
    case (Inr guid)
    obtain k where k: "AppCount a guid w = (k, w)"
      using reads_only_calls(4) [OF assms(1)] by (metis prod.collapse)
    show ?thesis
    proof (cases "k = Inr (int (length (checker_Applications c)))")
      case True
      with r Inr k that(2) show ?thesis by (simp add: CheckApps_def)
    next
      case False
      with r Inr k that(1) show ?thesis by (cases k) (simp_all add: CheckApps_def)
    qed
  qed
qed

text \<open>C39. However the goroutines of \<^verbatim>\<open>CheckApps\<close> are scheduled, as long as each gets its turns, the check ends,
  for every concurrency of at least one; and when the commands it runs only read, it reports success
  exactly when the organisation has as many applications as listed and every listed application
  runs all its instances and as many as the specification asks for.\<close>

theorem CheckApps_exact:
  assumes "reads_only a" "0 < checker_Concurrency c"
    "\<forall>r \<in> set rounds. fair_round (nat (checker_Concurrency c)) r"
    "4 * length (checker_Applications c) + nat (checker_Concurrency c) + 1 \<le> length rounds"
  shows "\<exists>res. CheckApps a c spec (concat rounds) w = (Some res, w) \<and>
    (is_ok res \<longleftrightarrow> (\<exists>guid. fst (OrgGuid a (checker_Org c) w) = Inr guid \<and>
       fst (AppCount a guid w) = Inr (int (length (checker_Applications c)))) \<and>
       (\<forall>n \<in> set (checker_Applications c). runs_as_specified a spec w n))"
proof (cases rule: CheckApps_cases [OF assms(1), of c spec "concat rounds" w])
  case (1 e)
  then show ?thesis by auto
next
  case (2 guid)
  obtain res w' where res: "pool_result (checker_Concurrency c) (check_body a spec)
      (map Check_guid (checker_Applications c)) (concat rounds) w = (Some res, w')"
    by (rule check_pool_ends [OF assms(2-4)])
  with check_pool_exact [OF assms(1) _ res] assms(2) 2 show ?thesis by auto
qed

subsection \<open>What success means\<close>

lemma expect_other: "n \<notin> set ns \<Longrightarrow> expect k ns m n = m n"
  by (induction ns arbitrary: m) (auto simp: expect_def)

lemma expect_listed: "n \<in> set ns \<Longrightarrow> expect k ns m n = Some k"
proof (induction ns arbitrary: m)
  case (Cons x ns)
  then show ?case by (cases "n \<in> set ns") (auto simp: expect_def intro: expect_other [unfolded expect_def, THEN trans])
qed simp

lemma app_names_kind: "n \<in> set (app_names p kind k) \<Longrightarrow> \<exists>i. n = p @ kind @ ''-'' @ itoa i"
  by (auto simp: app_names_def)

lemma expectedApps_registry: "expectedApps c (Registry (scaleGroup c)) = Some 1"
  unfolding expectedApps_def
  by (subst expect_other, force simp: scaleGroup_def Let_def dest: app_names_kind)+
    (simp add: scaleGroup_def Let_def)

lemma expectedApps_tick: "n \<in> set (TickApps (scaleGroup c)) \<Longrightarrow> expectedApps c n = Some (pc_AppInstances c)"
  unfolding expectedApps_def
  by (subst expect_other) (auto simp: scaleGroup_def Let_def expect_listed dest!: app_names_kind)

lemma expectedApps_proxy: "n \<in> set (ProxyApps (scaleGroup c)) \<Longrightarrow> expectedApps c n = Some (ProxyInstances c)"
  by (simp add: expectedApps_def expect_listed scaleGroup_def Let_def)

lemma check_retries_ok:
  assumes "reads_only a" "0 \<le> checker_Concurrency c" "check_retries a c spec ts i w = (Some (Inr u), w')"
  shows "\<forall>n \<in> set (checker_Applications c). runs_as_specified a spec w' n"
  using assms
proof (induction a c spec ts i w rule: check_retries.induct)
  case (1 a c spec ts i w)
  obtain r w1 where r: "CheckApps a c spec (ts i) w = (r, w1)" by fastforce
  consider (ok) "r = Some (Inr ())" "w1 = w'" | (again) e where "r = Some (Inl e)"
      "check_retries a c spec ts (Suc i) w1 = (Some (Inr u), w')" "\<not> 5 \<le> i"
    using 1(4) r by (auto simp: check_retries.simps [of a c spec ts i w] split: option.splits sum.splits if_splits)
  then show ?case
  proof cases
    case ok
    show ?thesis
    proof (cases rule: CheckApps_cases [OF 1(2), of c spec "ts i" w])
      case (1 e)
      with ok r show ?thesis by simp
    next
      case (2 guid)
      with ok r check_pool_exact [OF \<open>reads_only a\<close> \<open>0 \<le> checker_Concurrency c\<close>, of spec "checker_Applications c" "ts i" w]
      show ?thesis by fastforce
    qed
  next
    case again
    with 1 r show ?thesis by simp
  qed
qed

lemma runs_as_specified_spec: "runs_as_specified a spec w n \<Longrightarrow> spec n = Some k \<Longrightarrow> runs_as_specified a (\<lambda>_. Some k) w n"
  unfolding runs_as_specified_def by fastforce

lemma push_and_check_ok:
  assumes "push_and_check E c appsDir tickManifest proxyManifest w = (Some (Inr g), w')"
  obtains w0 where "g = scaleGroup c"
    "check_retries (pe_adapter E) (pusher_checker c) (expectedApps c) (pe_check_turns E) 0 w0 = (Some (Inr ()), w')"
  using assms unfolding push_and_check_def Let_def
  by (auto split: prod.splits option.splits sum.splits simp del: check_retries.simps push_all.simps)

lemma pusher_main_ok:
  assumes "pusher_main E unmarshal c appsDir w = (Some (Inr g), w')"
  obtains tickManifest proxyManifest w0 where "push_and_check E c appsDir tickManifest proxyManifest w0 = (Some (Inr g), w')"
  using assms unfolding pusher_main_def Let_def
  by (auto split: prod.splits sum.splits if_splits)

text \<open>When the program prints its group, then at that moment every application of it runs, with the number
  of instances that the configuration asks for.\<close>

theorem pusher_success:
  assumes "reads_only (pe_adapter E)" "0 \<le> Concurrency c"
    "pusher_main E unmarshal c appsDir w = (Some (Inr g), w')"
  shows "runs_as_specified (pe_adapter E) (\<lambda>_. Some 1) w' (Registry g) \<and>
    (\<forall>n \<in> set (TickApps g). runs_as_specified (pe_adapter E) (\<lambda>_. Some (pc_AppInstances c)) w' n) \<and>
    (\<forall>n \<in> set (ProxyApps g). runs_as_specified (pe_adapter E) (\<lambda>_. Some (ProxyInstances c)) w' n)"
proof -
  obtain w0 where g: "g = scaleGroup c" and ok:
    "check_retries (pe_adapter E) (pusher_checker c) (expectedApps c) (pe_check_turns E) 0 w0 = (Some (Inr ()), w')"
    using assms(3) by (elim pusher_main_ok push_and_check_ok)
  have "\<forall>n \<in> set (checker_Applications (pusher_checker c)). runs_as_specified (pe_adapter E) (expectedApps c) w' n"
    using check_retries_ok [OF assms(1) _ ok] assms(2) by (simp add: pusher_checker_def)
  then have "runs_as_specified (pe_adapter E) (expectedApps c) w' n"
    if "n = Registry g \<or> n \<in> set (TickApps g) \<or> n \<in> set (ProxyApps g)" for n
    using that by (auto simp: pusher_checker_def g)
  then show ?thesis
    using g expectedApps_registry expectedApps_tick expectedApps_proxy by (blast intro: runs_as_specified_spec)
qed

text \<open>An organisation with one application of two instances, one of which is missing.\<close>

definition demo_shell :: "unit shell" where
  "demo_shell = \<lparr>command = (\<lambda>_ _ w. (Exited '''' '''' None, w)), CombinedOutput = (\<lambda>_ args w. ((hd args, None), w))\<rparr>"

definition demo_cf_json :: cf_json where
  "demo_cf_json = \<lparr>unmarshal_total = (\<lambda>_. Inr 1), unmarshal_asgs = (\<lambda>_. Inr []), marshal_rules = (\<lambda>_. Inr ''[]''),
     unmarshal_status = (\<lambda>_. Inr \<lparr>st_GUID = ''g'', st_Name = ''tick'', RunningInstances = 1, Instances = 2, st_State = ''STARTED''\<rparr>)\<rparr>"

definition demo_adapter :: "unit Adapter" where
  "demo_adapter = \<lparr>CfCliPath = ''cf'', sh = demo_shell, js = demo_cf_json\<rparr>"

definition demo_checker :: AppChecker where
  "demo_checker = \<lparr>checker_Org = ''org'', checker_Applications = [''tick''], checker_Concurrency = 2\<rparr>"

lemma demo_reads_only: "reads_only demo_adapter"
  by (simp add: reads_only_def cf_output_def demo_adapter_def demo_shell_def)

theorem CheckApps_exact_witness:
  "\<exists>res. CheckApps demo_adapter demo_checker [''tick'' \<mapsto> 2]
      (concat (replicate 7 [Worker_turn 1, Worker_turn 0, Main_turn])) () = (Some res, ()) \<and> \<not> is_ok res"
proof -
  have "\<not> runs_as_specified demo_adapter [''tick'' \<mapsto> 2] () ''tick''"
    by (simp add: runs_as_specified_def demo_adapter_def demo_cf_json_def)
  moreover have "fair_round 2 [Worker_turn 1, Worker_turn 0, Main_turn]"
    by (auto simp: fair_round_def less_Suc_eq numeral_2_eq_2)
  ultimately show ?thesis
    using CheckApps_exact [OF demo_reads_only, of demo_checker "replicate 7 [Worker_turn 1, Worker_turn 0, Main_turn]"
        "[''tick'' \<mapsto> 2]" "()"]
    by (auto simp: demo_checker_def)
qed

end
