(* ===== verification/Example_Apps.thy ===== *)
theory Example_Apps
  imports Serve_Mux
begin

text \<open>
  \<^verbatim>\<open>example-apps\<close>: the applications that the acceptance and scaling tests deploy. \<^verbatim>\<open>proxy\<close> forwards
  requests and collects latencies, \<^verbatim>\<open>smoke\<close> calls itself through a proxy, \<^verbatim>\<open>diglett\<close> resolves a name
  again and again, \<^verbatim>\<open>tick\<close> keeps itself registered with a registry, and \<^verbatim>\<open>registry\<close> wires that registry
  up from a library. Networks, processes, clocks, JSON and regular expressions are parameters. A
  handler answers with a status and a body, or panics, which the HTTP server contains.
\<close>

datatype app_reply = Reply int string | Panicked string

record app_request =
  ar_Method :: string
  ar_Path :: string
  ar_RemoteAddr :: string
  ar_Body :: "string result option"

subsection \<open>Latencies\<close>

record 'l Stats =
  Latency :: "'l list"

definition Stats_Add :: "'l \<Rightarrow> 'l Stats \<Rightarrow> 'l Stats" where
  "Stats_Add latency s = s\<lparr>Latency := Latency s @ [latency]\<rparr>"

definition Stats_Clear :: "'l Stats \<Rightarrow> 'l Stats" where
  "Stats_Clear s = s\<lparr>Latency := []\<rparr>"

definition GetLatency :: "'l Stats \<Rightarrow> 'l list" where
  "GetLatency s = Latency s"

definition StatsHandler :: "('l list \<Rightarrow> string result) \<Rightarrow> app_request \<Rightarrow> 'l Stats \<Rightarrow> app_reply \<times> 'l Stats" where
  "StatsHandler marshal req s =
     (if ar_Method req = ''DELETE'' then (Reply 200 '''', Stats_Clear s)
      else case marshal (Latency s) of Inl e \<Rightarrow> (Panicked ''marshal'', s) | Inr json \<Rightarrow> (Reply 200 json, s))"

subsection \<open>Handlers of the proxy\<close>

text \<open>An IP address with its text; \<^verbatim>\<open>To4\<close> of an IPv6 address is nil, whose text is \<^verbatim>\<open><nil>\<close>.\<close>

datatype ip_address = IPv4 string | IPv6 string

fun To4_String :: "ip_address \<Rightarrow> string" where
  "To4_String (IPv4 s) = s"
| "To4_String (IPv6 s) = ''<nil>''"

fun ipv4Address :: "ip_address list \<Rightarrow> string result" where
  "ipv4Address [] = Inl (ErrText ''No IPv4 found'')"
| "ipv4Address (IPv4 s # ips) = Inr s"
| "ipv4Address (IPv6 s # ips) = ipv4Address ips"

text \<open>How a ping ends: it does not start, it exits, or ten seconds pass and it is killed.\<close>

datatype ping_end = NotStarted go_error | Exited "go_error option" | TimedOut "go_error option"

record 'l app_platform =
  ap_InterfaceAddrs :: "string list result"
  ap_LookupIP :: "string \<Rightarrow> ip_address list result"
  ap_has_bin_ping :: bool
  ap_ping :: "string \<Rightarrow> string list \<Rightarrow> ping_end"
  ap_Get :: "string \<Rightarrow> ('l \<times> string result) result"
  ap_rand :: "nat \<Rightarrow> string"
  ap_max_slice :: int
  ap_marshal_info :: "string list \<Rightarrow> int \<Rightarrow> string result"
  ap_marshal_strings :: "string list \<Rightarrow> string result"
  ap_marshal_stats :: "'l list \<Rightarrow> string result"
  ap_errText :: "go_error \<Rightarrow> string"

definition InfoHandler :: "'l app_platform \<Rightarrow> int \<Rightarrow> app_reply" where
  "InfoHandler P port = (case ap_InterfaceAddrs P of
       Inl e \<Rightarrow> Panicked ''addresses''
     | Inr addrs \<Rightarrow> (case ap_marshal_info P (map (\<lambda>a. hd (split_on (CHR ''/'') a)) addrs) port of
         Inl e \<Rightarrow> Panicked ''marshal'' | Inr json \<Rightarrow> Reply 200 json))"

definition handleDigError :: "'l app_platform \<Rightarrow> go_error \<Rightarrow> string \<Rightarrow> app_reply" where
  "handleDigError P e destination = Reply 500 (''Failed to dig: '' @ destination @ '': '' @ ap_errText P e)"

definition DigHandler :: "'l app_platform \<Rightarrow> app_request \<Rightarrow> app_reply" where
  "DigHandler P req =
     (let destination = hd (split_on (CHR '':'') (trim_prefix ''/dig/'' (ar_Path req))) in
      case ap_LookupIP P destination of
        Inl e \<Rightarrow> handleDigError P e destination
      | Inr ips \<Rightarrow> (case ap_marshal_strings P (map To4_String ips) of
          Inl e \<Rightarrow> handleDigError P e destination | Inr json \<Rightarrow> Reply 200 json))"

definition handleError :: "'l app_platform \<Rightarrow> go_error \<Rightarrow> string \<Rightarrow> app_reply" where
  "handleError P e destination = Reply 500 (''Ping failed to destination: '' @ destination @ '': '' @ ap_errText P e)"

definition PingHandler :: "'l app_platform \<Rightarrow> app_request \<Rightarrow> app_reply" where
  "PingHandler P req =
     (let destination = hd (split_on (CHR '':'') (trim_prefix ''/ping/'' (ar_Path req)));
          pingPath = (if ap_has_bin_ping P then ''/bin/ping'' else ''/sbin/ping'') in
      case ap_ping P pingPath [''-c'', ''1'', destination] of
        NotStarted e \<Rightarrow> handleError P e destination
      | TimedOut (Some e) \<Rightarrow> handleError P (Errorf ''error killing hung ping: '' e) destination
      | TimedOut None \<Rightarrow> handleError P (ErrText ''killing ping after timed out'') destination
      | Exited (Some e) \<Rightarrow> handleError P e destination
      | Exited None \<Rightarrow> Reply 200 (''Ping succeeded to destination: '' @ destination))"

definition DownloadHandler :: "'l app_platform \<Rightarrow> app_request \<Rightarrow> app_reply" where
  "DownloadHandler P req =
     (let requestBytes = trim_prefix ''/download/'' (ar_Path req);
          refused = Reply 500 (''requested number of bytes must be a positive integer, got: '' @ requestBytes) in
      case Atoi requestBytes of
        Inl e \<Rightarrow> refused
      | Inr numBytes \<Rightarrow>
          if numBytes < 0 then refused
          else if numBytes > ap_max_slice P then Panicked ''makeslice: len out of range''
          else Reply 200 (ap_rand P (nat numBytes)))"

definition UploadHandler :: "'l app_platform \<Rightarrow> app_request \<Rightarrow> app_reply" where
  "UploadHandler P req = (case ar_Body req of
       None \<Rightarrow> Reply 200 ''0 bytes received and read''
     | Some (Inl e) \<Rightarrow> Reply 500 (''error: '' @ ap_errText P e)
     | Some (Inr b) \<Rightarrow> Reply 200 (itoa (int (length b)) @ '' bytes received and read''))"

definition EchoSourceIPHandler :: "app_request \<Rightarrow> app_reply" where
  "EchoSourceIPHandler req = Reply 200 (ar_RemoteAddr req)"

definition ProxyHandler :: "'l app_platform \<Rightarrow> app_request \<Rightarrow> 'l Stats \<Rightarrow> app_reply \<times> 'l Stats" where
  "ProxyHandler P req s =
     (let destination = ''http://'' @ trim_prefix ''/proxy/'' (ar_Path req) in
      case ap_Get P destination of
        Inl e \<Rightarrow> (Reply 500 (''request failed: '' @ ap_errText P e), s)
      | Inr (latency, readBytes) \<Rightarrow>
          (case readBytes of Inl e \<Rightarrow> Reply 500 (''read body failed: '' @ ap_errText P e) | Inr b \<Rightarrow> Reply 200 b,
           Stats_Add latency s))"

datatype proxy_route = R_download | R_dig | R_ping | R_proxy | R_stats | R_upload | R_echo | R_info

definition proxy_mux :: "(string \<times> proxy_route) list" where
  "proxy_mux = [(''/download/'', R_download), (''/dig/'', R_dig), (''/ping/'', R_ping), (''/proxy/'', R_proxy),
     (''/stats'', R_stats), (''/upload'', R_upload), (''/echosourceip'', R_echo), (''/'', R_info)]"

text \<open>One request to the application. The left case is a redirect by the multiplexer.\<close>

definition proxy_serve :: "'l app_platform \<Rightarrow> int \<Rightarrow> app_request \<Rightarrow> 'l Stats \<Rightarrow> (string + app_reply) \<times> 'l Stats" where
  "proxy_serve P port req s = (case mux_route proxy_mux (ar_Path req) of
       MovedPermanently p \<Rightarrow> (Inl p, s)
     | NotFound \<Rightarrow> (Inr (Reply 404 (''404 page not found'' @ [CHR 0x0A])), s)
     | Handler R_download \<Rightarrow> (Inr (DownloadHandler P req), s)
     | Handler R_dig \<Rightarrow> (Inr (DigHandler P req), s)
     | Handler R_ping \<Rightarrow> (Inr (PingHandler P req), s)
     | Handler R_proxy \<Rightarrow> map_prod Inr id (ProxyHandler P req s)
     | Handler R_stats \<Rightarrow> map_prod Inr id (StatsHandler (ap_marshal_stats P) req s)
     | Handler R_upload \<Rightarrow> (Inr (UploadHandler P req), s)
     | Handler R_echo \<Rightarrow> (Inr (EchoSourceIPHandler req), s)
     | Handler R_info \<Rightarrow> (Inr (InfoHandler P port), s))"

definition port_from_env :: "string \<Rightarrow> int result" where
  "port_from_env s = (case Atoi s of Inl e \<Rightarrow> Inl (ErrText ''invalid required env var PORT'') | Inr p \<Rightarrow> Inr p)"

text \<open>\<open>main\<close>: the port, and the answers to the requests that come in.\<close>

definition proxy_main :: "'l app_platform \<Rightarrow> string \<Rightarrow> app_request list \<Rightarrow> ((string + app_reply) list \<times> 'l Stats) result" where
  "proxy_main P PORT reqs = (case port_from_env PORT of
       Inl e \<Rightarrow> Inl e
     | Inr port \<Rightarrow> Inr (fold (\<lambda>req (rs, s). case proxy_serve P port req s of (r, s) \<Rightarrow> (rs @ [r], s)) reqs ([], \<lparr>Latency = []\<rparr>)))"

subsection \<open>The smoke test application\<close>

record smoke_config =
  SelfAddress :: string
  ProxyURL :: string

text \<open>\<^verbatim>\<open>launchServer\<close> until it listens; \<open>parseIP\<close> answers the canonical text of an address.\<close>

definition smoke_launch :: "(string \<Rightarrow> string option) \<Rightarrow> string \<Rightarrow> string \<Rightarrow> smoke_config result" where
  "smoke_launch parseIP internalIP proxyURL = (case parseIP internalIP of
       None \<Rightarrow> Inl (ErrText ''invalid required env var CF_INSTANCE_INTERNAL_IP'')
     | Some a \<Rightarrow> if proxyURL = '''' then Inl (ErrText ''invalid required env var PROXY_APP_URL'')
                 else Inr \<lparr>SelfAddress = a, ProxyURL = proxyURL\<rparr>)"

definition smoke_main :: "(string \<Rightarrow> string option) \<Rightarrow> string \<Rightarrow> string \<Rightarrow> string \<Rightarrow> (int \<times> smoke_config) result" where
  "smoke_main parseIP PORT internalIP proxyURL = (case port_from_env PORT of
       Inl e \<Rightarrow> Inl e
     | Inr port \<Rightarrow> map_sum id (Pair port) (smoke_launch parseIP internalIP proxyURL))"

definition SelfProxyHandler :: "(string \<Rightarrow> int result) \<Rightarrow> (go_error \<Rightarrow> string) \<Rightarrow> smoke_config \<Rightarrow> app_reply" where
  "SelfProxyHandler get errText h = (case get (ProxyURL h @ ''/proxy/'' @ SelfAddress h @ '':8080'') of
       Inl e \<Rightarrow> Reply 500 (''request failed: '' @ errText e)
     | Inr st \<Rightarrow> Reply st (if st = 200 then ''OK'' else ''FAILED''))"

definition smoke_mux :: "(string \<times> bool) list" where
  "smoke_mux = [(''/selfproxy'', True), (''/'', False)]"

definition smoke_serve :: "(string \<Rightarrow> int result) \<Rightarrow> (go_error \<Rightarrow> string) \<Rightarrow> smoke_config \<Rightarrow> string \<Rightarrow> string + app_reply" where
  "smoke_serve get errText h path = (case mux_route smoke_mux path of
       Handler True \<Rightarrow> Inr (SelfProxyHandler get errText h)
     | Handler False \<Rightarrow> Inr (Reply 200 ''hello'')
     | MovedPermanently p \<Rightarrow> Inl p
     | NotFound \<Rightarrow> Inr (Reply 404 (''404 page not found'' @ [CHR 0x0A])))"

subsection \<open>Diglett\<close>

definition queryTimePrefixLength :: nat where
  "queryTimePrefixLength = length ''Query time: ''"

text \<open>\<open>findTime\<close> answers the first match of the regular expression for the query time, empty if there is none.\<close>

definition getQueryTime :: "(string \<Rightarrow> string) \<Rightarrow> string \<Rightarrow> string" where
  "getQueryTime findTime digOutput =
     (let queryTimeLine = findTime digOutput in
      if length queryTimeLine < queryTimePrefixLength then ''INVALID TIME'' else drop queryTimePrefixLength queryTimeLine)"

definition getNumAnswers :: "(string \<Rightarrow> nat \<Rightarrow> string list) \<Rightarrow> string \<Rightarrow> int" where
  "getNumAnswers findAnswers digOutput = int (length (findAnswers digOutput 500))"

record dig_platform =
  dp_compile :: "string \<Rightarrow> (string \<Rightarrow> nat \<Rightarrow> string list) result"
  dp_find_time :: "string \<Rightarrow> string"
  dp_Setenv :: "unit result"
  dp_dig :: "string list \<Rightarrow> nat \<Rightarrow> string result"

definition dig_line :: "dig_platform \<Rightarrow> (string \<Rightarrow> nat \<Rightarrow> string list) \<Rightarrow> string \<Rightarrow> string \<Rightarrow> string" where
  "dig_line P findAnswers destination out = ''dig '' @ destination @ '' '' @ getQueryTime (dp_find_time P) out @ '' '' @
     itoa (getNumAnswers findAnswers out) @ '' answers'' @ [CHR 0x0A]"

text \<open>The loop over the ticks \<open>i, i + 1, \<dots>\<close>: the lines that are logged, and whether it panicked.\<close>

fun dig_loop :: "dig_platform \<Rightarrow> (string \<Rightarrow> nat \<Rightarrow> string list) \<Rightarrow> string \<Rightarrow> nat \<Rightarrow> nat \<Rightarrow> string list \<times> go_error option" where
  "dig_loop P findAnswers destination i 0 = ([], None)"
| "dig_loop P findAnswers destination i (Suc n) = (case dp_dig P [destination, ''+noall'', ''+answer'', ''+stats''] i of
       Inl e \<Rightarrow> ([], Some (Panic ''dig''))
     | Inr out \<Rightarrow> (case dig_loop P findAnswers destination (Suc i) n of
         (ls, p) \<Rightarrow> (dig_line P findAnswers destination out # ls, p)))"

definition diglett_main :: "dig_platform \<Rightarrow> string \<Rightarrow> string \<Rightarrow> string \<Rightarrow> nat \<Rightarrow> (int \<times> string list \<times> go_error option) result" where
  "diglett_main P PORT destination frequencyString ticks = (case port_from_env PORT of
       Inl e \<Rightarrow> Inl e
     | Inr systemPort \<Rightarrow>
         if destination = '''' then Inl (ErrText ''invalid required env var DIGLETT_DESTINATION'')
         else (case dp_compile P (destination @ ''.*IN.*A'') of
             Inl e \<Rightarrow> Inl (Panic ''regexp'')
           | Inr findAnswers \<Rightarrow> (case Atoi frequencyString of
               Inl e \<Rightarrow> Inl (ErrText ''invalid required env var DIGLETT_FREQUENCY_MS'')
             | Inr frequency \<Rightarrow> (case dp_Setenv P of
                 Inl e \<Rightarrow> Inl (ErrText ''unable to set PATH'')
               | Inr _ \<Rightarrow> if frequency \<le> 0 then Inl (Panic ''non-positive interval for NewTicker'')
                          else Inr (systemPort, dig_loop P findAnswers destination 0 ticks)))))"

text \<open>The handlers are copies of those of the proxy: \<open>True\<close> is the pattern of the statistics.\<close>

definition diglett_mux :: "(string \<times> bool) list" where
  "diglett_mux = [(''/stats'', True), (''/'', False)]"

definition diglett_serve :: "'l app_platform \<Rightarrow> int \<Rightarrow> app_request \<Rightarrow> 'l Stats \<Rightarrow> (string + app_reply) \<times> 'l Stats" where
  "diglett_serve P port req s = (case mux_route diglett_mux (ar_Path req) of
       MovedPermanently p \<Rightarrow> (Inl p, s)
     | NotFound \<Rightarrow> (Inr (Reply 404 (''404 page not found'' @ [CHR 0x0A])), s)
     | Handler True \<Rightarrow> map_prod Inr id (StatsHandler (ap_marshal_stats P) req s)
     | Handler False \<Rightarrow> (Inr (InfoHandler P port), s))"

subsection \<open>The registry client of tick\<close>

record ServiceInstance =
  si_ServiceName :: string
  si_Type :: string
  si_Value :: string
  si_Status :: string
  si_TTL :: int
  si_Tags :: "string list"

text \<open>\<open>url.Parse\<close> splits a URL into its path and a function that puts another path in its place.\<close>

record a8_client =
  a8_BaseURL :: string
  a8_parse :: "string \<Rightarrow> (string \<times> (string \<Rightarrow> string)) result"
  a8_marshal :: "ServiceInstance \<Rightarrow> string result"
  a8_NewRequest :: "string \<Rightarrow> unit result"
  LocalServerAddress :: string
  a8_ServiceName :: string
  TTLSeconds :: int

definition createURL :: "a8_client \<Rightarrow> string \<Rightarrow> string result" where
  "createURL c route = (case a8_parse c (a8_BaseURL c) of
       Inl e \<Rightarrow> Inl (Errorf ''unable to parse base url: '' e)
     | Inr (p, with_path) \<Rightarrow> Inr (with_path (filepath_Join p route)))"

text \<open>\<open>post url body\<close> is the exchange with the registry: status and body of the answer.\<close>

definition postServiceInstance :: "a8_client \<Rightarrow> (string \<Rightarrow> string \<Rightarrow> (int \<times> string result) result) \<Rightarrow> ServiceInstance \<Rightarrow> unit result" where
  "postServiceInstance c post serviceInstance = (case a8_marshal c serviceInstance of
       Inl e \<Rightarrow> Inl e
     | Inr reqBytes \<Rightarrow> (case createURL c ''/api/v1/instances'' of
         Inl e \<Rightarrow> Inl e
       | Inr url \<Rightarrow> (case a8_NewRequest c url of
           Inl e \<Rightarrow> Inl e
         | Inr _ \<Rightarrow> (case post url reqBytes of
             Inl e \<Rightarrow> Inl e
           | Inr (st, Inl e) \<Rightarrow> Inl e
           | Inr (st, Inr respBytes) \<Rightarrow>
               if st \<noteq> 201 then Inl (ErrText (''unexpected response code: '' @ itoa st @ '': '' @ respBytes)) else Inr ()))))"

definition a8_Register :: "a8_client \<Rightarrow> (string \<Rightarrow> string \<Rightarrow> (int \<times> string result) result) \<Rightarrow> unit result" where
  "a8_Register c post = postServiceInstance c post
     \<lparr>si_ServiceName = a8_ServiceName c, si_Type = ''tcp'', si_Value = LocalServerAddress c, si_Status = ''UP'', si_TTL = TTLSeconds c,
      si_Tags = []\<rparr>"

subsection \<open>Tick\<close>

record tick_environment =
  ApplicationName :: string
  InstanceIndex :: int
  te_Port :: string
  RegistryBaseURL :: string
  StartPort :: string
  te_ListenPorts :: string
  RegistryTTLSeconds :: string

text \<open>Integers of 64 bits, and Go's division, which truncates.\<close>

definition wrap64 :: "int \<Rightarrow> int" where
  "wrap64 i = (i + 2 ^ 63) mod 2 ^ 64 - 2 ^ 63"

definition quotient :: "int \<Rightarrow> int \<Rightarrow> int" where
  "quotient a b = (if a < 0 then - ((- a) div b) else a div b)"

text \<open>The interval in nanoseconds.\<close>

definition pollInterval :: "int \<Rightarrow> int" where
  "pollInterval ttlSeconds = wrap64 (quotient (wrap64 (ttlSeconds * 1000)) 4 * 1000000)"

definition atoi_env :: "string \<Rightarrow> string \<Rightarrow> int result" where
  "atoi_env name s = (if s = '''' then Inr 0
     else case Atoi s of Inl e \<Rightarrow> Inl (Errorf (''invalid env var '' @ name @ '': '') e) | Inr v \<Rightarrow> Inr v)"

definition effective_ttl :: "int \<Rightarrow> int" where
  "effective_ttl ttlSeconds = (if ttlSeconds < 10 then 10 else ttlSeconds)"

datatype tick_member = HttpServer string | RegistrationPoller int

record tick_platform =
  tp_parse_env :: "tick_environment result"
  tp_LocalIP :: "string result"
  tp_url_parse :: "string \<Rightarrow> (string \<times> (string \<Rightarrow> string)) result"
  tp_marshal :: "ServiceInstance \<Rightarrow> string result"
  tp_NewRequest :: "string \<Rightarrow> unit result"

text \<open>Everything up to the start of the ordered group: the registry client and the members in order.\<close>

definition tick_start :: "tick_platform \<Rightarrow> (a8_client \<times> tick_member list) result" where
  "tick_start P = (case tp_parse_env P of
       Inl e \<Rightarrow> Inl (Errorf ''unable to parse environment: '' e)
     | Inr env \<Rightarrow> (case atoi_env ''START_PORT'' (StartPort env) of
         Inl e \<Rightarrow> Inl e
       | Inr startPort \<Rightarrow> (case atoi_env ''LISTEN_PORTS'' (te_ListenPorts env) of
           Inl e \<Rightarrow> Inl e
         | Inr listenPorts \<Rightarrow> (case atoi_env ''REGISTRY_TTL_SECONDS'' (RegistryTTLSeconds env) of
             Inl e \<Rightarrow> Inl e
           | Inr parsed \<Rightarrow> (case tp_LocalIP P of
               Inl e \<Rightarrow> Inl (Errorf ''unable to discover local ip: '' e)
             | Inr localIP \<Rightarrow>
                 (let ttlSeconds = effective_ttl parsed;
                      client = \<lparr>a8_BaseURL = RegistryBaseURL env, a8_parse = tp_url_parse P, a8_marshal = tp_marshal P,
                        a8_NewRequest = tp_NewRequest P, LocalServerAddress = localIP @ '':'' @ te_Port env,
                        a8_ServiceName = ApplicationName env, TTLSeconds = ttlSeconds\<rparr>;
                      servers = (''0.0.0.0:'' @ te_Port env) #
                        map (\<lambda>i. ''0.0.0.0:'' @ itoa (wrap64 (startPort + int i))) [0..<nat listenPorts] in
                  Inr (client, map HttpServer servers @ [RegistrationPoller (pollInterval ttlSeconds)])))))))"

text \<open>What wakes the loop of \<open>Poller.Run\<close>: a signal, or the end of the interval with the result of the
  action. The result is the error that \<open>Run\<close> returns, or the errors it has logged so far.\<close>

datatype tick_event = PollSignal | PollDue "unit result"

fun poller_loop :: "go_error list \<Rightarrow> tick_event list \<Rightarrow> go_error list \<times> bool" where
  "poller_loop logged [] = (logged, True)"
| "poller_loop logged (PollSignal # es) = (logged, False)"
| "poller_loop logged (PollDue (Inl e) # es) = poller_loop (logged @ [e]) es"
| "poller_loop logged (PollDue (Inr _) # es) = poller_loop logged es"

definition Poller_Run :: "unit result \<Rightarrow> tick_event list \<Rightarrow> (go_error list \<times> bool) result" where
  "Poller_Run first es = (case first of Inl e \<Rightarrow> Inl e | Inr _ \<Rightarrow> Inr (poller_loop [] es))"

subsection \<open>The registry\<close>

text \<open>\<open>registryMain\<close> puts the parts of a library together; each constructor of the library is a parameter.
  The authentication modes are built in order.\<close>

record registry_conf =
  rc_LogLevel :: string
  rc_LogFormat :: string
  rc_Store :: string
  rc_StoreAddr :: string
  rc_Replication :: bool
  rc_AuthModes :: "string list"
  rc_JWTSecret :: string
  rc_K8sURL :: string
  rc_FSCatalog :: string
  rc_APIPort :: int
  rc_RequireHTTPS :: bool

record ('r, 'a, 'f, 'm) registry_library =
  rl_ParseLevel :: "string \<Rightarrow> unit result"
  rl_GetLogFormatter :: "string \<Rightarrow> unit result"
  rl_LoadLocales :: "string \<Rightarrow> unit result"
  rl_private_network :: bool
  rl_cluster :: "registry_conf \<Rightarrow> unit result"
  rl_replication :: "registry_conf \<Rightarrow> 'r result"
  rl_trusted :: 'a
  rl_jwt :: "string \<Rightarrow> 'a result"
  rl_chain :: "'a list \<Rightarrow> 'a result"
  rl_default :: 'a
  rl_kubernetes :: "string \<Rightarrow> 'f result"
  rl_filesystem :: "string \<Rightarrow> 'f result"
  rl_store :: "registry_conf \<Rightarrow> 'r option \<Rightarrow> 'f list \<Rightarrow> 'm"
  rl_serve :: "string \<Rightarrow> 'm \<Rightarrow> 'a \<Rightarrow> bool \<Rightarrow> unit result"

definition registry_replication :: "('r, 'a, 'f, 'm) registry_library \<Rightarrow> registry_conf \<Rightarrow> 'r option result" where
  "registry_replication L conf =
     (if rc_Store conf = ''inmem'' \<and> rc_Replication conf
      then if \<not> rl_private_network L then Inl (ErrText ''No private network is available within defined timeout'')
        else (case rl_cluster L conf of
            Inl e \<Rightarrow> Inl (Errorf ''Failed to create the cluster module: '' e)
          | Inr _ \<Rightarrow> (case rl_replication L conf of
              Inl e \<Rightarrow> Inl (Errorf ''Failed to create the replication module: '' e) | Inr r \<Rightarrow> Inr (Some r)))
      else Inr None)"

fun registry_auths :: "('r, 'a, 'f, 'm) registry_library \<Rightarrow> string \<Rightarrow> string list \<Rightarrow> 'a list result" where
  "registry_auths L secret [] = Inr []"
| "registry_auths L secret (mode # modes) = (case
      (if mode = ''trusted'' then Inr (rl_trusted L)
       else if mode = ''jwt'' then (case rl_jwt L secret of
           Inl e \<Rightarrow> Inl (Errorf ''Failed to create the authentication module: '' e) | Inr a \<Rightarrow> Inr a)
       else Inl (ErrText (''Failed to create the authentication module: unrecognized authentication mode '' @
         [CHR 0x27] @ ''%!s(<nil>)'' @ [CHR 0x27]))) of
      Inl e \<Rightarrow> Inl e
    | Inr a \<Rightarrow> (case registry_auths L secret modes of Inl e \<Rightarrow> Inl e | Inr as \<Rightarrow> Inr (a # as)))"

definition registry_catalogs :: "('r, 'a, 'f, 'm) registry_library \<Rightarrow> registry_conf \<Rightarrow> 'f list result" where
  "registry_catalogs L conf =
     (case (if rc_K8sURL conf \<noteq> '''' then map_sum id (\<lambda>f. [f]) (rl_kubernetes L (rc_K8sURL conf)) else Inr []) of
        Inl e \<Rightarrow> Inl e
      | Inr ks \<Rightarrow> (case (if rc_FSCatalog conf \<noteq> '''' then map_sum id (\<lambda>f. [f]) (rl_filesystem L (rc_FSCatalog conf)) else Inr []) of
          Inl e \<Rightarrow> Inl e | Inr fs \<Rightarrow> Inr (ks @ fs)))"

definition registryMain :: "('r, 'a, 'f, 'm) registry_library \<Rightarrow> registry_conf \<Rightarrow> unit result" where
  "registryMain L conf = (case rl_ParseLevel L (rc_LogLevel conf) of
       Inl e \<Rightarrow> Inl e
     | Inr _ \<Rightarrow> (case rl_GetLogFormatter L (rc_LogFormat conf) of
         Inl e \<Rightarrow> Inl e
       | Inr _ \<Rightarrow> (case rl_LoadLocales L ''./locales'' of
           Inl e \<Rightarrow> Inl e
         | Inr _ \<Rightarrow>
             if rc_Store conf = ''redis'' \<and> rc_StoreAddr conf = '''' then Inl (ErrText ''Address required for Redis store'')
             else (case registry_replication L conf of
                 Inl e \<Rightarrow> Inl e
               | Inr rep \<Rightarrow> (case (if rc_AuthModes conf = [] then Inr (rl_default L)
                     else case registry_auths L (rc_JWTSecret conf) (rc_AuthModes conf) of
                         Inl e \<Rightarrow> Inl e | Inr auths \<Rightarrow> rl_chain L auths) of
                   Inl e \<Rightarrow> Inl e
                 | Inr authenticator \<Rightarrow> (case registry_catalogs L conf of
                     Inl e \<Rightarrow> Inl e
                   | Inr catalogsExt \<Rightarrow>
                       rl_serve L ('':'' @ itoa (rc_APIPort conf)) (rl_store L conf rep catalogsExt) authenticator
                         (rc_RequireHTTPS conf)))))))"

text \<open>\<open>main\<close> and \<open>registryCommand\<close>: the lines that are printed. The command itself never fails.\<close>

definition registryCommand :: "(go_error \<Rightarrow> string) \<Rightarrow> ('r, 'a, 'f, 'm) registry_library \<Rightarrow> registry_conf \<Rightarrow> string list" where
  "registryCommand errText L conf = (case registryMain L conf of
       Inl e \<Rightarrow> [''Error starting registry: '' @ errText e @ [CHR 0x0A]] | Inr _ \<Rightarrow> [])"

subsection \<open>What the proxy measures\<close>

definition clears :: "app_request \<Rightarrow> bool" where
  "clears req \<longleftrightarrow> mux_route proxy_mux (ar_Path req) = Handler R_stats \<and> ar_Method req = ''DELETE''"

definition measured :: "'l app_platform \<Rightarrow> app_request \<Rightarrow> 'l list" where
  "measured P req = (if mux_route proxy_mux (ar_Path req) = Handler R_proxy
     then (case ap_Get P (''http://'' @ trim_prefix ''/proxy/'' (ar_Path req)) of Inl _ \<Rightarrow> [] | Inr (l, _) \<Rightarrow> [l]) else [])"

definition since_clear :: "app_request list \<Rightarrow> app_request list" where
  "since_clear reqs = rev (takeWhile (\<lambda>req. \<not> clears req) (rev reqs))"

definition answered :: "string + app_reply \<Rightarrow> bool" where
  "answered r \<longleftrightarrow> (case r of Inr (Reply st b) \<Rightarrow> st = 200 \<or> st = 500 | _ \<Rightarrow> True)"

declare trim_prefix.simps [simp del]

lemma proxy_serve_step:
  assumes "proxy_serve P port req s = (r, s')"
  shows "answered r \<and> Latency s' = (if clears req then [] else Latency s @ measured P req)"
proof (cases "mux_route proxy_mux (ar_Path req)")
  case NotFound
  then show ?thesis using mux_route_total [of R_info proxy_mux "ar_Path req"] by (simp add: proxy_mux_def)
next
  case (MovedPermanently p)
  then show ?thesis using assms by (auto simp: proxy_serve_def clears_def measured_def answered_def)
next
  case (Handler h)
  note defs = proxy_serve_def clears_def measured_def answered_def
  show ?thesis
  proof (cases h)
    case R_proxy
    with Handler assms show ?thesis
      by (auto simp: defs ProxyHandler_def Stats_Add_def Let_def split: sum.splits prod.splits)
  next
    case R_stats
    with Handler assms show ?thesis
      by (auto simp: defs StatsHandler_def Stats_Clear_def split: sum.splits if_splits)
  next
    case R_download
    with Handler assms show ?thesis by (auto simp: defs DownloadHandler_def Let_def split: sum.splits)
  next
    case R_ping
    with Handler assms show ?thesis
      by (auto simp: defs PingHandler_def handleError_def Let_def split: ping_end.splits option.splits)
  next
    case R_dig
    with Handler assms show ?thesis by (auto simp: defs DigHandler_def handleDigError_def Let_def split: sum.splits)
  next
    case R_info
    with Handler assms show ?thesis by (auto simp: defs InfoHandler_def split: sum.splits)
  next
    case R_upload
    with Handler assms show ?thesis by (auto simp: defs UploadHandler_def split: sum.splits option.splits)
  next
    case R_echo
    with Handler assms show ?thesis by (auto simp: defs EchoSourceIPHandler_def)
  qed
qed

lemma since_clear_snoc: "since_clear (reqs @ [req]) = (if clears req then [] else since_clear reqs @ [req])"
  by (simp add: since_clear_def)

lemma proxy_run:
  assumes "fold (\<lambda>req (rs, s). case proxy_serve P port req s of (r, s) \<Rightarrow> (rs @ [r], s)) reqs ([], \<lparr>Latency = []\<rparr>) = (rs, s)"
  shows "list_all answered rs \<and> length rs = length reqs \<and> Latency s = concat (map (measured P) (since_clear reqs))"
  using assms
proof (induction reqs arbitrary: rs s rule: rev_induct)
  case (snoc req reqs)
  obtain rs0 s0 where one: "fold (\<lambda>req (rs, s). case proxy_serve P port req s of (r, s) \<Rightarrow> (rs @ [r], s)) reqs ([], \<lparr>Latency = []\<rparr>) = (rs0, s0)"
    by fastforce
  obtain r s1 where two: "proxy_serve P port req s0 = (r, s1)" by fastforce
  from snoc.prems one two have "rs = rs0 @ [r]" "s = s1" by simp_all
  with snoc.IH [OF one] proxy_serve_step [OF two] show ?case by (simp add: since_clear_snoc)
qed (auto simp: since_clear_def)

text \<open>Nothing in diglett adds a latency: its statistics stay empty, and a request to \<^verbatim>\<open>/stats\<close> is answered with
  the text of the empty list or with nothing.\<close>

lemma diglett_stats_empty:
  assumes "Latency s = []" "diglett_serve P port req s = (r, s')"
  shows "Latency s' = [] \<and> (mux_route diglett_mux (ar_Path req) = Handler True \<longrightarrow> r \<noteq> Inr (Panicked ''marshal'') \<longrightarrow>
    r \<in> {Inr (Reply 200 '''')} \<union> (\<lambda>json. Inr (Reply 200 json)) ` {json. ap_marshal_stats P [] = Inr json})"
  using assms by (auto simp: diglett_serve_def StatsHandler_def Stats_Clear_def
    split: mux_answer.splits bool.splits sum.splits if_splits)

lemma digits_plain: "CHR ''/'' \<notin> set (digits_base 10 n)" "digits_base 10 n \<notin> {'''', ''.'', ''..''}"
proof -
  have "digits_base 10 n \<noteq> ''''" by (subst digits_base.simps) simp
  then show "CHR ''/'' \<notin> set (digits_base 10 n)" "digits_base 10 n \<notin> {'''', ''.'', ''..''}"
    using digits_are_digits [of n] by (auto simp: list_all_iff is_digit_def less_eq_char_def)
qed

subsection \<open>Presence in the registry\<close>

text \<open>One call of \<open>Register\<close>: how long it takes, when in that time the registry receives it, and whether it
  succeeds, all in milliseconds.\<close>

record attempt =
  at_takes :: int
  at_received :: int
  at_ok :: bool

text \<open>The times at which the registry receives a registration, for a poller that starts at \<open>now\<close>.\<close>

fun received :: "int \<Rightarrow> int \<Rightarrow> attempt list \<Rightarrow> int list" where
  "received interval now [] = []"
| "received interval now (a # as) =
     (if at_ok a then [now + at_received a] else []) @ received interval (now + at_takes a + interval) as"

text \<open>At most \<open>k\<close> failures in a row, of which \<open>r\<close> are left.\<close>

fun patient :: "nat \<Rightarrow> nat \<Rightarrow> attempt list \<Rightarrow> bool" where
  "patient k r [] = True"
| "patient k r (a # as) = (if at_ok a then patient k k as else case r of 0 \<Rightarrow> False | Suc r \<Rightarrow> patient k r as)"

definition quick :: "int \<Rightarrow> attempt \<Rightarrow> bool" where
  "quick d a \<longleftrightarrow> 0 \<le> at_received a \<and> at_received a \<le> at_takes a \<and> at_takes a \<le> d"

definition interval_ms :: "int \<Rightarrow> int" where
  "interval_ms ttlSeconds = pollInterval ttlSeconds div 1000000"

lemma wrap64_small: "- (2 ^ 63) \<le> i \<Longrightarrow> i < 2 ^ 63 \<Longrightarrow> wrap64 i = i"
  by (simp add: wrap64_def)

text \<open>The interval is a quarter of the time to live, unless that is more than a thousand years.\<close>

lemma pollInterval_exact: "0 \<le> ttl \<Longrightarrow> ttl \<le> 36893488147 \<Longrightarrow> pollInterval ttl = ttl * 250 * 1000000"
  by (simp add: pollInterval_def quotient_def wrap64_small)

lemma pollInterval_overflow: "pollInterval 36893488148 < 0"
  by code_simp

text \<open>The next registration comes within the time that the failures left take.\<close>

lemma next_received:
  assumes "patient k r as" "list_all (quick d) as" "0 \<le> interval" "0 \<le> d" "received interval now as = t # ts"
  shows "now \<le> t \<and> t \<le> now + int r * (d + interval) + d"
  using assms(1,2,5)
proof (induction as arbitrary: now r)
  case (Cons a as)
  show ?case
  proof (cases "at_ok a")
    case True
    with Cons.prems assms(3,4) have "t = now + at_received a" "quick d a" by auto
    moreover have "0 \<le> int r * (d + interval)" using assms(3,4) by simp
    ultimately show ?thesis by (auto simp: quick_def)
  next
    case False
    with Cons.prems(1) obtain r' where r: "r = Suc r'" "patient k r' as" by (cases r) auto
    from Cons.IH [OF r(2), of "now + at_takes a + interval"] Cons.prems(2,3) False
    have "now + at_takes a + interval \<le> t \<and> t \<le> now + at_takes a + interval + int r' * (d + interval) + d" "quick d a" by auto
    then show ?thesis using assms(3) by (auto simp: quick_def r(1) algebra_simps)
  qed
qed simp

lemma gaps_received:
  assumes "0 \<le> interval" "0 \<le> d"
  shows "patient k r as \<Longrightarrow> list_all (quick d) as \<Longrightarrow>
    successively (\<lambda>t t'. t' \<le> t + (int k + 1) * (d + interval) + d) (received interval now as)"
proof (induction as arbitrary: now r)
  case (Cons a as)
  show ?case
  proof (cases "at_ok a")
    case False
    with Cons.prems obtain r' where "patient k r' as" by (cases r) auto
    with Cons.IH [of r' "now + at_takes a + interval"] Cons.prems(2) False show ?thesis by simp
  next
    case True
    then have p: "patient k k as" "list_all (quick d) as" "quick d a" using Cons.prems by auto
    note rest = Cons.IH [OF p(1,2), of "now + at_takes a + interval"]
    show ?thesis
    proof (cases "received interval (now + at_takes a + interval) as")
      case Nil
      with True show ?thesis by simp
    next
      case (Cons t ts)
      from next_received [OF p(1,2) assms Cons] p(3)
      have "t \<le> now + at_received a + (int k + 1) * (d + interval) + d" by (auto simp: quick_def algebra_simps)
      with rest Cons True show ?thesis by simp
    qed
  qed
qed simp

subsection \<open>Properties\<close>

text \<open>The proxy application answers or redirects every request, and its statistics are exact: after any
  requests, the latencies are those of the proxied calls that got an answer since the last time they
  were cleared, in order.\<close>

theorem proxy_latencies_exact:
  assumes "proxy_main P PORT reqs = Inr (rs, s)"
  shows "Latency s = concat (map (measured P) (since_clear reqs)) \<and> length rs = length reqs \<and> list_all answered rs"
proof -
  obtain port where "fold (\<lambda>req (rs, s). case proxy_serve P port req s of (r, s) \<Rightarrow> (rs @ [r], s)) reqs ([], \<lparr>Latency = []\<rparr>) = (rs, s)"
    using assms by (auto simp: proxy_main_def split: sum.splits)
  from proxy_run [OF this] show ?thesis by simp
qed

definition demo_apps :: "int app_platform" where
  "demo_apps = \<lparr>ap_InterfaceAddrs = Inr [''10.0.0.1/32''], ap_LookupIP = (\<lambda>_. Inr [IPv4 ''1.2.3.4'']), ap_has_bin_ping = True,
     ap_ping = (\<lambda>_ _. Exited None), ap_Get = (\<lambda>u. if u = ''http://b'' then Inr (7, Inr ''hello'') else Inl (ErrText ''refused'')),
     ap_rand = (\<lambda>n. replicate n (CHR ''x'')), ap_max_slice = 1000, ap_marshal_info = (\<lambda>as p. Inr (concat as)),
     ap_marshal_strings = (\<lambda>ss. Inr (concat ss)), ap_marshal_stats = (\<lambda>_. Inr ''latency''), ap_errText = (\<lambda>_. ''e'')\<rparr>"

definition demo_get :: "string \<Rightarrow> string \<Rightarrow> app_request" where
  "demo_get m p = \<lparr>ar_Method = m, ar_Path = p, ar_RemoteAddr = '''', ar_Body = None\<rparr>"

definition demo_reqs :: "app_request list" where
  "demo_reqs = [demo_get ''GET'' ''/proxy/b'', demo_get ''DELETE'' ''/stats'', demo_get ''GET'' ''/proxy/b'', demo_get ''GET'' ''/proxy/c'',
     demo_get ''GET'' ''/proxy/b'']"

theorem proxy_latencies_exact_witness:
  "\<exists>rs s. proxy_main demo_apps ''8080'' demo_reqs = Inr (rs, s) \<and> Latency s = [7, 7]"
proof -
  have "\<exists>rs s. proxy_main demo_apps ''8080'' demo_reqs = Inr (rs, s)"
  proof -
    have "port_from_env ''8080'' = Inr 8080" by code_simp
    then show ?thesis by (simp add: proxy_main_def)
  qed
  moreover have "concat (map (measured demo_apps) (since_clear demo_reqs)) = [7, 7]" by code_simp
  ultimately show ?thesis using proxy_latencies_exact [of demo_apps "''8080''" demo_reqs] by metis
qed

text \<open>A download of \<open>n\<close> bytes, asked for by its path, has \<open>n\<close> bytes, if a slice may be that long.\<close>

theorem download_exact:
  assumes "\<And>k. length (ap_rand P k) = k" "int n \<le> ap_max_slice P" "int n < 2 ^ 63"
    and "ar_Path req = ''/download/'' @ itoa (int n)"
  shows "\<exists>b. proxy_serve P port req s = (Inr (Reply 200 b), s) \<and> length b = n"
proof -
  let ?d = "digits_base 10 n"
  have path: "ar_Path req = ''/download/'' @ ?d" using assms(4) by (simp add: itoa_def)
  have "split_on (CHR ''/'') (''/download/'' @ ?d) = ['''', ''download'', ?d]"
    using digits_plain(1) [of n] by (simp add: split_no_sep)
  then have "clean_comps True (''/download/'' @ ?d) = [''download'', ?d]"
    using digits_plain(2) [of n] by (simp add: clean_comps_def clean_step_def)
  moreover have "\<not> has_suffix (''/download/'' @ ?d) ''/''"
    using digits_plain [of n] by (auto simp: has_suffix_last) (metis last_in_set)
  ultimately have clean: "cleanPath (''/download/'' @ ?d) = ''/download/'' @ ?d"
    by (simp add: cleanPath_def filepath_Clean_def is_rooted_def)
  have "?d \<noteq> ''''" using digits_plain(2) [of n] by simp
  then have "mux_route proxy_mux (''/download/'' @ ?d) = Handler R_download"
    using clean by (simp add: mux_route_def proxy_mux_def mux_match_def pathMatch_def subtree_def has_suffix_def)
  moreover have "Atoi (trim_prefix ''/download/'' (''/download/'' @ ?d)) = Inr (int n)"
    using Atoi_itoa [of "int n"] assms(3) by (simp add: trim_prefix.simps itoa_def)
  ultimately show ?thesis using assms(1,2) by (simp add: proxy_serve_def DownloadHandler_def Let_def path del: append_Cons append_Nil)
qed

text \<open>\<open>tick\<close> keeps its registration alive while it polls, for every time to live from ten seconds to a
  thousand years: if no more than two calls in a row fail and a call takes less than a sixteenth of
  the time to live, each registration is followed by the next before it expires.\<close>

theorem presence_kept:
  assumes "tick_start P = Inr (client, members)" "TTLSeconds client \<le> 36893488147"
    and "patient 2 2 as" "list_all (quick d) as" "0 \<le> d" "16 * d < 1000 * TTLSeconds client"
  shows "last members = RegistrationPoller (pollInterval (TTLSeconds client)) \<and> 10 \<le> TTLSeconds client \<and>
    successively (\<lambda>t t'. t' < t + 1000 * TTLSeconds client) (received (interval_ms (TTLSeconds client)) now as)"
proof -
  have start: "last members = RegistrationPoller (pollInterval (TTLSeconds client))" "10 \<le> TTLSeconds client"
    using assms(1) by (auto simp: tick_start_def effective_ttl_def Let_def split: sum.splits if_splits)
  then have i: "interval_ms (TTLSeconds client) = 250 * TTLSeconds client"
    using assms(2) by (simp add: interval_ms_def pollInterval_exact)
  have "successively (\<lambda>t t'. t' \<le> t + (int 2 + 1) * (d + 250 * TTLSeconds client) + d) (received (250 * TTLSeconds client) now as)"
    by (rule gaps_received [OF _ assms(5,3,4)]) (use start(2) in simp)
  then have "successively (\<lambda>t t'. t' < t + 1000 * TTLSeconds client) (received (250 * TTLSeconds client) now as)"
    by (rule successively_mono) (use assms(6) in simp)
  with start i show ?thesis by simp
qed

definition demo_tick :: tick_platform where
  "demo_tick = \<lparr>tp_parse_env = Inr \<lparr>ApplicationName = ''tick'', InstanceIndex = 0, te_Port = ''8080'', RegistryBaseURL = ''http://r'',
     StartPort = ''7000'', te_ListenPorts = ''2'', RegistryTTLSeconds = ''5''\<rparr>, tp_LocalIP = Inr ''10.0.0.1'',
     tp_url_parse = (\<lambda>u. Inr (u, \<lambda>p. p)), tp_marshal = (\<lambda>_. Inr ''{}''), tp_NewRequest = (\<lambda>_. Inr ())\<rparr>"

text \<open>With calls that fail only after the timeout of twenty seconds, two failures lose a registration of ten
  seconds.\<close>

theorem slow_failures_lose_presence:
  "(let slow = \<lparr>at_takes = 20000, at_received = 0, at_ok = False\<rparr>; good = \<lparr>at_takes = 0, at_received = 0, at_ok = True\<rparr>; as = [good, slow, slow, good] in
     patient 2 2 as \<and> received (interval_ms (effective_ttl 5)) 0 as = [0, 47500])"
  by code_simp

theorem presence_kept_witness:
  "\<exists>client members. tick_start demo_tick = Inr (client, members) \<and>
     successively (\<lambda>t t'. t' < t + 10000) (received (interval_ms 10) 0
       [\<lparr>at_takes = 600, at_received = 0, at_ok = True\<rparr>, \<lparr>at_takes = 600, at_received = 0, at_ok = False\<rparr>,
        \<lparr>at_takes = 600, at_received = 0, at_ok = False\<rparr>, \<lparr>at_takes = 600, at_received = 600, at_ok = True\<rparr>])"
proof -
  have a: "Atoi ''7000'' = Inr 7000" "Atoi ''2'' = Inr 2" "Atoi ''5'' = Inr 5" by code_simp+
  obtain client members where start: "tick_start demo_tick = Inr (client, members)" and ttl: "TTLSeconds client = 10"
    by (simp add: tick_start_def demo_tick_def atoi_env_def a effective_ttl_def Let_def)
  from presence_kept [OF start, of "[\<lparr>at_takes = 600, at_received = 0, at_ok = True\<rparr>, \<lparr>at_takes = 600, at_received = 0, at_ok = False\<rparr>,
        \<lparr>at_takes = 600, at_received = 0, at_ok = False\<rparr>, \<lparr>at_takes = 600, at_received = 600, at_ok = True\<rparr>]" 600 0]
  show ?thesis using start unfolding ttl by (auto simp: quick_def)
qed

end
