(* ===== verification/Spec2Isabelle.thy ===== *)
theory Spec2Isabelle
  imports Concurrent_Requests Policy_Pipeline Migration_Types Garden_Main Discovery_Process Route_Populator CF_Pusher Example_Apps
begin

text \<open>
  \<^bold>\<open>A verification development for cf-networking-release.\<close>

  The release lets applications on Cloud Foundry talk to each other. Paths below are relative to
  \<^verbatim>\<open>src/src\<close> of the repository.

  \<^bold>\<open>Parts.\<close>
  \<^item> The \<^emph>\<open>policy server\<close> (\<^verbatim>\<open>policy-server\<close>) stores which application may open which connection to which
    other. Users change the policies through an external HTTP API that checks tokens with the UAA and
    applications, spaces and roles with the Cloud Controller; an internal API shows them to the cells.
    A cleaner deletes the policies of applications that are gone.
  \<^item> The \<^emph>\<open>external networker\<close> (\<^verbatim>\<open>garden-external-networker\<close>) is called by the container manager of a cell to
    set up and tear down the network of a container: CNI plugins, host ports from a state file that
    processes share under a file lock, bind mounts, and a redirect rule. \<^verbatim>\<open>lib/rules\<close> builds the
    iptables rules and runs iptables under a lock.
  \<^item> The \<^emph>\<open>service discovery controller\<close> (\<^verbatim>\<open>service-discovery-controller\<close>) learns the addresses of applications
    from NATS messages and forgets those that are not repeated. The \<^emph>\<open>DNS adapter\<close>
    (\<^verbatim>\<open>bosh-dns-adapter\<close>) answers DNS queries from it over HTTP.
  \<^item> \<^verbatim>\<open>lib/policy_client\<close> and \<^verbatim>\<open>lib/poller\<close> are used by programs that talk to the policy server.
    \<^verbatim>\<open>route_populator\<close> and \<^verbatim>\<open>cf-pusher\<close> are the tools of the scaling tests, and \<^verbatim>\<open>example-apps\<close> holds the
    applications that the tests deploy.

  \<^bold>\<open>Conventions.\<close> A Go struct is a record and a method a function of the same name, with a prefix where two
  components use one name. Stateful code takes and returns its state. An error is a value of
  \<open>go_error\<close>, a result is \<open>error + value\<close>, a panic is the error \<open>Panic\<close>, and code that does not return is
  \<open>None\<close>. Code outside the repository (database driver, HTTP, JSON, NATS, libcni, iptables, the \<^verbatim>\<open>cf\<close>
  command) is an argument, or a script of the faults that its next calls meet, so that every error
  path of the code is a branch of its model. The policy API is the exception: there the standard
  library's JSON and URLs are modelled down to the bytes, and only the router \<^verbatim>\<open>rata\<close> and the library
  \<^verbatim>\<open>json_client\<close> stay arguments. Go's random iteration order of maps is an argument as well.
  Goroutines are modelled by the order of their turns. Logging and the measuring of durations are
  left out.

  \<^bold>\<open>Theories.\<close>
  \<^item> \<^verbatim>\<open>Go_Prelude\<close>: errors, results, numbers as text, strings, paths, chunks; shared lemmas and the
    collection \<open>go_splits\<close>. \<^verbatim>\<open>Serve_Mux\<close>: the multiplexer of \<^verbatim>\<open>net/http\<close> and \<^verbatim>\<open>strconv.Atoi\<close>.
    \<^verbatim>\<open>Go_Json\<close>: UTF-8 and JSON text as \<^verbatim>\<open>encoding/json\<close> writes and reads it, with its round trip.
  \<^item> \<^verbatim>\<open>Store_Tables\<close>, \<^verbatim>\<open>Policy_Store\<close>: the three tables with the row operations of \<^verbatim>\<open>store/group.go\<close>,
    \<^verbatim>\<open>destination.go\<close> and \<^verbatim>\<open>policy.go\<close>, and the transactions and queries of \<^verbatim>\<open>store.go\<close>, on a connection with
    a fault for each statement. \<^verbatim>\<open>Policy_Store_Spec\<close>: abstraction to a set of policies and the invariant.
    \<^verbatim>\<open>Policy_Store_Refine\<close>: \<open>Create\<close> and \<open>Delete\<close> refine union and difference, both through the locale
    \<open>tx_body\<close> of transactional loops. \<^verbatim>\<open>Policy_Store_Queries\<close>, \<^verbatim>\<open>Policy_Store_Progress\<close>: what the
    queries read, and when \<open>Create\<close> succeeds. \<^verbatim>\<open>Policy_Store_Props\<close>: the properties with their witnesses.
  \<^item> \<^verbatim>\<open>Metrics_Wrapper\<close>, \<^verbatim>\<open>Data_Store\<close>: the store that handlers see; its contract is the locale \<open>data_store\<close>,
    interpreted on the metered store.
  \<^item> \<^verbatim>\<open>Migrations\<close>: the schema migrations of both dialects and the migrator. \<^verbatim>\<open>Migration_Types\<close>: a type
    system for their statements and its soundness.
  \<^item> \<^verbatim>\<open>Policy_API\<close>: payloads, validators and mappers of both API versions, with marshalling as an argument.
    \<^verbatim>\<open>Policy_Json\<close>: this argument for the payloads of \<^verbatim>\<open>api\<close>, \<^verbatim>\<open>api_v0\<close> and \<^verbatim>\<open>api_v0_internal\<close>, from their struct tags.
  \<^item> \<^verbatim>\<open>Clients\<close>: the UAA and Cloud Controller clients. \<^verbatim>\<open>Guards\<close>: \<open>PolicyGuard\<close>, \<open>QuotaGuard\<close> and the
    policy filter. \<^verbatim>\<open>Policy_Cleaner\<close>: the cleaner.
  \<^item> \<^verbatim>\<open>Handlers\<close>, \<^verbatim>\<open>Server_Props\<close>: handlers, middleware, routing and wiring of both servers; what a request
    may change and show. \<^verbatim>\<open>Server_Process\<close>: configuration, TLS settings, connection pool and start-up of both
    servers, and the external server while it runs, one event after the other. \<^verbatim>\<open>Concurrent_Requests\<close>:
    the same events as goroutines that interleave at their calls of the store, with the locale
    \<open>rely_guarantee\<close> interpreted for what they write and for what they acknowledge.
    \<^verbatim>\<open>Policy_Pipeline\<close>: both servers as functions of the bytes of a request, behind the policy clients;
    the path from a user's change to a cell. This theory adds the interleaving to that path.
  \<^item> \<^verbatim>\<open>Port_Allocator\<close>: \<^verbatim>\<open>lib/serial\<close> and \<^verbatim>\<open>port_allocator\<close>. \<^verbatim>\<open>IPTables_Rules\<close>: \<^verbatim>\<open>lib/rules\<close>, with the locale
    \<open>lock_discipline\<close> interpreted on the adapter. \<^verbatim>\<open>Garden_CNI\<close>: bind mounts, CNI controller and
    loader, proxy redirect. \<^verbatim>\<open>Garden_Manager\<close>: manager and IPC, with the locale \<open>port_contract\<close>.
    \<^verbatim>\<open>Garden_Main\<close>: configuration, command line and wiring, with the interpretation \<open>node_allocator\<close>.
  \<^item> \<^verbatim>\<open>Address_Table\<close>: the table and its pruning, with the locale \<open>address_book\<close> interpreted on it.
    \<^verbatim>\<open>Service_Discovery\<close>: subscriber, recorders and request handlers. \<^verbatim>\<open>DNS_Adapter\<close>: the adapter, and
    the path from a registration message to a DNS answer. \<^verbatim>\<open>Discovery_Process\<close>: configuration and start-up
    of both processes.
  \<^item> \<^verbatim>\<open>Policy_Client\<close>: policy clients and poller. \<^verbatim>\<open>Route_Populator\<close>: publisher and runner, the latter as a
    step relation. \<^verbatim>\<open>CF_Pusher\<close>: commands, and pools of goroutines bounded by a semaphore channel, with
    the locale \<open>staged_workers\<close> interpreted on the workers of the pusher and of the checker.
    \<^verbatim>\<open>Example_Apps\<close>: the proxy, smoke, diglett and tick applications and the start-up of the registry.

  \<^bold>\<open>What is shown.\<close>
  \<^item> Policy store: the tables stay well-formed under all calls and all faults; creating and deleting are
    union and difference of policy sets, all or nothing; unused tags are released; queries list
    exactly the stored policies they ask for; \<open>Create\<close> succeeds when tags suffice; tags fit
    their length. Migrations: the upgrade keeps the policies, both dialects build the same schema, and
    the statements are well-typed, which keeps the rows well-typed and rules out all failures but
    those that lie in the data.
  \<^item> Policy server: only requests answered with OK change the policy set, and exactly by what their
    body maps to; quotas hold; protected routes refuse callers without token or scope; readers see
    the policies of their spaces only; the cleaner leaves the policies between live applications;
    from the start on, every policy in the database was there before or was asked for by an
    authorised request.
  \<^item> Concurrent requests: under every interleaving the database stays well-formed, no policy appears or
    disappears without a request or a clean-up that accounts for it, and what was answered with OK
    holds. The quota is checked and used in two steps: it holds up to a factor, the number of
    requests between the two, and a theorem shows a race that exceeds it. Handling one event at a
    time is one of the interleavings.
  \<^item> API: validators accept exactly the well-formed policies; mapping to the store and back is the
    identity, also on the bytes that travel; the versions agree on policies for single ports. Clients:
    paging collects all pages and ends.
  \<^item> From users to cells: a listing of the internal API shows exactly the stored policies, once each and
    with one tag for each application; after an addition or deletion that the client reports as done,
    the cells see exactly the new set; without faults an authorised change arrives; of version-0
    batches a prefix arrives; and under every interleaving, what was acknowledged is shown to the
    cells unless it is deleted. Ids that a client puts into a URL are not escaped, hence the
    condition \<open>plain_id\<close>.
  \<^item> External networker: a container gets the least free port, no port has two holders, taking a
    container down frees its ports; the socket ignores malformed requests; every iptables command
    runs under the lock. Two theorems show faults of the code: a failed write forgets all ports,
    and metadata leaks from one container to the next.
  \<^item> Service discovery: look-ups return the addresses registered by the last messages; pruning, at
    any interleaving, keeps the fresh ones and removes the stale ones; a DNS query is answered with
    exactly the registered addresses. The list of NATS servers survives its joining only without commas.
  \<^item> Tools: version-0 batches arrive in order and in full; the route populator covers its routes only
    if \<open>n mod g < n div g\<close>; a check of the applications ends under every fair schedule and is exact;
    the pusher reports success only when every application runs. The statistics of the proxy are
    exact; \<^verbatim>\<open>tick\<close> stays registered through two failures if its calls are quick, and not if they time out.

  \<^bold>\<open>Bounds and fuel.\<close> Host ports of the networker are 32-bit words; ports, tags and times are unbounded
  integers as far as the code only compares and adds them; the polling interval of \<^verbatim>\<open>tick\<close> wraps around at
  64 bits. Loops are structural or have a termination measure. Where the environment decides how long a loop runs (connections on the
  socket, events of the poller, messages, turns of goroutines), the loop takes the list of what has
  happened so far. The partition of the route populator can run forever and is a partial function
  with the value \<open>None\<close>. A check of applications is given \<open>4 n + c + 1\<close> rounds of turns for \<open>n\<close>
  applications and \<open>c\<close> tokens: each worker is spawned, takes two steps, the second of which sends, and
  gives its token back; then come \<open>c\<close> tokens and the closing of the channel.

  \<^bold>\<open>Not modelled.\<close> Loggers, listeners, metrics emitters and the supervision of process groups are
  libraries outside the repository. Goroutines of the policy server interleave between their calls of
  the store, not within one: a call is one transaction or one query, and the isolation of the
  database makes it one step. The namespace adapter, the NATS connection provider and the library's
  policy type hold no logic. Generated fakes, fixtures and test helpers are not part of the release,
  nor are the Java examples. Data races are out of scope: calls
  guarded by a mutex are atomic, and the unguarded flag of the runner of the route populator is
  taken as atomic as well.
\<close>

subsection \<open>Concurrent requests and the cells\<close>


definition wire_process :: ps_process where
  "wire_process = race_process\<lparr>pr_env := wire_env, pr_store := demo_store\<rparr>"

definition wire_request :: request where
  "wire_request = (demo_request [''Bearer t''])\<lparr>Body := Inr (client_Marshal [wire_policy])\<rparr>"


end
